(* ===== verification/Gw_Prelude.thy ===== *)
theory Gw_Prelude
  imports Main "HOL-Library.Word"
begin

text \<open>
  Shared vocabulary of the development: the machine integer types of the C++ code, checked
  reads from byte buffers, the error-or-value sequencing used for exceptions, decimal
  printing as done by \<open>std::to_string\<close>, little-endian byte order and XOR checksums.
  The lemmas here are the ones several components share; most are declared \<open>[simp]\<close> or
  collected in one of the three named collections.
\<close>

unbundle bit_operations_syntax

named_theorems byte_io "equations of byte readers and writers"
named_theorems result_simps "equations of error-or-value sequencing"
named_theorems inv_intros "preservation lemmas for component invariants"

section \<open>Machine integers\<close>

type_synonym u8 = "8 word"
type_synonym u16 = "16 word"
type_synonym u32 = "32 word"
type_synonym u64 = "64 word"

text \<open>
  Signed C++ integers are kept as words of their width as well; \<open>sint\<close> reads them.
  Time points and durations are \<open>int\<close> counts of clock ticks.
\<close>

type_synonym ticks = int

section \<open>Errors as values\<close>

text \<open>
  A computation either fails with an \<open>'e\<close> or returns a value. \<open>and_then\<close> runs the second
  computation only when the first one returned, as code after a throwing call does.
\<close>

definition and_then :: "'e + 'a \<Rightarrow> ('a \<Rightarrow> 'e + 'b) \<Rightarrow> 'e + 'b" where
  "and_then m f = (case m of Inl e \<Rightarrow> Inl e | Inr x \<Rightarrow> f x)"

lemma and_then_simps [simp, result_simps]:
  "and_then (Inl e) f = Inl e"
  "and_then (Inr x) f = f x"
  by (simp_all add: and_then_def)

lemma and_then_assoc: "and_then (and_then m f) g = and_then m (\<lambda>x. and_then (f x) g)"
  by (cases m) simp_all

lemma and_then_Inr_iff: "and_then m f = Inr y \<longleftrightarrow> (\<exists>x. m = Inr x \<and> f x = Inr y)"
  by (cases m) simp_all

lemma and_then_Inl_iff:
  "and_then m f = Inl e \<longleftrightarrow> m = Inl e \<or> (\<exists>x. m = Inr x \<and> f x = Inl e)"
  by (cases m) simp_all

lemma and_then_cong [fundef_cong]:
  "m = m' \<Longrightarrow> (\<And>x. m' = Inr x \<Longrightarrow> f x = f' x) \<Longrightarrow> and_then m f = and_then m' f'"
  by (cases m') simp_all

text \<open>
  A fault of a C++ function: it threw an exception, it read past the end of a buffer, or it
  cast a floating-point value to an integer type that cannot hold it. The last two are
  undefined behaviour; they are values of the model so that their absence is something to
  prove.
\<close>

datatype 'x fault = Out_Of_Bounds nat | Bad_Cast | Thrown 'x

definition byte_at :: "u8 list \<Rightarrow> nat \<Rightarrow> 'x fault + u8" where
  "byte_at bs i = (if i < length bs then Inr (bs ! i) else Inl (Out_Of_Bounds i))"

lemma byte_at_in [simp, byte_io]: "i < length bs \<Longrightarrow> byte_at bs i = Inr (bs ! i)"
  by (simp add: byte_at_def)

lemma byte_at_out [simp, byte_io]: "\<not> i < length bs \<Longrightarrow> byte_at bs i = Inl (Out_Of_Bounds i)"
  by (simp add: byte_at_def)

lemma byte_at_0_ge [simp]: "numeral k \<le> length bs \<Longrightarrow> byte_at bs 0 = Inr (bs ! 0)"
  by (cases bs) simp_all

definition slice_at :: "u8 list \<Rightarrow> nat \<Rightarrow> nat \<Rightarrow> 'x fault + u8 list" where
  "slice_at bs i n =
     (if i + n \<le> length bs then Inr (take n (drop i bs)) else Inl (Out_Of_Bounds (length bs)))"

lemma slice_at_in [simp, byte_io]:
  "i + n \<le> length bs \<Longrightarrow> slice_at bs i n = Inr (take n (drop i bs))"
  by (simp add: slice_at_def)

section \<open>Bytes and characters\<close>

definition byte_of_char :: "char \<Rightarrow> u8" where
  "byte_of_char c = word_of_nat (of_char c)"

definition char_of_byte :: "u8 \<Rightarrow> char" where
  "char_of_byte b = char_of (unat b)"

lemma char_of_byte_of_char [simp]: "char_of_byte (byte_of_char c) = c"
  by (simp add: char_of_byte_def byte_of_char_def unat_of_nat)

lemma map_char_of_byte_of_char [simp]: "map (char_of_byte \<circ> byte_of_char) s = s"
  by (induction s) simp_all

lemma byte_of_char_of_byte [simp]: "byte_of_char (char_of_byte b) = b"
  by (simp add: char_of_byte_def byte_of_char_def unsigned_less [of b, where ?'a = nat, simplified])

lemma map_byte_of_char_of_byte [simp]: "map (byte_of_char \<circ> char_of_byte) s = s"
  by (induction s) simp_all

section \<open>Little-endian integers\<close>

text \<open>
  \<open>b0 | (b1 << 8) | (b2 << 16) | (b3 << 24)\<close>: the bytes are promoted to 32-bit \<open>int\<close>
  before they are shifted.
\<close>

definition le16 :: "u8 \<Rightarrow> u8 \<Rightarrow> u32" where
  "le16 b0 b1 = ucast b0 OR push_bit 8 (ucast b1)"

definition le32 :: "u8 \<Rightarrow> u8 \<Rightarrow> u8 \<Rightarrow> u8 \<Rightarrow> u32" where
  "le32 b0 b1 b2 b3 =
     ucast b0 OR push_bit 8 (ucast b1) OR push_bit 16 (ucast b2) OR push_bit 24 (ucast b3)"

definition le32_bytes :: "u32 \<Rightarrow> u8 list" where
  "le32_bytes w =
     [ucast (w AND 255), ucast (drop_bit 8 w AND 255),
      ucast (drop_bit 16 w AND 255), ucast (drop_bit 24 w AND 255)]"

definition le16_bytes :: "u16 \<Rightarrow> u8 list" where
  "le16_bytes w = [ucast (w AND 255), ucast (drop_bit 8 w AND 255)]"

definition le64_bytes :: "u64 \<Rightarrow> u8 list" where
  "le64_bytes w = map (\<lambda>i. ucast (drop_bit (i * 8) w AND 255)) [0..<8]"

lemma length_le_bytes [simp]:
  "length (le32_bytes w) = 4" "length (le16_bytes v) = 2" "length (le64_bytes u) = 8"
  by (simp_all add: le32_bytes_def le16_bytes_def le64_bytes_def)

definition read_le16 :: "u8 list \<Rightarrow> nat \<Rightarrow> 'x fault + u32" where
  "read_le16 bs i =
     and_then (byte_at bs i) (\<lambda>b0. and_then (byte_at bs (i + 1)) (\<lambda>b1. Inr (le16 b0 b1)))"

definition read_le32 :: "u8 list \<Rightarrow> nat \<Rightarrow> 'x fault + u32" where
  "read_le32 bs i =
     and_then (byte_at bs i) (\<lambda>b0. and_then (byte_at bs (i + 1)) (\<lambda>b1.
     and_then (byte_at bs (i + 2)) (\<lambda>b2. and_then (byte_at bs (i + 3)) (\<lambda>b3.
       Inr (le32 b0 b1 b2 b3)))))"

lemma read_le16_in [simp, byte_io]:
  "i + 2 \<le> length bs \<Longrightarrow> read_le16 bs i = Inr (le16 (bs ! i) (bs ! (i + 1)))"
  by (simp add: read_le16_def)

lemma read_le32_in [simp, byte_io]:
  "i + 4 \<le> length bs \<Longrightarrow>
     read_le32 bs i = Inr (le32 (bs ! i) (bs ! (i + 1)) (bs ! (i + 2)) (bs ! (i + 3)))"
  by (simp add: read_le32_def)

lemma mask_8_255: "(255 :: 'a::len word) = mask 8"
  by (simp add: mask_eq_exp_minus_1)

lemma ucast_and_255: "(ucast (w AND 255) :: u8) = ucast w"
  unfolding mask_8_255 by (rule bit_word_eqI) (auto simp: bit_simps dest: bit_imp_le_length)

lemma le32_bytes_inverse:
  "le32 (ucast w) (ucast (drop_bit 8 w)) (ucast (drop_bit 16 w)) (ucast (drop_bit 24 w)) = w"
  unfolding le32_def
proof (rule bit_word_eqI)
  fix n
  assume "n < LENGTH(32)"
  then consider "n < 8" | "8 \<le> n" "n < 16" | "16 \<le> n" "n < 24" | "24 \<le> n" "n < 32"
    by fastforce
  then show "bit ((ucast (ucast w :: u8) :: u32) OR push_bit 8 (ucast (ucast (drop_bit 8 w) :: u8)) OR
      push_bit 16 (ucast (ucast (drop_bit 16 w) :: u8)) OR
      push_bit 24 (ucast (ucast (drop_bit 24 w) :: u8))) n = bit w n"
    by cases (auto simp: bit_simps)
qed

lemma le32_nth_bytes:
  "le32 (le32_bytes w ! 0) (le32_bytes w ! 1) (le32_bytes w ! 2) (le32_bytes w ! 3) = w"
  by (simp add: le32_bytes_def ucast_and_255 le32_bytes_inverse)

section \<open>XOR checksums\<close>

definition xor_all :: "u8 list \<Rightarrow> u8" where
  "xor_all bs = foldl (\<lambda>c b. c XOR b) 0 bs"

lemma xor_foldl: "foldl (\<lambda>c b. c XOR b) a bs = (a :: u8) XOR foldl (\<lambda>c b. c XOR b) 0 bs"
proof (induction bs arbitrary: a)
  case Nil
  then show ?case by simp
next
  case (Cons b bs)
  show ?case
    by (simp add: Cons.IH [of "a XOR b"] Cons.IH [of b] xor.assoc)
qed

lemma xor_all_simps [simp]:
  "xor_all [] = 0"
  "xor_all (b # bs) = b XOR xor_all bs"
  "xor_all (xs @ ys) = xor_all xs XOR xor_all ys"
  by (simp_all add: xor_all_def xor_foldl [of b bs] xor_foldl [of "foldl (\<lambda>c b. c XOR b) 0 xs" ys])

lemma xor_left_inj: "(a XOR b = a XOR c) \<longleftrightarrow> (b :: 'a::len word) = c"
proof
  assume "a XOR b = a XOR c"
  then have "a XOR (a XOR b) = a XOR (a XOR c)" by simp
  then show "b = c" by (simp add: xor.assoc [symmetric])
qed simp

lemma xor_eq_0_iff: "(a XOR b = 0) \<longleftrightarrow> (a :: 'a::len word) = b"
  using xor_left_inj [of a b a] by auto

lemma xor_all_update:
  assumes "i < length bs"
  shows "xor_all (bs[i := b]) = xor_all bs \<longleftrightarrow> b = bs ! i"
proof -
  have "xor_all bs = xor_all (take i bs) XOR (bs ! i XOR xor_all (drop (Suc i) bs))"
    using id_take_nth_drop [OF assms] by (metis xor_all_simps(2,3))
  moreover have "xor_all (bs[i := b]) = xor_all (take i bs) XOR (b XOR xor_all (drop (Suc i) bs))"
    using assms by (simp add: upd_conv_take_nth_drop)
  ultimately show ?thesis
    by (metis xor.commute xor_left_inj)
qed

section \<open>Decimal printing\<close>

definition digit_char :: "nat \<Rightarrow> char" where
  "digit_char n = char_of (48 + n)"

fun dec_string :: "nat \<Rightarrow> string" where
  "dec_string n =
     (if n < 10 then [digit_char n] else dec_string (n div 10) @ [digit_char (n mod 10)])"

declare dec_string.simps [simp del]

definition is_digit :: "char \<Rightarrow> bool" where
  "is_digit c \<longleftrightarrow> 48 \<le> (of_char c :: nat) \<and> (of_char c :: nat) \<le> 57"

lemma of_char_digit [simp]: "n < 10 \<Longrightarrow> of_char (digit_char n) = 48 + n"
  by (simp add: digit_char_def)

lemma is_digit_digit_char [simp]: "n < 10 \<Longrightarrow> is_digit (digit_char n)"
  by (simp add: is_digit_def)

lemma is_digit_colon [simp]: "\<not> is_digit CHR '':''"
  by (simp add: is_digit_def)

lemma dec_string_digits: "list_all is_digit (dec_string n)"
proof (induction n rule: dec_string.induct)
  case (1 n)
  then show ?case by (subst dec_string.simps) auto
qed

lemma dec_string_not_Nil [simp]: "dec_string n \<noteq> []"
  by (subst dec_string.simps) simp

definition dec_value :: "string \<Rightarrow> nat" where
  "dec_value s = foldl (\<lambda>a c. 10 * a + (of_char c - 48)) 0 s"

lemma dec_value_snoc [simp]: "dec_value (s @ [c]) = 10 * dec_value s + (of_char c - 48)"
  by (simp add: dec_value_def)

lemma dec_value_dec_string [simp]: "dec_value (dec_string n) = n"
proof (induction n rule: dec_string.induct)
  case (1 n)
  show ?case
  proof (cases "n < 10")
    case True
    then show ?thesis by (subst dec_string.simps) (simp add: dec_value_def)
  next
    case False
    with 1 show ?thesis by (subst dec_string.simps) simp
  qed
qed

lemma dec_string_inject [simp]: "dec_string m = dec_string n \<longleftrightarrow> m = n"
  by (metis dec_value_dec_string)

lemma dec_string_small: "n < 10 \<Longrightarrow> dec_string n = [digit_char n]"
  by (subst dec_string.simps) simp

lemma dec_string_no_sep: "\<not> is_digit c \<Longrightarrow> c \<notin> set (dec_string n)"
  using dec_string_digits [of n] by (auto simp: list_all_iff)

text \<open>
  A key that ends in a separator and a number can be split in one way only, because the
  number holds no separator: the fact behind every key of the form \<open>imei:sequence\<close>.
\<close>

lemma key_split_unique:
  assumes "\<not> is_digit c"
  shows "a @ c # dec_string m = b @ c # dec_string n \<longleftrightarrow> a = b \<and> m = n"
proof
  assume eq: "a @ c # dec_string m = b @ c # dec_string n"
  have "c \<notin> set (dec_string m)" "c \<notin> set (dec_string n)"
    using assms by (simp_all add: dec_string_no_sep)
  with eq have "a = b \<and> dec_string m = dec_string n"
    by (fastforce simp: append_eq_append_conv2 append_eq_Cons_conv Cons_eq_append_conv
        dest: arg_cong [where f = set])
  then show "a = b \<and> m = n" by simp
qed simp

section \<open>Association lists as unordered maps\<close>

text \<open>
  A hash map is an association list with distinct keys; its order stands for the
  unspecified iteration order of the container.
\<close>

fun al_set :: "'k \<Rightarrow> 'v \<Rightarrow> ('k \<times> 'v) list \<Rightarrow> ('k \<times> 'v) list" where
  "al_set k v [] = [(k, v)]"
| "al_set k v ((k', v') # xs) = (if k = k' then (k, v) # xs else (k', v') # al_set k v xs)"

definition al_del :: "'k \<Rightarrow> ('k \<times> 'v) list \<Rightarrow> ('k \<times> 'v) list" where
  "al_del k xs = filter (\<lambda>e. fst e \<noteq> k) xs"

lemma map_of_al_set [simp]: "map_of (al_set k v xs) = (map_of xs)(k \<mapsto> v)"
  by (induction k v xs rule: al_set.induct) (auto simp: fun_eq_iff)

lemma fst_set_al_set [simp]: "fst ` set (al_set k v xs) = insert k (fst ` set xs)"
  by (induction k v xs rule: al_set.induct) auto

lemma set_fst_al_set [simp]: "set (map fst (al_set k v xs)) = insert k (set (map fst xs))"
  by (induction k v xs rule: al_set.induct) auto

lemma distinct_al_set [simp]: "distinct (map fst xs) \<Longrightarrow> distinct (map fst (al_set k v xs))"
proof (induction k v xs rule: al_set.induct)
  case (2 k v k' v' xs)
  then show ?case using set_fst_al_set [of k v xs] by (auto simp del: set_map)
qed simp

lemma al_set_new: "k \<notin> fst ` set xs \<Longrightarrow> al_set k v xs = xs @ [(k, v)]"
  by (induction k v xs rule: al_set.induct) auto

lemma map_of_al_del [simp]: "map_of (al_del k xs) = (map_of xs)(k := None)"
  by (induction xs) (auto simp: al_del_def fun_eq_iff)

lemma al_del_simps [simp]:
  "al_del k [] = []"
  "al_del k ((k', v) # xs) = (if k' = k then al_del k xs else (k', v) # al_del k xs)"
  "al_del k (xs @ ys) = al_del k xs @ al_del k ys"
  by (simp_all add: al_del_def)

lemma al_del_absent: "k \<notin> fst ` set xs \<Longrightarrow> al_del k xs = xs"
  by (auto simp: al_del_def filter_id_conv)

lemma set_al_del [simp]: "set (al_del k xs) = {x \<in> set xs. fst x \<noteq> k}"
  by (auto simp: al_del_def)

lemma distinct_al_del [simp]: "distinct (map fst xs) \<Longrightarrow> distinct (map fst (al_del k xs))"
  by (simp add: al_del_def distinct_map_filter)

end
