(* ===== verification/Ieee_Float.thy ===== *)
theory Ieee_Float
  imports Gw_Prelude Complex_Main "HOL-Library.Log_Nat"
begin

text \<open>
  The \<open>float\<close> and \<open>double\<close> arithmetic the C++ code relies on: IEEE 754 binary formats with
  round-to-nearest, ties to even. A value is a rational, a signed infinity or NaN; bit patterns
  are decoded with \<open>fp_decode\<close> and produced with \<open>fp_encode\<close>. The sign of zero is the only
  thing the value level forgets. The locale \<open>rounding\<close> states what the arithmetic proofs use of
  a rounding function; it is interpreted on the formats of \<open>float\<close> and \<open>double\<close>.
\<close>

section \<open>Values\<close>

datatype fp = Fin rat | Inf bool | NaN

text \<open>\<open>Inf True\<close> is the negative infinity. Comparisons with NaN are false.\<close>

fun fp_lt :: "fp \<Rightarrow> fp \<Rightarrow> bool" where
  "fp_lt (Fin a) (Fin b) = (a < b)"
| "fp_lt (Fin a) (Inf neg) = (\<not> neg)"
| "fp_lt (Inf neg) (Fin b) = neg"
| "fp_lt (Inf n1) (Inf n2) = (n1 \<and> \<not> n2)"
| "fp_lt _ _ = False"

fun fp_le :: "fp \<Rightarrow> fp \<Rightarrow> bool" where
  "fp_le (Fin a) (Fin b) = (a \<le> b)"
| "fp_le (Fin a) (Inf neg) = (\<not> neg)"
| "fp_le (Inf neg) (Fin b) = neg"
| "fp_le (Inf n1) (Inf n2) = (n1 \<or> \<not> n2)"
| "fp_le _ _ = False"

text \<open>A cast to an integer type drops the fraction.\<close>

definition truncate :: "rat \<Rightarrow> int" where
  "truncate x = (if x < 0 then \<lceil>x\<rceil> else \<lfloor>x\<rfloor>)"

section \<open>Rounding\<close>

text \<open>The exponent of the leading bit of a positive rational.\<close>

definition ilog2 :: "rat \<Rightarrow> int" where
  "ilog2 x =
     (let (n, d) = quotient_of x; k = bitlen n - bitlen d
      in if 2 powi k \<le> x then k else k - 1)"

definition round_half_even :: "rat \<Rightarrow> int" where
  "round_half_even y =
     (let f = \<lfloor>y\<rfloor>; d = y - of_int f
      in if d < 1/2 then f else if 1/2 < d then f + 1 else if even f then f else f + 1)"

text \<open>
  A format has \<open>mb\<close> stored mantissa bits and smallest quantum \<open>2 powi qmin\<close>. The quantum of
  a magnitude is the one of its binade, but never below the smallest.
\<close>

definition quantum :: "nat \<Rightarrow> int \<Rightarrow> rat \<Rightarrow> int" where
  "quantum mb qmin x = (if x = 0 then qmin else max (ilog2 x - int mb) qmin)"

definition mag_round :: "nat \<Rightarrow> int \<Rightarrow> rat \<Rightarrow> rat" where
  "mag_round mb qmin x =
     (let q = quantum mb qmin x in of_int (round_half_even (x / 2 powi q)) * 2 powi q)"

definition rat_round :: "nat \<Rightarrow> int \<Rightarrow> rat \<Rightarrow> rat" where
  "rat_round mb qmin x = (if x < 0 then - mag_round mb qmin (- x) else mag_round mb qmin x)"

definition fp_round :: "nat \<Rightarrow> nat \<Rightarrow> rat \<Rightarrow> fp" where
  "fp_round eb mb x =
     (let bias = 2 ^ (eb - 1) - 1; y = rat_round mb (1 - bias - int mb) x
      in if \<bar>y\<bar> < 2 powi (bias + 1) then Fin y else Inf (x < 0))"

definition f64 :: "rat \<Rightarrow> fp" where "f64 = fp_round 11 52"
definition f32 :: "rat \<Rightarrow> fp" where "f32 = fp_round 8 23"

section \<open>Bit patterns\<close>

definition fp_decode :: "nat \<Rightarrow> nat \<Rightarrow> nat \<Rightarrow> fp" where
  "fp_decode eb mb n =
     (let frac = n mod 2 ^ mb; ex = (n div 2 ^ mb) mod 2 ^ eb; neg = odd (n div 2 ^ (mb + eb));
          qmin = 1 - (2 ^ (eb - 1) - 1) - int mb; s = (if neg then -1 else 1)
      in if ex = 2 ^ eb - 1 then (if frac = 0 then Inf neg else NaN)
         else if ex = 0 then Fin (s * (of_nat frac * 2 powi qmin))
         else Fin (s * (of_nat (2 ^ mb + frac) * 2 powi (int ex - 1 + qmin))))"

definition fp_encode :: "nat \<Rightarrow> nat \<Rightarrow> rat \<Rightarrow> nat" where
  "fp_encode eb mb x =
     (let qmin = 1 - (2 ^ (eb - 1) - 1) - int mb; q = quantum mb qmin \<bar>x\<bar>;
          r = nat (round_half_even (\<bar>x\<bar> / 2 powi q))
      in min (nat (q - qmin) * 2 ^ mb + r) ((2 ^ eb - 1) * 2 ^ mb)
         + (if x < 0 then 2 ^ (mb + eb) else 0))"

definition double_bits :: "rat \<Rightarrow> u64" where "double_bits x = word_of_nat (fp_encode 11 52 x)"
definition float_bits :: "rat \<Rightarrow> u32" where "float_bits x = word_of_nat (fp_encode 8 23 x)"
definition double_val :: "u64 \<Rightarrow> fp" where "double_val w = fp_decode 11 52 (unat w)"
definition float_val :: "u32 \<Rightarrow> fp" where "float_val w = fp_decode 8 23 (unat w)"

section \<open>Arithmetic on doubles\<close>

fun dbl_add :: "fp \<Rightarrow> fp \<Rightarrow> fp" where
  "dbl_add (Fin a) (Fin b) = f64 (a + b)"
| "dbl_add (Inf n1) (Inf n2) = (if n1 = n2 then Inf n1 else NaN)"
| "dbl_add (Inf n) (Fin b) = Inf n"
| "dbl_add (Fin a) (Inf n) = Inf n"
| "dbl_add _ _ = NaN"

fun dbl_neg :: "fp \<Rightarrow> fp" where
  "dbl_neg (Fin a) = Fin (- a)"
| "dbl_neg (Inf n) = Inf (\<not> n)"
| "dbl_neg NaN = NaN"

definition dbl_sub :: "fp \<Rightarrow> fp \<Rightarrow> fp" where
  "dbl_sub x y = dbl_add x (dbl_neg y)"

fun dbl_mul :: "fp \<Rightarrow> fp \<Rightarrow> fp" where
  "dbl_mul (Fin a) (Fin b) = f64 (a * b)"
| "dbl_mul (Inf n1) (Inf n2) = Inf (n1 \<noteq> n2)"
| "dbl_mul (Inf n) (Fin b) = (if b = 0 then NaN else Inf (n \<noteq> (b < 0)))"
| "dbl_mul (Fin a) (Inf n) = (if a = 0 then NaN else Inf (n \<noteq> (a < 0)))"
| "dbl_mul _ _ = NaN"

text \<open>
  Division, for a finite nonzero divisor (every divisor in the code is a nonzero constant or
  guarded by a test).
\<close>

fun dbl_div :: "fp \<Rightarrow> rat \<Rightarrow> fp" where
  "dbl_div (Fin a) b = f64 (a / b)"
| "dbl_div (Inf n) b = Inf (n \<noteq> (b < 0))"
| "dbl_div NaN b = NaN"

text \<open>\<open>std::min(a, b)\<close> returns \<open>b\<close> only when \<open>b < a\<close>.\<close>

definition dbl_min :: "fp \<Rightarrow> fp \<Rightarrow> fp" where
  "dbl_min a b = (if fp_lt b a then b else a)"

section \<open>What rounding guarantees\<close>

text \<open>
  The laws the rest of the development uses: a rounding function is monotone and odd, and
  leaves the dyadic numbers of bounded significand alone.
\<close>

locale rounding =
  fixes rnd :: "rat \<Rightarrow> rat" and bound :: int and emin :: int
  assumes rnd_mono: "x \<le> y \<Longrightarrow> rnd x \<le> rnd y"
    and rnd_neg: "rnd (- x) = - rnd x"
    and rnd_dyadic: "\<bar>n\<bar> \<le> bound \<Longrightarrow> emin \<le> e \<Longrightarrow> rnd (of_int n * 2 powi e) = of_int n * 2 powi e"
    and bound_nonneg: "0 \<le> bound"
    and emin_nonpos: "emin \<le> 0"
begin

lemma rnd_int: "\<bar>n\<bar> \<le> bound \<Longrightarrow> rnd (of_int n) = of_int n"
  using rnd_dyadic [of n 0] emin_nonpos by simp

lemma rnd_0: "rnd 0 = 0"
  using rnd_int [of 0] bound_nonneg by simp

lemma rnd_nonneg: "0 \<le> x \<Longrightarrow> 0 \<le> rnd x"
  using rnd_mono [of 0 x] by (simp add: rnd_0)

lemma rnd_nonpos: "x \<le> 0 \<Longrightarrow> rnd x \<le> 0"
  using rnd_mono [of x 0] by (simp add: rnd_0)

lemma rnd_le_int: "x \<le> of_int n \<Longrightarrow> \<bar>n\<bar> \<le> bound \<Longrightarrow> rnd x \<le> of_int n"
  using rnd_mono [of x "of_int n"] by (simp add: rnd_int)

lemma rnd_ge_int: "of_int n \<le> x \<Longrightarrow> \<bar>n\<bar> \<le> bound \<Longrightarrow> of_int n \<le> rnd x"
  using rnd_mono [of "of_int n" x] by (simp add: rnd_int)

lemma rnd_gt_int:
  assumes "of_int n + 2 powi (- int k) \<le> x" "\<bar>n * 2 ^ k + 1\<bar> \<le> bound" "emin \<le> - int k"
  shows "of_int n < rnd x"
proof -
  have eq: "of_int (n * 2 ^ k + 1) * 2 powi (- int k) = (of_int n + 2 powi (- int k) :: rat)"
    by (simp add: power_int_minus power_int_of_nat field_simps)
  have "of_int n < (of_int n + 2 powi (- int k) :: rat)"
    by (simp add: zero_less_power_int)
  also have "\<dots> = rnd (of_int n + 2 powi (- int k))"
    using rnd_dyadic [OF assms(2,3)] by (simp only: eq)
  also have "\<dots> \<le> rnd x" by (rule rnd_mono [OF assms(1)])
  finally show ?thesis .
qed

lemma rnd_lt_int:
  assumes "x \<le> of_int n - 2 powi (- int k)" "\<bar>- n * 2 ^ k + 1\<bar> \<le> bound" "emin \<le> - int k"
  shows "rnd x < of_int n"
  using rnd_gt_int [of "- n" k "- x"] assms by (simp add: rnd_neg)

lemma rnd_between:
  "of_int a \<le> x \<Longrightarrow> x \<le> of_int b \<Longrightarrow> \<bar>a\<bar> \<le> bound \<Longrightarrow> \<bar>b\<bar> \<le> bound \<Longrightarrow>
     of_int a \<le> rnd x \<and> rnd x \<le> of_int b"
  by (simp add: rnd_le_int rnd_ge_int)

end

subsection \<open>The leading bit\<close>

lemma powi_mono: "m \<le> n \<Longrightarrow> (2 :: rat) powi m \<le> 2 powi n"
  by (simp add: power_int_increasing)

lemma powi_less_iff: "(2 :: rat) powi m < 2 powi n \<longleftrightarrow> m < n"
  by (metis linorder_not_less one_less_numeral_iff power_int_strict_increasing powi_mono
      semiring_norm(76))

lemma powi_le_iff: "(2 :: rat) powi m \<le> 2 powi n \<longleftrightarrow> m \<le> n"
  by (simp add: powi_less_iff flip: linorder_not_less)

lemma powi_pos [simp]: "0 < (2 :: rat) powi n"
  by (simp add: zero_less_power_int)

lemma powi_not_neg [simp]: "\<not> (2 :: rat) powi n < 0"
  using powi_pos [of n] by linarith

lemma powi_nonzero [simp]: "(2 :: rat) powi n \<noteq> 0"
  by simp

lemma bitlen_bounds_rat:
  assumes "0 < n"
  shows "2 powi (bitlen n - 1) \<le> (of_int n :: rat) \<and> (of_int n :: rat) < 2 powi bitlen n"
proof -
  have b: "2 ^ nat (bitlen n - 1) \<le> n" "n < 2 ^ nat (bitlen n)"
    using bitlen_bounds [OF assms] by auto
  have p: "0 < bitlen n" using assms bitlen_eq_zero_iff [of n] bitlen_nonneg [of n] by linarith
  have "(of_int (2 ^ nat (bitlen n - 1)) :: rat) \<le> of_int n" "(of_int n :: rat) < of_int (2 ^ nat (bitlen n))"
    using b by (simp_all only: of_int_le_iff of_int_less_iff)
  with p show ?thesis by (simp add: power_int_def)
qed

lemma ilog2_bounds:
  assumes "0 < x"
  shows "2 powi ilog2 x \<le> x" "x < 2 powi (ilog2 x + 1)"
proof -
  obtain n d where q: "quotient_of x = (n, d)" by (cases "quotient_of x") auto
  have d: "0 < d" using quotient_of_denom_pos [OF q] .
  have x: "x = of_int n / of_int d" using quotient_of_div [OF q] .
  have n: "0 < n" using assms d by (simp add: x zero_less_divide_iff)
  let ?k = "bitlen n - bitlen d"
  have nb: "2 powi (bitlen n - 1) \<le> (of_int n :: rat)" "(of_int n :: rat) < 2 powi bitlen n"
    and db: "2 powi (bitlen d - 1) \<le> (of_int d :: rat)" "(of_int d :: rat) < 2 powi bitlen d"
    using bitlen_bounds_rat [OF n] bitlen_bounds_rat [OF d] by auto
  have "2 powi (?k - 1) * of_int d \<le> 2 powi (?k - 1) * (2 powi bitlen d :: rat)"
    using db(2) by (intro mult_left_mono) auto
  also have "\<dots> = 2 powi (bitlen n - 1)" by (simp flip: power_int_add)
  also have "\<dots> \<le> of_int n" using nb(1) .
  finally have lo: "2 powi (?k - 1) \<le> x"
    using d by (simp add: x pos_le_divide_eq)
  have "of_int n < (2 powi bitlen n :: rat)" using nb(2) .
  also have "\<dots> = 2 powi (?k + 1) * 2 powi (bitlen d - 1)" by (simp flip: power_int_add)
  also have "\<dots> \<le> 2 powi (?k + 1) * of_int d"
    using db(1) by (intro mult_left_mono) auto
  finally have hi: "x < 2 powi (?k + 1)"
    using d by (simp add: x pos_divide_less_eq)
  show "2 powi ilog2 x \<le> x" "x < 2 powi (ilog2 x + 1)"
    using lo hi by (auto simp: ilog2_def q Let_def)
qed

lemma ilog2_unique:
  assumes "2 powi k \<le> x" "x < 2 powi (k + 1)"
  shows "ilog2 x = k"
proof -
  have "0 < x" using assms(1) powi_pos [of k] by linarith
  from ilog2_bounds [OF this] assms
  have "(2 :: rat) powi k < 2 powi (ilog2 x + 1)" "(2 :: rat) powi ilog2 x < 2 powi (k + 1)"
    by linarith+
  then show ?thesis by (simp add: powi_less_iff)
qed

lemma ilog2_mono:
  assumes "0 < x" "x \<le> y"
  shows "ilog2 x \<le> ilog2 y"
proof -
  have "2 powi ilog2 x < (2 :: rat) powi (ilog2 y + 1)"
    using ilog2_bounds(1) [OF assms(1)] ilog2_bounds(2) [of y] assms by linarith
  then show ?thesis by (simp add: powi_less_iff)
qed

subsection \<open>Ties to even\<close>

lemma round_half_even_int [simp]: "round_half_even (of_int n) = n"
  by (simp add: round_half_even_def)

lemma round_half_even_near: "\<lfloor>y\<rfloor> \<le> round_half_even y \<and> round_half_even y \<le> \<lfloor>y\<rfloor> + 1"
  by (simp add: round_half_even_def Let_def)

lemma round_half_even_mono:
  assumes "y \<le> z"
  shows "round_half_even y \<le> round_half_even z"
proof (cases "\<lfloor>y\<rfloor> = \<lfloor>z\<rfloor>")
  case True
  with assms show ?thesis by (simp add: round_half_even_def Let_def)
next
  case False
  with floor_mono [OF assms] have "\<lfloor>y\<rfloor> + 1 \<le> \<lfloor>z\<rfloor>" by linarith
  with round_half_even_near [of y] round_half_even_near [of z] show ?thesis by linarith
qed

lemma round_half_even_le: "y \<le> of_int n \<Longrightarrow> round_half_even y \<le> n"
  using round_half_even_mono [of y "of_int n"] by simp

lemma round_half_even_ge: "of_int n \<le> y \<Longrightarrow> n \<le> round_half_even y"
  using round_half_even_mono [of "of_int n" y] by simp

lemma round_half_even_err: "\<bar>of_int (round_half_even y) - y\<bar> \<le> 1/2"
proof -
  have "of_int \<lfloor>y\<rfloor> \<le> y" "y < of_int \<lfloor>y\<rfloor> + 1" by linarith+
  then show ?thesis unfolding round_half_even_def Let_def abs_if by (simp, linarith?)
qed

subsection \<open>Monotone, odd, exact on integers\<close>

lemma quantum_ge: "qmin \<le> quantum mb qmin x"
  by (simp add: quantum_def)

lemma quantum_mono: "0 < x \<Longrightarrow> x \<le> y \<Longrightarrow> quantum mb qmin x \<le> quantum mb qmin y"
  using ilog2_mono [of x y] by (auto simp: quantum_def)

lemma mag_round_nonneg: "0 \<le> x \<Longrightarrow> 0 \<le> mag_round mb qmin x"
  using round_half_even_ge [of 0 "x / 2 powi quantum mb qmin x"]
  by (simp add: mag_round_def Let_def)

lemma mag_round_0 [simp]: "mag_round mb qmin 0 = 0"
  using round_half_even_int [of 0] by (simp add: mag_round_def)

lemma scaled_less:
  assumes "0 < x"
  shows "x / 2 powi quantum mb qmin x < of_int (2 ^ Suc mb)"
proof -
  have "x < 2 powi (ilog2 x + 1)" using ilog2_bounds(2) [OF assms] .
  also have "\<dots> \<le> 2 powi (int (Suc mb) + quantum mb qmin x)"
    using assms by (intro powi_mono) (simp add: quantum_def)
  also have "\<dots> = 2 powi int (Suc mb) * 2 powi quantum mb qmin x"
    by (rule power_int_add) simp
  also have "\<dots> = 2 ^ Suc mb * 2 powi quantum mb qmin x"
    by (simp only: power_int_of_nat)
  finally show ?thesis by (simp add: pos_divide_less_eq)
qed

lemma scaled_ge:
  assumes "0 < x" "qmin < quantum mb qmin x"
  shows "of_int (2 ^ mb) \<le> x / 2 powi quantum mb qmin x"
proof -
  have "quantum mb qmin x = ilog2 x - int mb"
    using assms by (simp add: quantum_def split: if_splits)
  then have "2 ^ mb * 2 powi quantum mb qmin x = (2 :: rat) powi ilog2 x"
    by (simp flip: power_int_of_nat power_int_add)
  also have "\<dots> \<le> x" using ilog2_bounds(1) [OF assms(1)] .
  finally show ?thesis by (simp add: pos_le_divide_eq)
qed

lemma mag_round_mono:
  assumes "0 \<le> x" "x \<le> y"
  shows "mag_round mb qmin x \<le> mag_round mb qmin y"
proof (cases "x = 0")
  case True
  with assms show ?thesis by (simp add: mag_round_nonneg)
next
  case False
  with assms have x: "0 < x" and y: "0 < y" by simp_all
  let ?p = "quantum mb qmin x" and ?q = "quantum mb qmin y"
  show ?thesis
  proof (cases "?p = ?q")
    case True
    have "round_half_even (x / 2 powi ?q) \<le> round_half_even (y / 2 powi ?q)"
      using assms by (intro round_half_even_mono divide_right_mono) auto
    with True show ?thesis by (simp add: mag_round_def Let_def)
  next
    case False
    with quantum_mono [OF x assms(2)] have pq: "?p < ?q" by (simp add: order_less_le)
    with quantum_ge [of qmin mb x] have "qmin < ?q" by simp
    from round_half_even_ge [OF scaled_ge [OF y this]]
    have hi: "(2 :: rat) ^ mb \<le> of_int (round_half_even (y / 2 powi ?q))"
      by (metis of_int_le_iff of_int_numeral of_int_power)
    from round_half_even_le [OF less_imp_le [OF scaled_less [OF x]]]
    have lo: "of_int (round_half_even (x / 2 powi ?p)) \<le> (2 :: rat) ^ Suc mb"
      by (metis of_int_le_iff of_int_numeral of_int_power)
    have "mag_round mb qmin x \<le> 2 ^ Suc mb * 2 powi ?p"
      using lo by (simp add: mag_round_def Let_def mult_right_mono)
    also have "\<dots> = 2 ^ mb * 2 powi (?p + 1)"
      by (simp add: power_int_add)
    also have "\<dots> \<le> 2 ^ mb * 2 powi ?q"
      using pq by (intro mult_left_mono powi_mono) auto
    also have "\<dots> \<le> mag_round mb qmin y"
      using hi by (simp add: mag_round_def Let_def mult_right_mono)
    finally show ?thesis .
  qed
qed

lemma mag_round_exact:
  assumes "x = of_int k * 2 powi e" "quantum mb qmin x \<le> e"
  shows "mag_round mb qmin x = x"
proof -
  let ?q = "quantum mb qmin x"
  have "x / 2 powi ?q = of_int k * 2 powi (e - ?q)"
    by (subst assms(1)) (simp add: power_int_diff)
  also have "\<dots> = of_int (k * 2 ^ nat (e - ?q))"
    using assms(2) by (simp add: power_int_def)
  finally have "x / 2 powi ?q = of_int (k * 2 ^ nat (e - ?q))" .
  then have "of_int (round_half_even (x / 2 powi ?q)) = x / 2 powi ?q"
    by (metis round_half_even_int)
  then show ?thesis by (simp add: mag_round_def Let_def)
qed

lemma mag_round_dyadic:
  assumes "0 \<le> n" "n < 2 ^ Suc mb" "qmin \<le> e"
  shows "mag_round mb qmin (of_int n * 2 powi e) = of_int n * 2 powi e"
proof (cases "n = 0")
  case False
  let ?x = "of_int n * 2 powi e :: rat"
  from False assms(1) have n: "0 < ?x" by simp
  have "2 powi ilog2 ?x \<le> ?x" using ilog2_bounds(1) [OF n] .
  also have "\<dots> < of_int (2 ^ Suc mb) * 2 powi e"
    using assms(2) by (intro mult_strict_right_mono) (simp_all only: of_int_less_iff powi_pos)
  also have "\<dots> = 2 powi int (Suc mb) * 2 powi e"
    by (simp only: power_int_of_nat of_int_power of_int_numeral)
  also have "\<dots> = 2 powi (int (Suc mb) + e)" by (rule power_int_add [symmetric]) simp
  finally have "ilog2 ?x \<le> int mb + e" by (simp add: powi_less_iff)
  with n assms(3) have "quantum mb qmin ?x \<le> e" by (simp add: quantum_def)
  then show ?thesis by (intro mag_round_exact [where k = n and e = e]) simp_all
qed simp

lemma rat_round_rounding:
  assumes "qmin \<le> 0"
  shows "rounding (rat_round mb qmin) (2 ^ Suc mb - 1) qmin"
proof
  fix x y :: rat
  assume "x \<le> y"
  then show "rat_round mb qmin x \<le> rat_round mb qmin y"
    using mag_round_mono [of x y mb qmin] mag_round_mono [of "- y" "- x" mb qmin]
      mag_round_nonneg [of y mb qmin] mag_round_nonneg [of "- x" mb qmin]
    by (auto simp: rat_round_def)
next
  fix x :: rat
  show "rat_round mb qmin (- x) = - rat_round mb qmin x"
    by (cases "x = 0") (auto simp: rat_round_def)
next
  fix n e :: int
  assume "\<bar>n\<bar> \<le> 2 ^ Suc mb - 1" "qmin \<le> e"
  moreover have "of_int n * 2 powi e < (0 :: rat) \<longleftrightarrow> n < 0"
    by (simp add: mult_less_0_iff)
  ultimately show "rat_round mb qmin (of_int n * 2 powi e) = of_int n * 2 powi e"
    using mag_round_dyadic [of n mb qmin e] mag_round_dyadic [of "- n" mb qmin e]
    by (auto simp: rat_round_def)
qed (use assms in simp_all)

definition rnd64 :: "rat \<Rightarrow> rat" where "rnd64 = rat_round 52 (- 1074)"
definition rnd32 :: "rat \<Rightarrow> rat" where "rnd32 = rat_round 23 (- 149)"

interpretation dbl: rounding rnd64 "2 ^ 53 - 1" "- 1074"
  using rat_round_rounding [of "- 1074" 52] by (simp add: rnd64_def)

interpretation sgl: rounding rnd32 "2 ^ 24 - 1" "- 149"
  using rat_round_rounding [of "- 149" 23] by (simp add: rnd32_def)

lemma f64_eq: "f64 x = (if \<bar>rnd64 x\<bar> < 2 powi 1024 then Fin (rnd64 x) else Inf (x < 0))"
  by (simp add: f64_def fp_round_def rnd64_def Let_def)

lemma f32_eq: "f32 x = (if \<bar>rnd32 x\<bar> < 2 powi 128 then Fin (rnd32 x) else Inf (x < 0))"
  by (simp add: f32_def fp_round_def rnd32_def Let_def)

section \<open>Encoding is rounding\<close>

text \<open>
  The bit pattern \<open>fp_encode\<close> produces decodes to the rounded value: so a field stored by the
  parser and read back by the validator has the value the C++ expression computes.
\<close>

lemma fp_decode_fields:
  assumes "F < 2 ^ mb" "E < 2 ^ eb"
  shows "fp_decode eb mb (E * 2 ^ mb + F + (if neg then 2 ^ (mb + eb) else 0)) =
    (if E = 2 ^ eb - 1 then (if F = 0 then Inf neg else NaN)
     else let qmin = 1 - (2 ^ (eb - 1) - 1) - int mb; s = (if neg then -1 else 1)
          in if E = 0 then Fin (s * (of_nat F * 2 powi qmin))
             else Fin (s * (of_nat (2 ^ mb + F) * 2 powi (int E - 1 + qmin))))"
proof -
  let ?n = "E * 2 ^ mb + F + (if neg then 2 ^ (mb + eb) else 0)"
  have F: "?n mod 2 ^ mb = F"
    using assms(1) by (simp add: power_add mod_add_left_eq)
  have E: "?n div 2 ^ mb = E + (if neg then 2 ^ eb else 0)"
    using assms(1) by (simp add: power_add div_add1_eq)
  have "?n div 2 ^ (mb + eb) = ?n div 2 ^ mb div 2 ^ eb"
    by (metis div_mult2_eq power_add)
  also have "\<dots> = (E + (if neg then 2 ^ eb else 0)) div 2 ^ eb"
    unfolding E ..
  finally have "?n div 2 ^ (mb + eb) = (E + (if neg then 2 ^ eb else 0)) div 2 ^ eb" .
  moreover have "(E + (if neg then 2 ^ eb else 0)) div 2 ^ eb = (if neg then 1 else 0)"
    using assms(2) by (cases neg) simp_all
  ultimately have S: "odd (?n div 2 ^ (mb + eb)) \<longleftrightarrow> neg"
    by simp
  have "(?n div 2 ^ mb) mod 2 ^ eb = E"
    unfolding E using assms(2) by simp
  with F S show ?thesis by (simp only: fp_decode_def Let_def)
qed

lemma rat_round_abs: "rat_round mb qmin x = (if x < 0 then - mag_round mb qmin \<bar>x\<bar> else mag_round mb qmin \<bar>x\<bar>)"
  by (simp add: rat_round_def)

text \<open>A rounded magnitude as exponent field and fraction.\<close>

lemma mag_round_fields:
  fixes mb :: nat and qmin :: int and a :: rat
  assumes "0 \<le> a"
  defines "q \<equiv> quantum mb qmin a"
  defines "r \<equiv> nat (round_half_even (a / 2 powi q))"
  shows "\<exists>E F. F < 2 ^ mb \<and> nat (q - qmin) * 2 ^ mb + r = E * 2 ^ mb + F \<and>
    mag_round mb qmin a =
      (if E = 0 then of_nat F * 2 powi qmin
       else of_nat (2 ^ mb + F) * 2 powi (int E - 1 + qmin))"
proof -
  have mr: "mag_round mb qmin a = of_nat r * 2 powi q"
    using round_half_even_ge [of 0 "a / 2 powi q"] assms(1)
    by (simp add: mag_round_def r_def q_def Let_def of_nat_nat)
  have hi: "r \<le> 2 ^ Suc mb"
  proof (cases "a = 0")
    case True
    then show ?thesis using round_half_even_int [of 0] by (simp add: r_def)
  next
    case False
    with assms(1) have "0 < a" by simp
    from round_half_even_le [OF less_imp_le [OF scaled_less [OF this]]]
    show ?thesis by (simp add: r_def q_def nat_le_iff)
  qed
  have lo: "2 ^ mb \<le> r" if "qmin < q"
  proof -
    from that have "0 < a" using assms(1) by (cases "a = 0") (auto simp: q_def quantum_def)
    from round_half_even_ge [OF scaled_ge [OF this that [unfolded q_def]]]
    have "2 ^ mb \<le> round_half_even (a / 2 powi q)" by (simp add: q_def)
    then show ?thesis by (simp add: r_def le_nat_iff)
  qed
  have qq: "qmin \<le> q" by (simp add: q_def quantum_ge)
  consider "r < 2 ^ mb" | "2 ^ mb \<le> r" "r < 2 ^ Suc mb" | "r = 2 ^ Suc mb"
    using hi by (meson le_neq_implies_less not_le)
  then show ?thesis
  proof cases
    case 1
    with lo qq have "q = qmin" by linarith
    with 1 mr show ?thesis by (intro exI [of _ 0] exI [of _ r]) simp
  next
    case 2
    with mr qq show ?thesis
      by (intro exI [of _ "nat (q - qmin) + 1"] exI [of _ "r - 2 ^ mb"]) (auto simp: algebra_simps)
  next
    case 3
    have "mag_round mb qmin a = of_nat (2 ^ mb) * 2 powi (q + 1)"
      by (simp add: mr 3 power_int_add)
    with 3 qq show ?thesis
      by (intro exI [of _ "nat (q - qmin) + 2"] exI [of _ 0]) (auto simp: algebra_simps)
  qed
qed

lemma fp_decode_encode:
  assumes "2 \<le> eb"
  shows "fp_decode eb mb (fp_encode eb mb x) = fp_round eb mb x"
proof -
  define bias :: int where "bias = 2 ^ (eb - 1) - 1"
  define qmin where "qmin = 1 - bias - int mb"
  define q where "q = quantum mb qmin \<bar>x\<bar>"
  define r where "r = nat (round_half_even (\<bar>x\<bar> / 2 powi q))"
  let ?M = "2 ^ eb - 1 :: nat"
  let ?v = "mag_round mb qmin \<bar>x\<bar>"
  obtain E F where F: "F < 2 ^ mb" and N: "nat (q - qmin) * 2 ^ mb + r = E * 2 ^ mb + F"
    and v: "?v = (if E = 0 then of_nat F * 2 powi qmin
       else of_nat (2 ^ mb + F) * 2 powi (int E - 1 + qmin))"
    using mag_round_fields [of "\<bar>x\<bar>" mb qmin] unfolding q_def r_def by auto
  have enc: "fp_encode eb mb x = min (E * 2 ^ mb + F) (?M * 2 ^ mb) + (if x < 0 then 2 ^ (mb + eb) else 0)"
    using N by (simp add: fp_encode_def Let_def qmin_def bias_def q_def r_def)
  have rnd: "fp_round eb mb x =
      (if ?v < 2 powi (bias + 1) then Fin ((if x < 0 then -1 else 1) * ?v) else Inf (x < 0))"
    using mag_round_nonneg [of "\<bar>x\<bar>" mb qmin]
    by (auto simp: fp_round_def Let_def rat_round_abs qmin_def bias_def)
  obtain k where eb: "eb = Suc (Suc k)"
    using assms by (metis One_nat_def Suc_le_D Suc_le_mono numeral_2_eq_2)
  have M: "?M < 2 ^ eb" "0 < ?M"
    using eb one_less_power [of "2 :: nat" eb] by simp_all
  have MM: "int ?M = 2 * bias + 1"
    unfolding bias_def eb by (simp add: of_nat_diff)
  have b0: "1 \<le> bias" using assms one_less_power [of "2 :: int" "eb - 1"] by (simp add: bias_def)
  have top: "2 ^ mb * 2 powi (int E - 1 + qmin) = (2 :: rat) powi (int E - bias)"
    by (simp add: qmin_def flip: power_int_of_nat power_int_add)
  show ?thesis
  proof (cases "E < ?M")
    case True
    have "?v < 2 powi (bias + 1)"
    proof (cases "E = 0")
      case True
      have "?v < 2 ^ mb * 2 powi qmin" using F by (simp add: v True flip: of_nat_power)
      also have "\<dots> = 2 powi (1 - bias)" by (simp add: qmin_def flip: power_int_of_nat power_int_add)
      also have "\<dots> \<le> 2 powi (bias + 1)" using b0 by (intro powi_mono) simp
      finally show ?thesis .
    next
      case False
      have "(of_nat (2 ^ mb + F) :: rat) < of_nat (2 * 2 ^ mb)"
        using F by (simp only: of_nat_less_iff)
      then have "?v < of_nat (2 * 2 ^ mb) * 2 powi (int E - 1 + qmin)"
        using False by (simp add: v)
      also have "\<dots> = 2 * 2 powi (int E - bias)" using top by simp
      also have "\<dots> = 2 powi (int E - bias + 1)" by (simp add: power_int_add)
      also have "\<dots> \<le> 2 powi (bias + 1)"
        using True MM by (intro powi_mono) linarith
      finally show ?thesis .
    qed
    moreover have "min (E * 2 ^ mb + F) (?M * 2 ^ mb) = E * 2 ^ mb + F"
      using True F mult_le_mono1 [of "E + 1" ?M "2 ^ mb"] by simp
    moreover have "fp_decode eb mb (E * 2 ^ mb + F + (if x < 0 then 2 ^ (mb + eb) else 0)) =
        Fin ((if x < 0 then -1 else 1) * ?v)"
      unfolding v
      using fp_decode_fields [OF F, of E eb "x < 0", unfolded Let_def,
          folded bias_def, folded qmin_def] True
      by (cases "E = 0") (auto simp del: of_nat_add)
    ultimately show ?thesis by (simp only: enc rnd if_True)
  next
    case False
    then have E: "?M \<le> E" "E \<noteq> 0" using M(2) by linarith+
    have "2 powi (bias + 1) \<le> (2 :: rat) powi (int E - bias)"
      using E MM by (intro powi_mono) linarith
    also have "\<dots> = of_nat (2 ^ mb) * 2 powi (int E - 1 + qmin)" using top by simp
    also have "\<dots> \<le> of_nat (2 ^ mb + F) * 2 powi (int E - 1 + qmin)"
      by (intro mult_right_mono) simp_all
    finally have "\<not> ?v < 2 powi (bias + 1)" using E(2) by (simp add: v)
    moreover have "min (E * 2 ^ mb + F) (?M * 2 ^ mb) = ?M * 2 ^ mb + 0"
      using mult_le_mono1 [OF E(1), of "2 ^ mb"] by linarith
    ultimately show ?thesis
      using fp_decode_fields [of 0 mb ?M eb "x < 0"] M by (simp add: enc rnd)
  qed
qed

lemma fp_encode_less: "0 < eb \<Longrightarrow> fp_encode eb mb x < 2 ^ (mb + eb + 1)"
proof -
  have "(2 ^ eb - 1) * 2 ^ mb < (2 :: nat) ^ (mb + eb)"
    by (simp add: power_add diff_mult_distrib mult.commute)
  then show ?thesis by (simp add: fp_encode_def Let_def min_def)
qed

lemma double_val_bits [simp]: "double_val (double_bits x) = f64 x"
  using fp_encode_less [of 11 52 x]
  by (simp add: double_val_def double_bits_def f64_def fp_decode_encode unat_of_nat)

lemma float_val_bits [simp]: "float_val (float_bits x) = f32 x"
  using fp_encode_less [of 8 23 x]
  by (simp add: float_val_def float_bits_def f32_def fp_decode_encode unat_of_nat)

section \<open>Rounding twice\<close>

lemma rat_round_idem: "0 < mb \<Longrightarrow> rat_round mb qmin (rat_round mb qmin x) = rat_round mb qmin x"
proof -
  have mag: "mag_round mb qmin (mag_round mb qmin a) = mag_round mb qmin a" if "0 \<le> a" for a
  proof -
    from mag_round_fields [OF that] obtain E F where F: "F < 2 ^ mb" and
      mr: "mag_round mb qmin a = (if E = 0 then of_nat F * 2 powi qmin
        else of_nat (2 ^ mb + F) * 2 powi (int E - 1 + qmin))" by blast
    from F have "F < 2 ^ Suc mb" "2 ^ mb + F < 2 ^ Suc mb" by simp_all
    then have "int F < int (2 ^ Suc mb)" "int (2 ^ mb + F) < int (2 ^ Suc mb)"
      by (simp_all only: of_nat_less_iff)
    then have lt: "int F < 2 ^ Suc mb" "int (2 ^ mb + F) < 2 ^ Suc mb"
      by (simp_all only: of_nat_power of_nat_numeral [where 'a = int])
    have *: "mag_round mb qmin (of_nat n * 2 powi e) = of_nat n * 2 powi e"
      if "int n < 2 ^ Suc mb" "qmin \<le> e" for n e
      using mag_round_dyadic [of "int n" mb qmin e] that by (simp del: power_Suc)
    show ?thesis
    proof (cases "E = 0")
      case True
      with mr * [OF lt(1) order_refl] show ?thesis by simp
    next
      case False
      with mr * [OF lt(2), of "int E - 1 + qmin"] show ?thesis by simp
    qed
  qed
  show ?thesis
  proof (cases "x < 0")
    case True
    then have "mag_round mb qmin (mag_round mb qmin (- x)) = mag_round mb qmin (- x)"
      "0 \<le> mag_round mb qmin (- x)" by (simp_all add: mag mag_round_nonneg)
    with True show ?thesis by (cases "mag_round mb qmin (- x) = 0") (simp_all add: rat_round_def)
  next
    case False
    then have "mag_round mb qmin (mag_round mb qmin x) = mag_round mb qmin x"
      "0 \<le> mag_round mb qmin x" by (simp_all add: mag mag_round_nonneg)
    with False show ?thesis by (simp add: rat_round_def)
  qed
qed

lemma rnd64_idem [simp]: "rnd64 (rnd64 x) = rnd64 x"
  by (simp add: rnd64_def rat_round_idem)

end
