(* ===== verification/Proto_Types.thy ===== *)
theory Proto_Types
  imports Ieee_Float "HOL-Library.Char_ord" "HOL-Library.List_Lexorder"
begin

text \<open>
  \<open>protocol_parser/types.hpp\<close> and \<open>protocol_parser/error.hpp\<close>: protocol versions, the
  enumerations of the wire protocol with their byte values and names, the IMEI and GPS range
  checks, validation errors and the exceptions of the component.
\<close>

section \<open>Protocol version\<close>

datatype protocol_version = Protocol_Version (major: u8) (minor: u8)

definition version_less :: "protocol_version \<Rightarrow> protocol_version \<Rightarrow> bool" where
  "version_less a b =
     (if major a \<noteq> major b then major a < major b else minor a < minor b)"

instantiation protocol_version :: linorder
begin

definition less_protocol_version :: "protocol_version \<Rightarrow> protocol_version \<Rightarrow> bool" where
  "less_protocol_version a b = version_less a b"

definition less_eq_protocol_version :: "protocol_version \<Rightarrow> protocol_version \<Rightarrow> bool" where
  "less_eq_protocol_version a b = (a = b \<or> a < b)"

instance
  by standard
    (auto simp: version_less_def less_protocol_version_def less_eq_protocol_version_def
      intro: protocol_version.expand split: if_splits)

end

section \<open>Enumerations\<close>

text \<open>
  The enumerations have the fixed underlying type \<open>uint8_t\<close>, and the parser casts raw bytes to
  them; a byte without an enumerator is kept by the last constructor.
\<close>

datatype message_type =
    MT_UNKNOWN | MT_GPS_UPDATE | MT_STATUS_UPDATE | MT_EVENT_NOTIFICATION | MT_COMMAND_ACK
  | MT_COMMAND_REBOOT | MT_COMMAND_SUBSCRIBE | MT_COMMAND_UNSUBSCRIBE | MT_COMMAND_UPDATE_CONFIG
  | MT_HEARTBEAT | MT_DEBUG_INFO | MT_unlisted u8

fun message_type_byte :: "message_type \<Rightarrow> u8" where
  "message_type_byte MT_UNKNOWN = 0"
| "message_type_byte MT_GPS_UPDATE = 1"
| "message_type_byte MT_STATUS_UPDATE = 2"
| "message_type_byte MT_EVENT_NOTIFICATION = 3"
| "message_type_byte MT_COMMAND_ACK = 4"
| "message_type_byte MT_COMMAND_REBOOT = 5"
| "message_type_byte MT_COMMAND_SUBSCRIBE = 6"
| "message_type_byte MT_COMMAND_UNSUBSCRIBE = 7"
| "message_type_byte MT_COMMAND_UPDATE_CONFIG = 8"
| "message_type_byte MT_HEARTBEAT = 9"
| "message_type_byte MT_DEBUG_INFO = 10"
| "message_type_byte (MT_unlisted b) = b"

definition message_type_of :: "u8 \<Rightarrow> message_type" where
  "message_type_of b =
     (if b = 0 then MT_UNKNOWN else if b = 1 then MT_GPS_UPDATE else if b = 2 then MT_STATUS_UPDATE
      else if b = 3 then MT_EVENT_NOTIFICATION else if b = 4 then MT_COMMAND_ACK
      else if b = 5 then MT_COMMAND_REBOOT else if b = 6 then MT_COMMAND_SUBSCRIBE
      else if b = 7 then MT_COMMAND_UNSUBSCRIBE else if b = 8 then MT_COMMAND_UPDATE_CONFIG
      else if b = 9 then MT_HEARTBEAT else if b = 10 then MT_DEBUG_INFO else MT_unlisted b)"

datatype command_type =
    CT_REBOOT | CT_SUBSCRIBE | CT_UNSUBSCRIBE | CT_UPDATE_CONFIG | CT_GET_STATUS
  | CT_SET_INTERVAL | CT_FACTORY_RESET | CT_unlisted u8

fun command_type_byte :: "command_type \<Rightarrow> u8" where
  "command_type_byte CT_REBOOT = 1"
| "command_type_byte CT_SUBSCRIBE = 2"
| "command_type_byte CT_UNSUBSCRIBE = 3"
| "command_type_byte CT_UPDATE_CONFIG = 4"
| "command_type_byte CT_GET_STATUS = 5"
| "command_type_byte CT_SET_INTERVAL = 6"
| "command_type_byte CT_FACTORY_RESET = 7"
| "command_type_byte (CT_unlisted b) = b"

definition command_type_of :: "u8 \<Rightarrow> command_type" where
  "command_type_of b =
     (if b = 1 then CT_REBOOT else if b = 2 then CT_SUBSCRIBE else if b = 3 then CT_UNSUBSCRIBE
      else if b = 4 then CT_UPDATE_CONFIG else if b = 5 then CT_GET_STATUS
      else if b = 6 then CT_SET_INTERVAL else if b = 7 then CT_FACTORY_RESET else CT_unlisted b)"

text \<open>The values a cast from a byte yields: no enumerator hides behind \<open>MT_unlisted\<close>.\<close>

definition listed_message_type :: "message_type \<Rightarrow> bool" where
  "listed_message_type t \<longleftrightarrow> (case t of MT_unlisted b \<Rightarrow> False | _ \<Rightarrow> True)"

definition listed_command_type :: "command_type \<Rightarrow> bool" where
  "listed_command_type t \<longleftrightarrow> (case t of CT_unlisted b \<Rightarrow> False | _ \<Rightarrow> True)"

lemma message_type_byte_of [simp]: "message_type_byte (message_type_of b) = b"
  by (simp add: message_type_of_def)

lemma message_type_of_byte: "listed_message_type t \<Longrightarrow> message_type_of (message_type_byte t) = t"
  by (cases t) (simp_all add: message_type_of_def listed_message_type_def)

lemma command_type_byte_of [simp]: "command_type_byte (command_type_of b) = b"
  by (simp add: command_type_of_def)

lemma command_type_of_byte: "listed_command_type t \<Longrightarrow> command_type_of (command_type_byte t) = t"
  by (cases t) (simp_all add: command_type_of_def listed_command_type_def)

subsection \<open>Names\<close>

fun messageTypeToString :: "message_type \<Rightarrow> string" where
  "messageTypeToString MT_UNKNOWN = ''UNKNOWN''"
| "messageTypeToString MT_GPS_UPDATE = ''GPS_UPDATE''"
| "messageTypeToString MT_STATUS_UPDATE = ''STATUS_UPDATE''"
| "messageTypeToString MT_EVENT_NOTIFICATION = ''EVENT_NOTIFICATION''"
| "messageTypeToString MT_COMMAND_ACK = ''COMMAND_ACK''"
| "messageTypeToString MT_COMMAND_REBOOT = ''COMMAND_REBOOT''"
| "messageTypeToString MT_COMMAND_SUBSCRIBE = ''COMMAND_SUBSCRIBE''"
| "messageTypeToString MT_COMMAND_UNSUBSCRIBE = ''COMMAND_UNSUBSCRIBE''"
| "messageTypeToString MT_COMMAND_UPDATE_CONFIG = ''COMMAND_UPDATE_CONFIG''"
| "messageTypeToString MT_HEARTBEAT = ''HEARTBEAT''"
| "messageTypeToString MT_DEBUG_INFO = ''DEBUG_INFO''"
| "messageTypeToString (MT_unlisted b) = ''INVALID''"

definition messageTypeFromString :: "string \<Rightarrow> message_type" where
  "messageTypeFromString s =
     (if s = ''GPS_UPDATE'' then MT_GPS_UPDATE
      else if s = ''STATUS_UPDATE'' then MT_STATUS_UPDATE
      else if s = ''EVENT_NOTIFICATION'' then MT_EVENT_NOTIFICATION
      else if s = ''COMMAND_ACK'' then MT_COMMAND_ACK
      else if s = ''COMMAND_REBOOT'' then MT_COMMAND_REBOOT
      else if s = ''COMMAND_SUBSCRIBE'' then MT_COMMAND_SUBSCRIBE
      else if s = ''COMMAND_UNSUBSCRIBE'' then MT_COMMAND_UNSUBSCRIBE
      else if s = ''COMMAND_UPDATE_CONFIG'' then MT_COMMAND_UPDATE_CONFIG
      else if s = ''HEARTBEAT'' then MT_HEARTBEAT
      else if s = ''DEBUG_INFO'' then MT_DEBUG_INFO
      else MT_UNKNOWN)"

fun commandTypeToString :: "command_type \<Rightarrow> string" where
  "commandTypeToString CT_REBOOT = ''REBOOT''"
| "commandTypeToString CT_SUBSCRIBE = ''SUBSCRIBE''"
| "commandTypeToString CT_UNSUBSCRIBE = ''UNSUBSCRIBE''"
| "commandTypeToString CT_UPDATE_CONFIG = ''UPDATE_CONFIG''"
| "commandTypeToString CT_GET_STATUS = ''GET_STATUS''"
| "commandTypeToString CT_SET_INTERVAL = ''SET_INTERVAL''"
| "commandTypeToString CT_FACTORY_RESET = ''FACTORY_RESET''"
| "commandTypeToString (CT_unlisted b) = ''INVALID''"

definition commandTypeFromString :: "string \<Rightarrow> command_type" where
  "commandTypeFromString s =
     (if s = ''REBOOT'' then CT_REBOOT
      else if s = ''SUBSCRIBE'' then CT_SUBSCRIBE
      else if s = ''UNSUBSCRIBE'' then CT_UNSUBSCRIBE
      else if s = ''UPDATE_CONFIG'' then CT_UPDATE_CONFIG
      else if s = ''GET_STATUS'' then CT_GET_STATUS
      else if s = ''SET_INTERVAL'' then CT_SET_INTERVAL
      else if s = ''FACTORY_RESET'' then CT_FACTORY_RESET
      else CT_REBOOT)"

definition isCommandMessage :: "message_type \<Rightarrow> bool" where
  "isCommandMessage t \<longleftrightarrow>
     t = MT_COMMAND_REBOOT \<or> t = MT_COMMAND_SUBSCRIBE \<or> t = MT_COMMAND_UNSUBSCRIBE \<or>
     t = MT_COMMAND_UPDATE_CONFIG"

section \<open>IMEI and coordinates\<close>

definition isValidImei :: "string \<Rightarrow> bool" where
  "isValidImei imei \<longleftrightarrow>
     length imei = 15 \<and>
     list_all (\<lambda>c. \<not> ((of_char c :: nat) < 48 \<or> 57 < (of_char c :: nat))) imei"

definition areValidGPSCoordinates :: "fp \<Rightarrow> fp \<Rightarrow> bool" where
  "areValidGPSCoordinates latitude longitude \<longleftrightarrow>
     fp_le (Fin (- 90)) latitude \<and> fp_le latitude (Fin 90) \<and>
     fp_le (Fin (- 180)) longitude \<and> fp_le longitude (Fin 180)"

section \<open>Errors\<close>

datatype error_severity = Sev_WARNING | Sev_ERROR | Sev_CRITICAL

datatype error_category =
  Cat_PARSE_ERROR | Cat_VALIDATION_ERROR | Cat_TYPE_ERROR | Cat_PROTOCOL_ERROR | Cat_SYSTEM_ERROR

record validation_error =
  ve_message :: string
  ve_field :: string
  ve_severity :: error_severity
  ve_category :: error_category

definition validation_error4 ::
    "string \<Rightarrow> string \<Rightarrow> error_severity \<Rightarrow> error_category \<Rightarrow> validation_error" where
  "validation_error4 msg fld sev cat =
     \<lparr>ve_message = msg, ve_field = fld, ve_severity = sev, ve_category = cat\<rparr>"

text \<open>The category defaults to \<open>VALIDATION_ERROR\<close>.\<close>

definition validation_error3 :: "string \<Rightarrow> string \<Rightarrow> error_severity \<Rightarrow> validation_error" where
  "validation_error3 msg fld sev = validation_error4 msg fld sev Cat_VALIDATION_ERROR"

text \<open>Each exception class prefixes the text it is constructed with.\<close>

datatype proto_exc =
    ParseError string | FieldAccessError string | TypeConversionError string | ValidationError string

fun what :: "proto_exc \<Rightarrow> string" where
  "what (ParseError m) = ''Parse error: '' @ m"
| "what (FieldAccessError m) = ''Field access error: '' @ m"
| "what (TypeConversionError m) = ''Type conversion error: '' @ m"
| "what (ValidationError m) = ''Validation error: '' @ m"

section \<open>Properties\<close>

lemma isValidImei_digits: "isValidImei imei \<longleftrightarrow> length imei = 15 \<and> list_all is_digit imei"
  by (auto simp: isValidImei_def is_digit_def list_all_iff not_less)

lemma message_type_names:
  "listed_message_type t \<Longrightarrow> messageTypeFromString (messageTypeToString t) = t"
  by (cases t) (simp_all add: messageTypeFromString_def listed_message_type_def)

lemma command_type_names:
  "listed_command_type t \<Longrightarrow> commandTypeFromString (commandTypeToString t) = t"
  by (cases t) (simp_all add: commandTypeFromString_def listed_command_type_def)

end
