(* ===== verification/Proto_Message.thy ===== *)
theory Proto_Message
  imports Proto_Types
begin

text \<open>
  \<open>protocol_parser::Message\<close> (\<open>message.hpp\<close>, \<open>message.cpp\<close>): the field variant, the field map and
  its accessors with their numeric conversions, and the self-describing binary format written by
  \<open>toBinary\<close> and read by \<open>fromBinary\<close>. \<open>float\<close> and \<open>double\<close> fields are kept as bit patterns,
  as the serialiser treats them. The system clock read by the constructors is an argument.
\<close>

section \<open>Field values\<close>

datatype fvalue =
    VMono | VBool bool | VI8 u8 | VU8 u8 | VI16 u16 | VU16 u16 | VI32 u32 | VU32 u32
  | VI64 u64 | VU64 u64 | VFloat u32 | VDouble u64 | VString string | VBinary "u8 list"

record message =
  m_imei :: string
  m_sequence :: u32
  m_type :: message_type
  m_version :: protocol_version
  m_timestamp :: ticks
  m_fields :: "(string \<times> fvalue) list"
  m_errors :: "validation_error list"

definition new_message ::
    "string \<Rightarrow> u32 \<Rightarrow> message_type \<Rightarrow> protocol_version \<Rightarrow> (string \<times> fvalue) list \<Rightarrow> ticks \<Rightarrow> message" where
  "new_message imei seqno messageType version flds timestamp =
     \<lparr>m_imei = imei, m_sequence = seqno, m_type = messageType, m_version = version,
      m_timestamp = timestamp, m_fields = flds,
      m_errors =
        (if length imei \<noteq> 15 \<or> \<not> list_all is_digit imei
         then [validation_error3 ''IMEI must be exactly 15 digits'' ''imei'' Sev_ERROR] else [])\<rparr>"

definition default_message :: "ticks \<Rightarrow> message" where
  "default_message now =
     \<lparr>m_imei = [], m_sequence = 0, m_type = MT_UNKNOWN, m_version = Protocol_Version 1 0,
      m_timestamp = now, m_fields = [],
      m_errors = [validation_error3 ''Default constructed message is invalid'' ''message'' Sev_ERROR]\<rparr>"

definition isValid :: "message \<Rightarrow> bool" where
  "isValid m \<longleftrightarrow> m_errors m = []"

definition addValidationError :: "validation_error \<Rightarrow> message \<Rightarrow> message" where
  "addValidationError e m = m\<lparr>m_errors := m_errors m @ [e]\<rparr>"

definition setProtocolVersion :: "protocol_version \<Rightarrow> message \<Rightarrow> message" where
  "setProtocolVersion v m = m\<lparr>m_version := v\<rparr>"

section \<open>Field access\<close>

definition hasField :: "string \<Rightarrow> message \<Rightarrow> bool" where
  "hasField name m \<longleftrightarrow> map_of (m_fields m) name \<noteq> None"

definition addField :: "string \<Rightarrow> fvalue \<Rightarrow> message \<Rightarrow> bool \<times> message" where
  "addField name v m =
     (if hasField name m then (False, m)
      else (True, m\<lparr>m_fields := al_set name v (m_fields m)\<rparr>))"

definition setField :: "string \<Rightarrow> fvalue \<Rightarrow> message \<Rightarrow> message" where
  "setField name v m = m\<lparr>m_fields := al_set name v (m_fields m)\<rparr>"

definition removeField :: "string \<Rightarrow> message \<Rightarrow> message" where
  "removeField name m = m\<lparr>m_fields := al_del name (m_fields m)\<rparr>"

definition getFieldNames :: "message \<Rightarrow> string list" where
  "getFieldNames m = sort (map fst (m_fields m))"

text \<open>The arithmetic alternatives of the variant as numbers; \<open>bool\<close> is one of them.\<close>

datatype number = IntN int | FpN fp

fun num_of :: "fvalue \<Rightarrow> number option" where
  "num_of (VBool b) = Some (IntN (if b then 1 else 0))"
| "num_of (VI8 w) = Some (IntN (sint w))"
| "num_of (VU8 w) = Some (IntN (uint w))"
| "num_of (VI16 w) = Some (IntN (sint w))"
| "num_of (VU16 w) = Some (IntN (uint w))"
| "num_of (VI32 w) = Some (IntN (sint w))"
| "num_of (VU32 w) = Some (IntN (uint w))"
| "num_of (VI64 w) = Some (IntN (sint w))"
| "num_of (VU64 w) = Some (IntN (uint w))"
| "num_of (VFloat w) = Some (FpN (float_val w))"
| "num_of (VDouble w) = Some (FpN (double_val w))"
| "num_of _ = None"

text \<open>
  \<open>convertValue<T>\<close> at the types the component asks for. A floating value whose truncation does
  not fit the integer type makes the cast undefined; that is \<open>Bad_Cast\<close>.
\<close>

definition numeric_error :: "proto_exc fault" where
  "numeric_error = Thrown (TypeConversionError ''Cannot convert to requested numeric type'')"

fun convert_double :: "fvalue \<Rightarrow> proto_exc fault + fp" where
  "convert_double v =
     (case num_of v of
        None \<Rightarrow> Inl numeric_error
      | Some (IntN n) \<Rightarrow> Inr (f64 (of_int n))
      | Some (FpN x) \<Rightarrow> Inr x)"

fun to_single :: "fp \<Rightarrow> fp" where
  "to_single (Fin x) = f32 x"
| "to_single (Inf n) = Inf n"
| "to_single NaN = NaN"

fun convert_float :: "fvalue \<Rightarrow> proto_exc fault + fp" where
  "convert_float (VFloat w) = Inr (float_val w)"
| "convert_float v =
     (case num_of v of
        None \<Rightarrow> Inl numeric_error
      | Some (IntN n) \<Rightarrow> Inr (f32 (of_int n))
      | Some (FpN x) \<Rightarrow> Inr (to_single x))"

definition convert_int :: "int \<Rightarrow> int \<Rightarrow> fvalue \<Rightarrow> proto_exc fault + u32" where
  "convert_int lo hi v =
     (case num_of v of
        None \<Rightarrow> Inl numeric_error
      | Some (IntN n) \<Rightarrow> Inr (word_of_int n)
      | Some (FpN (Fin x)) \<Rightarrow>
          (if lo \<le> Ieee_Float.truncate x \<and> Ieee_Float.truncate x \<le> hi then Inr (word_of_int (Ieee_Float.truncate x))
           else Inl Bad_Cast)
      | Some (FpN _) \<Rightarrow> Inl Bad_Cast)"

definition convert_u32 :: "fvalue \<Rightarrow> proto_exc fault + u32" where
  "convert_u32 = convert_int 0 (2 ^ 32 - 1)"

definition convert_i32 :: "fvalue \<Rightarrow> proto_exc fault + u32" where
  "convert_i32 = convert_int (- (2 ^ 31)) (2 ^ 31 - 1)"

fun convert_string :: "fvalue \<Rightarrow> proto_exc fault + string" where
  "convert_string (VString s) = Inr s"
| "convert_string _ =
     Inl (Thrown (TypeConversionError ''Cannot convert field value to requested type''))"

definition getField :: "(fvalue \<Rightarrow> proto_exc fault + 'a) \<Rightarrow> string \<Rightarrow> message \<Rightarrow> proto_exc fault + 'a" where
  "getField conv name m =
     (case map_of (m_fields m) name of
        None \<Rightarrow> Inl (Thrown (FieldAccessError (''Field '' @ [CHR 0x27] @ name @ [CHR 0x27] @ '' not found in message'')))
      | Some v \<Rightarrow> conv v)"

definition tryGetField :: "(fvalue \<Rightarrow> proto_exc fault + 'a) \<Rightarrow> string \<Rightarrow> message \<Rightarrow> 'a option" where
  "tryGetField conv name m =
     (case map_of (m_fields m) name of
        None \<Rightarrow> None
      | Some v \<Rightarrow> (case conv v of Inr x \<Rightarrow> Some x | Inl e \<Rightarrow> None))"

lemma map_of_setField [simp]: "map_of (m_fields (setField k v m)) = (map_of (m_fields m))(k \<mapsto> v)"
  by (simp add: setField_def)

lemma setField_frame [simp]:
  "m_imei (setField k v m) = m_imei m" "m_sequence (setField k v m) = m_sequence m"
  "m_type (setField k v m) = m_type m" "m_version (setField k v m) = m_version m"
  "m_timestamp (setField k v m) = m_timestamp m" "m_errors (setField k v m) = m_errors m"
  by (simp_all add: setField_def)

lemma addValidationError_frame [simp]:
  "m_imei (addValidationError e m) = m_imei m" "m_sequence (addValidationError e m) = m_sequence m"
  "m_type (addValidationError e m) = m_type m" "m_version (addValidationError e m) = m_version m"
  "m_fields (addValidationError e m) = m_fields m"
  "m_timestamp (addValidationError e m) = m_timestamp m"
  "m_errors (addValidationError e m) = m_errors m @ [e]"
  by (simp_all add: addValidationError_def)

lemma new_message_sel [simp]:
  "m_imei (new_message i s t v f ts) = i" "m_sequence (new_message i s t v f ts) = s"
  "m_type (new_message i s t v f ts) = t" "m_version (new_message i s t v f ts) = v"
  "m_fields (new_message i s t v f ts) = f" "m_timestamp (new_message i s t v f ts) = ts"
  by (simp_all add: new_message_def)

lemma new_message_errors:
  "m_errors (new_message i s t v f ts) =
     (if isValidImei i then []
      else [validation_error3 ''IMEI must be exactly 15 digits'' ''imei'' Sev_ERROR])"
  by (auto simp: new_message_def isValidImei_digits)

lemma hasField_setField [simp]: "hasField n (setField k v m) \<longleftrightarrow> n = k \<or> hasField n m"
  by (simp add: hasField_def)

lemma getField_setField [simp]:
  "getField conv n (setField k v m) = (if n = k then conv v else getField conv n m)"
  by (simp add: getField_def)

lemma getField_addValidationError [simp]:
  "getField conv n (addValidationError e m) = getField conv n m"
  "hasField n (addValidationError e m) = hasField n m"
  by (simp_all add: getField_def hasField_def)

section \<open>Binary format\<close>

text \<open>
  Type tag and payload of a value. The \<open>if constexpr\<close> chain has no case for the two 64-bit
  integer alternatives, so nothing is written for them, not even a tag.
\<close>

fun value_bytes :: "fvalue \<Rightarrow> u8 list" where
  "value_bytes VMono = [0]"
| "value_bytes (VBool b) = [1, if b then 1 else 0]"
| "value_bytes (VI8 v) = [2, v]"
| "value_bytes (VU8 v) = [3, v]"
| "value_bytes (VI16 v) = 4 # le16_bytes v"
| "value_bytes (VU16 v) = 5 # le16_bytes v"
| "value_bytes (VI32 v) = 6 # le32_bytes v"
| "value_bytes (VU32 v) = 7 # le32_bytes v"
| "value_bytes (VI64 v) = []"
| "value_bytes (VU64 v) = []"
| "value_bytes (VFloat v) = 10 # le32_bytes v"
| "value_bytes (VDouble v) = 11 # le64_bytes v"
| "value_bytes (VString s) = 12 # word_of_nat (length s) # map byte_of_char s"
| "value_bytes (VBinary bs) = 13 # word_of_nat (length bs) # bs"

definition field_bytes :: "string \<times> fvalue \<Rightarrow> u8 list" where
  "field_bytes f = word_of_nat (length (fst f)) # map byte_of_char (fst f) @ value_bytes (snd f)"

definition imei_bytes :: "string \<Rightarrow> u8 list" where
  "imei_bytes imei =
     map (\<lambda>i. if i < length imei then byte_of_char (imei ! i) - 48 else 0) [0..<15]"

definition body_bytes :: "message \<Rightarrow> u8 list" where
  "body_bytes m =
     [0xAA, 0xBB, message_type_byte (m_type m), major (m_version m), minor (m_version m)]
     @ imei_bytes (m_imei m) @ le32_bytes (m_sequence m)
     @ [word_of_nat (length (m_fields m))] @ concat (map field_bytes (m_fields m))"

definition toBinary :: "message \<Rightarrow> u8 list" where
  "toBinary m = body_bytes m @ [xor_all (body_bytes m)]"

subsection \<open>Reading it back\<close>

definition store :: "string \<Rightarrow> fvalue \<Rightarrow> message \<Rightarrow> message" where
  "store name v m = snd (addField name v m)"

text \<open>
  The \<open>switch\<close> on the type tag: the new offset and the message. Unlisted tags consume nothing.
\<close>

definition read_value ::
    "u8 list \<Rightarrow> nat \<Rightarrow> u8 \<Rightarrow> string \<Rightarrow> message \<Rightarrow> proto_exc fault + nat \<times> message" where
  "read_value data off ty name m =
     (if ty = 1 then
        (if off < length data
         then and_then (byte_at data off) (\<lambda>b. Inr (off + 1, store name (VBool (b \<noteq> 0)) m))
         else Inr (off, m))
      else if ty = 2 then
        (if off < length data
         then and_then (byte_at data off) (\<lambda>b. Inr (off + 1, store name (VI8 b) m))
         else Inr (off, m))
      else if ty = 3 then
        (if off < length data
         then and_then (byte_at data off) (\<lambda>b. Inr (off + 1, store name (VU8 b) m))
         else Inr (off, m))
      else if ty = 10 then
        (if off + 4 \<le> length data
         then and_then (read_le32 data off) (\<lambda>w. Inr (off + 4, store name (VFloat w) m))
         else Inr (off, m))
      else if ty = 12 then
        (if off < length data
         then and_then (byte_at data off) (\<lambda>n.
           if off + 1 + unat n \<le> length data
           then and_then (slice_at data (off + 1) (unat n)) (\<lambda>s.
             Inr (off + 1 + unat n, store name (VString (map char_of_byte s)) m))
           else Inr (off + 1, m))
         else Inr (off, m))
      else Inr (off, m))"

text \<open>The field loop; each early \<open>break\<close> and the loop guard end it with the message so far.\<close>

fun read_fields :: "nat \<Rightarrow> u8 list \<Rightarrow> nat \<Rightarrow> message \<Rightarrow> proto_exc fault + message" where
  "read_fields 0 data off m = Inr m"
| "read_fields (Suc n) data off m =
     (if \<not> off < length data - 1 then Inr m
      else and_then (byte_at data off) (\<lambda>nl.
        if length data \<le> off + 1 + unat nl then Inr m
        else and_then (slice_at data (off + 1) (unat nl)) (\<lambda>nm.
          if length data \<le> off + 1 + unat nl then Inr m
          else and_then (byte_at data (off + 1 + unat nl)) (\<lambda>ty.
            and_then (read_value data (off + 1 + unat nl + 1) ty (map char_of_byte nm) m)
              (\<lambda>(off', m'). read_fields n data off' m')))))"

fun read_imei :: "u8 list \<Rightarrow> nat \<Rightarrow> nat \<Rightarrow> proto_exc fault + string" where
  "read_imei data off 0 = Inr []"
| "read_imei data off (Suc n) =
     and_then (byte_at data off) (\<lambda>b.
       and_then (read_imei data (off + 1) n) (\<lambda>s. Inr (dec_string (unat b) @ s)))"

definition fromBinary :: "ticks \<Rightarrow> u8 list \<Rightarrow> proto_exc fault + message" where
  "fromBinary now data =
     (if length data < 25
      then Inl (Thrown (ParseError ''Binary data too short for valid message''))
      else and_then (byte_at data 0) (\<lambda>b0. and_then (byte_at data 1) (\<lambda>b1.
        if b0 \<noteq> 0xAA \<or> b1 \<noteq> 0xBB
        then Inl (Thrown (ParseError ''Invalid magic bytes in binary data''))
        else and_then (byte_at data 2) (\<lambda>ty.
          and_then (byte_at data 3) (\<lambda>maj. and_then (byte_at data 4) (\<lambda>mi.
          and_then (read_imei data 5 15) (\<lambda>imei.
          and_then (read_le32 data 20) (\<lambda>seqno.
          and_then (byte_at data 24) (\<lambda>count.
            read_fields (unat count) data 25
              (new_message imei seqno (message_type_of ty) (Protocol_Version maj mi) [] now))))))))))"

section \<open>Correctness of the binary format\<close>

lemma store_new: "\<not> hasField k m \<Longrightarrow> store k v m = m\<lparr>m_fields := m_fields m @ [(k, v)]\<rparr>"
  by (auto simp: store_def addField_def hasField_def al_set_new map_of_eq_None_iff)

lemma hasField_store [simp]: "hasField n (store k v m) \<longleftrightarrow> n = k \<or> hasField n m"
  by (auto simp: store_def addField_def hasField_def)

lemma read_value_total: "\<exists>off' m'. read_value data off ty name m = Inr (off', m')"
  by (auto simp: read_value_def)

lemma read_fields_total: "\<exists>m'. read_fields n data off m = Inr m'"
proof (induction n arbitrary: off m)
  case (Suc n)
  show ?case
  proof (cases "off < length data - 1 \<and> off + 1 + unat (data ! off) < length data")
    case True
    let ?o = "off + 1 + unat (data ! off)"
    obtain off' m' where "read_value data (?o + 1) (data ! ?o)
        (map char_of_byte (take (unat (data ! off)) (drop (off + 1) data))) m = Inr (off', m')"
      using read_value_total by blast
    with True Suc.IH [of off' m'] show ?thesis by simp
  next
    case False
    then show ?thesis by auto
  qed
qed simp

lemma read_imei_total: "off + n \<le> length data \<Longrightarrow> \<exists>s. read_imei data off n = Inr s"
proof (induction n arbitrary: off)
  case (Suc n)
  then have "\<exists>s. read_imei data (off + 1) n = Inr s" by simp
  with Suc.prems show ?case by auto
qed simp

text \<open>The field values that survive the format.\<close>

fun codec_value :: "fvalue \<Rightarrow> bool" where
  "codec_value (VBool b) = True"
| "codec_value (VI8 v) = True"
| "codec_value (VU8 v) = True"
| "codec_value (VFloat v) = True"
| "codec_value (VString s) = (length s < 256)"
| "codec_value _ = False"

definition codec_field :: "string \<times> fvalue \<Rightarrow> bool" where
  "codec_field f \<longleftrightarrow> length (fst f) < 256 \<and> codec_value (snd f)"

definition codec_message :: "message \<Rightarrow> bool" where
  "codec_message m \<longleftrightarrow>
     isValidImei (m_imei m) \<and> listed_message_type (m_type m) \<and> length (m_fields m) < 256 \<and>
     distinct (map fst (m_fields m)) \<and> list_all codec_field (m_fields m)"

lemma read_le32_at:
  "read_le32 (pre @ le32_bytes w @ rest) (length pre) = Inr w"
  by (simp add: nth_append le32_bytes_def ucast_and_255 le32_bytes_inverse)

lemma read_value_bytes:
  assumes "codec_value v"
  shows "read_value (pre @ value_bytes v @ rest) (length pre + 1) (hd (value_bytes v)) name m =
    Inr (length pre + length (value_bytes v), store name v m)"
proof (cases v)
  case (VFloat w)
  with read_le32_at [of "pre @ [10]" w rest] show ?thesis
    by (simp add: read_value_def)
next
  case (VString s)
  with assms show ?thesis
    by (simp add: read_value_def nth_append unat_of_nat)
qed (use assms in \<open>auto simp: read_value_def nth_append\<close>)

lemma value_bytes_not_Nil: "codec_value v \<Longrightarrow> value_bytes v \<noteq> []"
  by (cases v) simp_all

lemma read_fields_one:
  assumes "codec_field f" "rest \<noteq> []"
  shows "read_fields (Suc n) (pre @ field_bytes f @ rest) (length pre) m =
    read_fields n (pre @ field_bytes f @ rest) (length pre + length (field_bytes f))
      (store (fst f) (snd f) m)"
proof -
  obtain nm v where f: "f = (nm, v)" by (cases f)
  obtain t vs where vb: "value_bytes v = t # vs"
    using assms(1) value_bytes_not_Nil [of v] by (cases "value_bytes v") (auto simp: f codec_field_def)
  let ?pre = "pre @ word_of_nat (length nm) # map byte_of_char nm"
  let ?data = "pre @ field_bytes f @ rest"
  have data: "?data = ?pre @ value_bytes v @ rest"
    by (simp add: f field_bytes_def)
  have len: "unat (word_of_nat (length nm) :: u8) = length nm"
    using assms(1) by (simp add: f codec_field_def unat_of_nat)
  have val: "read_value ?data (length ?pre + 1) t nm m =
      Inr (length ?pre + length (value_bytes v), store nm v m)"
    using read_value_bytes [of v ?pre rest nm m] assms(1)
    unfolding data by (simp add: f codec_field_def vb)
  have at: "?data ! length pre = word_of_nat (length nm)" "?data ! length ?pre = t"
    unfolding data by (simp_all add: nth_append vb)
  have nm: "take (length nm) (drop (length pre + 1) ?data) = map byte_of_char nm"
    by (simp add: f field_bytes_def)
  have bounds: "length pre < length ?data - 1" "length ?pre < length ?data"
    using assms(2) unfolding data by (simp_all add: vb)
  show ?thesis
    using bounds at nm val vb
    by (simp add: len f field_bytes_def algebra_simps)
qed

lemma read_fields_concat:
  assumes "list_all codec_field fs" "distinct (map fst fs)" "rest \<noteq> []"
    "\<forall>f \<in> set fs. \<not> hasField (fst f) m"
  shows "read_fields (length fs) (pre @ concat (map field_bytes fs) @ rest) (length pre) m =
    Inr (m\<lparr>m_fields := m_fields m @ fs\<rparr>)"
  using assms
proof (induction fs arbitrary: pre m)
  case (Cons f fs)
  let ?m = "store (fst f) (snd f) m"
  have m: "?m = m\<lparr>m_fields := m_fields m @ [f]\<rparr>"
    using Cons.prems(4) by (simp add: store_new)
  have "read_fields (length fs) ((pre @ field_bytes f) @ concat (map field_bytes fs) @ rest)
      (length (pre @ field_bytes f)) ?m = Inr (?m\<lparr>m_fields := m_fields ?m @ fs\<rparr>)"
    using Cons.prems by (intro Cons.IH) (auto simp: rev_image_eqI)
  moreover have "read_fields (length (f # fs)) (pre @ field_bytes f @ concat (map field_bytes fs) @ rest)
      (length pre) m =
      read_fields (length fs) (pre @ field_bytes f @ concat (map field_bytes fs) @ rest)
      (length pre + length (field_bytes f)) ?m"
    using Cons.prems read_fields_one [of f "concat (map field_bytes fs) @ rest" "length fs" pre m] by simp
  ultimately show ?case by (simp add: m)
qed simp

lemma digit_string_byte:
  assumes "is_digit c"
  shows "dec_string (unat (byte_of_char c - 48)) = [c]"
proof -
  have c: "48 \<le> (of_char c :: nat)" "(of_char c :: nat) \<le> 57"
    using assms by (simp_all add: is_digit_def)
  obtain k :: nat where k: "of_char c = 48 + k" "k < 10"
    using c that [of "of_char c - 48"] by simp
  then have "unat (byte_of_char c - 48) = k"
    by (simp add: byte_of_char_def unat_of_nat)
  moreover have "c = digit_char k"
    using k by (metis char_of_char digit_char_def)
  ultimately show ?thesis using k by (simp add: dec_string_small)
qed

lemma read_imei_bytes:
  assumes "list_all is_digit s"
  shows "read_imei (pre @ map (\<lambda>c. byte_of_char c - 48) s @ rest) (length pre) (length s) = Inr s"
  using assms
proof (induction s arbitrary: pre)
  case (Cons c s)
  then show ?case
    using Cons.IH [of "pre @ [byte_of_char c - 48]"]
    by (simp add: nth_append digit_string_byte)
qed simp

lemma imei_bytes_valid:
  "length imei = 15 \<Longrightarrow> imei_bytes imei = map (\<lambda>c. byte_of_char c - 48) imei"
  unfolding imei_bytes_def by (rule nth_equalityI) auto

text \<open>
  The message a written one is read back as: the same header and fields with the clock's time
  stamp and no validation errors.
\<close>

definition reread :: "ticks \<Rightarrow> message \<Rightarrow> message" where
  "reread now m =
     new_message (m_imei m) (m_sequence m) (m_type m) (m_version m) (m_fields m) now"

lemma fromBinary_header:
  assumes "isValidImei (m_imei m)" "listed_message_type (m_type m)" "length (m_fields m) < 256"
  shows "\<exists>pre. length pre = 25 \<and>
    body_bytes m @ [c] = pre @ concat (map field_bytes (m_fields m)) @ [c] \<and>
    fromBinary now (body_bytes m @ [c]) =
      read_fields (length (m_fields m)) (body_bytes m @ [c]) 25
        (new_message (m_imei m) (m_sequence m) (m_type m) (m_version m) [] now)"
proof -
  have imei: "length (m_imei m) = 15" "list_all is_digit (m_imei m)"
    and cnt: "unat (word_of_nat (length (m_fields m)) :: u8) = length (m_fields m)"
    using assms by (simp_all add: isValidImei_digits unat_of_nat)
  let ?h = "[0xAA, 0xBB, message_type_byte (m_type m), major (m_version m), minor (m_version m)]"
  let ?i = "map (\<lambda>c. byte_of_char c - 48) (m_imei m)"
  let ?n = "word_of_nat (length (m_fields m)) :: u8"
  let ?fs = "concat (map field_bytes (m_fields m)) @ [c]"
  let ?pre = "?h @ ?i @ le32_bytes (m_sequence m) @ [?n]"
  let ?d = "body_bytes m @ [c]"
  have d1: "?d = ?h @ ?i @ le32_bytes (m_sequence m) @ ?n # ?fs"
    and d2: "?d = (?h @ ?i) @ le32_bytes (m_sequence m) @ ?n # ?fs"
    and d3: "?d = (?h @ ?i @ le32_bytes (m_sequence m)) @ ?n # ?fs"
    and d4: "?d = ?pre @ ?fs"
    by (simp_all add: body_bytes_def imei_bytes_valid imei)
  have len: "\<not> length ?d < 25" unfolding d1 by (simp add: imei)
  have hdr: "byte_at ?d 0 = Inr 0xAA" "byte_at ?d 1 = Inr 0xBB"
      "byte_at ?d 2 = Inr (message_type_byte (m_type m))"
      "byte_at ?d 3 = Inr (major (m_version m))" "byte_at ?d 4 = Inr (minor (m_version m))"
    unfolding d1 by simp_all
  have l: "length ?h = 5" by simp
  have ri: "read_imei ?d 5 15 = Inr (m_imei m)"
    using read_imei_bytes [OF imei(2), of ?h] unfolding d1 l imei(1) .
  have rs: "read_le32 ?d 20 = Inr (m_sequence m)"
    using read_le32_at [of "?h @ ?i"] unfolding d2 by (simp add: imei(1) del: read_le32_in)
  have rc: "byte_at ?d 24 = Inr ?n" unfolding d3 by (simp add: nth_append imei(1))
  have "fromBinary now ?d = read_fields (length (m_fields m)) ?d 25
      (new_message (m_imei m) (m_sequence m) (m_type m) (m_version m) [] now)"
    using len by (simp add: fromBinary_def hdr ri rs rc cnt message_type_of_byte assms(2)
        del: read_le32_in byte_at_in One_nat_def)
  moreover have "length ?pre = 25" by (simp add: imei(1))
  ultimately show ?thesis using d4 by blast
qed

lemma fromBinary_body:
  assumes "codec_message m"
  shows "fromBinary now (body_bytes m @ [c]) = Inr (reread now m)"
proof -
  have m: "isValidImei (m_imei m)" "listed_message_type (m_type m)" "length (m_fields m) < 256"
    and fs: "distinct (map fst (m_fields m))" "list_all codec_field (m_fields m)"
    using assms by (simp_all add: codec_message_def)
  let ?n = "new_message (m_imei m) (m_sequence m) (m_type m) (m_version m) [] now"
  obtain pre where pre: "length pre = 25"
      "body_bytes m @ [c] = pre @ concat (map field_bytes (m_fields m)) @ [c]"
      "fromBinary now (body_bytes m @ [c]) =
        read_fields (length (m_fields m)) (body_bytes m @ [c]) 25 ?n"
    using fromBinary_header [OF m] by blast
  then show ?thesis
    using read_fields_concat [OF fs(2,1), of "[c]" ?n pre]
    by (simp add: hasField_def reread_def new_message_def)
qed

section \<open>Properties\<close>

text \<open>
  C14. Round trip of the message format: \<open>fromBinary\<close> reads back every message \<open>toBinary\<close>
  writes whose IMEI is valid and whose fields are of the types the reader knows (bool, 8-bit
  integers, float, strings of fewer than 256 characters), whatever order the field map is
  iterated in: same header, same fields, no validation error.
\<close>

theorem fromBinary_toBinary:
  assumes "codec_message m"
  shows "fromBinary now (toBinary m) = Inr (reread now m)"
  unfolding toBinary_def by (rule fromBinary_body [OF assms])

definition sample_message :: message where
  "sample_message =
     new_message ''123456789012345'' 7 MT_HEARTBEAT (Protocol_Version 1 0)
       [(''on'', VBool True), (''name'', VString ''ab'')] 0"

theorem fromBinary_toBinary_witness:
  "codec_message sample_message \<and> fromBinary 5 (toBinary sample_message) = Inr (reread 5 sample_message)"
proof -
  have "codec_message sample_message"
    by (simp add: codec_message_def sample_message_def isValidImei_def codec_field_def listed_message_type_def)
  with fromBinary_toBinary [OF this] show ?thesis by simp
qed

text \<open>
  C27. \<open>fromBinary\<close> is memory safe and fails in two ways only: on every byte string it returns a
  message, except that a string shorter than 25 bytes or one without the magic bytes throws the
  parse error the code names. No read goes past the end of the data.
\<close>

theorem fromBinary_outcome:
  "case fromBinary now data of
     Inl e \<Rightarrow>
       length data < 25 \<and> e = Thrown (ParseError ''Binary data too short for valid message'') \<or>
       25 \<le> length data \<and> \<not> (data ! 0 = 0xAA \<and> data ! 1 = 0xBB) \<and>
         e = Thrown (ParseError ''Invalid magic bytes in binary data'')
   | Inr m \<Rightarrow> 25 \<le> length data \<and> data ! 0 = 0xAA \<and> data ! 1 = 0xBB"
proof (cases "25 \<le> length data")
  case True
  then obtain s where "read_imei data 5 15 = Inr s"
    using read_imei_total [of 5 15 data] by auto
  moreover obtain m where "read_fields (unat (data ! 24)) data 25
      (new_message s (le32 (data ! 20) (data ! 21) (data ! 22) (data ! 23)) (message_type_of (data ! 2))
        (Protocol_Version (data ! 3) (data ! 4)) [] now) = Inr m"
    using read_fields_total by blast
  moreover from True have "data \<noteq> []" "Suc 0 < length data" by auto
  ultimately show ?thesis using True by (simp add: fromBinary_def)
qed (simp add: fromBinary_def)

end
