(* ===== verification/Packet_Parser.thy ===== *)
theory Packet_Parser
  imports Proto_Message
begin

text \<open>
  \<open>protocol_parser::Parser\<close> (\<open>parser.hpp\<close>, \<open>parser.cpp\<close>): the fixed header with its BCD-coded
  IMEI, the payload decoders selected by the message type, the XOR checksum and the last-error
  state. A payload is the slice of the packet between the header and the checksum byte, so a
  read outside the slice would show as \<open>Out_Of_Bounds\<close>.
\<close>

section \<open>State\<close>

record parser_config =
  strictMode :: bool
  allowLegacyProtocol :: bool
  maxPayloadSize :: nat
  validateChecksums :: bool
  allowUnknownMessageTypes :: bool

definition default_parser_config :: parser_config where
  "default_parser_config =
     \<lparr>strictMode = True, allowLegacyProtocol = False, maxPayloadSize = 4096,
      validateChecksums = True, allowUnknownMessageTypes = True\<rparr>"

record parser =
  p_config :: parser_config
  p_lastError :: proto_exc

definition new_parser :: "parser_config \<Rightarrow> parser" where
  "new_parser c = \<lparr>p_config = c, p_lastError = ParseError ''No error''\<rparr>"

abbreviation (input) MINIMUM_PACKET_SIZE :: nat where "MINIMUM_PACKET_SIZE \<equiv> 25"
abbreviation (input) HEADER_SIZE :: nat where "HEADER_SIZE \<equiv> 19"
abbreviation (input) CHECKSUM_SIZE :: nat where "CHECKSUM_SIZE \<equiv> 1"

record packet_header =
  h_version :: protocol_version
  h_type :: message_type
  h_imei :: string
  h_sequence :: u32

section \<open>Header\<close>

text \<open>Digit \<open>i\<close> of the IMEI: the low nibble of its byte for even \<open>i\<close>, the high one for odd.\<close>

definition bcd_nibble :: "nat \<Rightarrow> u8 \<Rightarrow> u8" where
  "bcd_nibble i b = (if i mod 2 = 0 then b AND 0x0F else drop_bit 4 b AND 0x0F)"

text \<open>The loop over \<open>i\<close>: a nibble above 9 is skipped.\<close>

fun bcd_digits :: "u8 list \<Rightarrow> nat \<Rightarrow> nat \<Rightarrow> nat \<Rightarrow> proto_exc fault + string" where
  "bcd_digits data off i 0 = Inr []"
| "bcd_digits data off i (Suc n) =
     and_then (byte_at data (off + i div 2)) (\<lambda>b.
       and_then (bcd_digits data off (Suc i) n) (\<lambda>s.
         Inr (if unat (bcd_nibble i b) \<le> 9 then digit_char (unat (bcd_nibble i b)) # s else s)))"

definition parseHeader :: "u8 list \<Rightarrow> proto_exc fault + packet_header option" where
  "parseHeader data =
     (if length data < HEADER_SIZE then Inr None
      else and_then (byte_at data 0) (\<lambda>b0. and_then (byte_at data 1) (\<lambda>b1.
        if b0 \<noteq> 0xAA \<or> b1 \<noteq> 0xBB then Inr None
        else and_then (byte_at data 2) (\<lambda>maj. and_then (byte_at data 3) (\<lambda>mi.
          and_then (byte_at data 4) (\<lambda>ty. and_then (bcd_digits data 5 0 15) (\<lambda>imei.
          and_then (read_le32 data 13) (\<lambda>seqno.
            Inr (Some \<lparr>h_version = Protocol_Version maj mi, h_type = message_type_of ty,
                       h_imei = imei, h_sequence = seqno\<rparr>)))))))))"

definition validateHeader :: "packet_header \<Rightarrow> validation_error list" where
  "validateHeader h =
     (if 2 < major (h_version h) \<or> (major (h_version h) = 2 \<and> 0 < minor (h_version h))
      then [validation_error4
              (''Unsupported protocol version: '' @ dec_string (unat (major (h_version h))) @ ''.''
               @ dec_string (unat (minor (h_version h)))) ''version'' Sev_WARNING Cat_PROTOCOL_ERROR]
      else [])
     @ (if h_type h = MT_UNKNOWN \<or> 10 < uint (message_type_byte (h_type h))
        then [validation_error4
                (''Unknown message type: '' @ dec_string (unat (message_type_byte (h_type h))))
                ''messageType'' Sev_ERROR Cat_PROTOCOL_ERROR]
        else [])
     @ (if length (h_imei h) \<noteq> 15
        then [validation_error4 (''Invalid IMEI length: '' @ dec_string (length (h_imei h)))
                ''imei'' Sev_ERROR Cat_VALIDATION_ERROR]
        else [])
     @ (if \<not> list_all is_digit (h_imei h)
        then [validation_error4 ''IMEI contains non-digit characters''
                ''imei'' Sev_ERROR Cat_VALIDATION_ERROR]
        else [])"

section \<open>Payloads\<close>

abbreviation (input) int16_of :: "u32 \<Rightarrow> u16" where "int16_of w \<equiv> ucast w"

definition parseGPSUpdate :: "u8 list \<Rightarrow> message \<Rightarrow> proto_exc fault + message" where
  "parseGPSUpdate data m =
     (if length data < 32
      then Inr (addValidationError (validation_error3 ''GPS payload too small'' ''gps_payload'' Sev_ERROR) m)
      else
        and_then (read_le32 data 0) (\<lambda>latRaw.
        let m = setField ''latitude'' (VDouble (double_bits (of_int (sint latRaw) / 1000000))) m in
        and_then (read_le32 data 4) (\<lambda>lonRaw.
        let m = setField ''longitude'' (VDouble (double_bits (of_int (sint lonRaw) / 1000000))) m in
        and_then (read_le16 data 8) (\<lambda>altitude.
        let m = setField ''altitude'' (VI32 (scast (int16_of altitude))) m in
        and_then (read_le16 data 10) (\<lambda>speedRaw.
        let m = setField ''speed'' (VFloat (float_bits (of_int (uint (int16_of speedRaw)) / 10))) m in
        and_then (read_le16 data 12) (\<lambda>headingRaw.
        let m = setField ''heading'' (VFloat (float_bits (of_int (uint (int16_of headingRaw)) / 10))) m in
        and_then (byte_at data 14) (\<lambda>satellites.
        let m = setField ''satellites'' (VU32 (ucast satellites)) m in
        and_then (read_le16 data 15) (\<lambda>hdopRaw.
        let m = setField ''hdop'' (VFloat (float_bits (of_int (uint (int16_of hdopRaw)) / 100))) m in
        and_then (byte_at data 17) (\<lambda>fixType.
        let m = setField ''fix_type'' (VU32 (ucast fixType)) m in
        if 18 + 4 \<le> length data
        then and_then (read_le32 data 18) (\<lambda>timestamp. Inr (setField ''gps_timestamp'' (VU32 timestamp) m))
        else Inr m)))))))))"

definition parseStatusUpdate :: "u8 list \<Rightarrow> message \<Rightarrow> proto_exc fault + message" where
  "parseStatusUpdate data m =
     (if length data < 8
      then Inr (addValidationError
             (validation_error3 ''Status payload too small'' ''status_payload'' Sev_ERROR) m)
      else
        and_then (byte_at data 0) (\<lambda>batteryLevel.
        let m = setField ''battery_level'' (VU32 (ucast batteryLevel)) m in
        and_then (byte_at data 1) (\<lambda>signalStrength.
        let m = setField ''signal_strength'' (VI32 (scast signalStrength)) m in
        and_then (read_le16 data 2) (\<lambda>tempRaw.
        let m = setField ''temperature'' (VFloat (float_bits (of_int (sint (int16_of tempRaw)) / 10))) m in
        and_then (read_le16 data 4) (\<lambda>voltage.
        let m = setField ''voltage'' (VU32 (ucast (int16_of voltage))) m in
        and_then (byte_at data 6) (\<lambda>statusFlags.
        let m = setField ''status_flags'' (VU32 (ucast statusFlags)) m;
            m = setField ''is_charging'' (VBool (statusFlags AND 0x01 \<noteq> 0)) m;
            m = setField ''is_moving'' (VBool (statusFlags AND 0x02 \<noteq> 0)) m;
            m = setField ''gps_enabled'' (VBool (statusFlags AND 0x04 \<noteq> 0)) m
        in Inr (setField ''panic_button'' (VBool (statusFlags AND 0x08 \<noteq> 0)) m)))))))"

definition parseEventNotification :: "u8 list \<Rightarrow> message \<Rightarrow> proto_exc fault + message" where
  "parseEventNotification data m =
     (if length data < 2
      then Inr (addValidationError
             (validation_error3 ''Event payload too small'' ''event_payload'' Sev_ERROR) m)
      else
        and_then (byte_at data 0) (\<lambda>eventType.
        let m = setField ''event_type'' (VU32 (ucast eventType)) m in
        and_then (byte_at data 1) (\<lambda>n.
        and_then (if 2 + unat n \<le> length data
                  then and_then (slice_at data 2 (unat n))
                         (\<lambda>bs. Inr (2 + unat n, setField ''event_data'' (VBinary bs) m))
                  else Inr (2, m))
          (\<lambda>(off, m).
             if off + 4 \<le> length data
             then and_then (read_le32 data off) (\<lambda>ts. Inr (setField ''event_timestamp'' (VU32 ts) m))
             else Inr m))))"

definition parseCommandAck :: "u8 list \<Rightarrow> message \<Rightarrow> proto_exc fault + message" where
  "parseCommandAck data m =
     (if length data < 6
      then Inr (addValidationError
             (validation_error3 ''Command ACK payload too small'' ''ack_payload'' Sev_ERROR) m)
      else
        and_then (read_le32 data 0) (\<lambda>originalSequence.
        let m = setField ''original_sequence'' (VU32 originalSequence) m in
        and_then (byte_at data 4) (\<lambda>resultCode.
        let m = setField ''result_code'' (VU32 (ucast resultCode)) m in
        and_then (byte_at data 5) (\<lambda>n.
          if 6 + unat n \<le> length data \<and> 0 < n
          then and_then (slice_at data 6 (unat n))
                 (\<lambda>bs. Inr (setField ''error_message'' (VString (map char_of_byte bs)) m))
          else Inr m))))"

definition parsePayload :: "u8 list \<Rightarrow> message_type \<Rightarrow> message \<Rightarrow> proto_exc fault + message" where
  "parsePayload data ty m =
     (case ty of
        MT_GPS_UPDATE \<Rightarrow> parseGPSUpdate data m
      | MT_STATUS_UPDATE \<Rightarrow> parseStatusUpdate data m
      | MT_EVENT_NOTIFICATION \<Rightarrow> parseEventNotification data m
      | MT_COMMAND_ACK \<Rightarrow> parseCommandAck data m
      | _ \<Rightarrow> Inr (setField ''raw_payload'' (VBinary data) m))"

definition verifyChecksum :: "u8 list \<Rightarrow> bool" where
  "verifyChecksum data =
     (if length data < CHECKSUM_SIZE then False
      else xor_all (take (length data - 1) data) = data ! (length data - 1))"

section \<open>Parsing a packet\<close>

definition checksum_error :: validation_error where
  "checksum_error =
     validation_error4 ''Checksum verification failed'' ''checksum'' Sev_ERROR Cat_PROTOCOL_ERROR"

definition parse_body :: "ticks \<Rightarrow> u8 list \<Rightarrow> proto_exc fault + message" where
  "parse_body now data =
     (if length data < MINIMUM_PACKET_SIZE
      then Inl (Thrown (ParseError (''Packet too small: '' @ dec_string (length data) @ '' bytes'')))
      else and_then (parseHeader data) (\<lambda>r.
        case r of
          None \<Rightarrow> Inl (Thrown (ParseError ''Failed to parse packet header''))
        | Some h \<Rightarrow>
            let m = new_message (h_imei h) (h_sequence h) (h_type h) (h_version h) [] now;
                m = fold addValidationError (validateHeader h) m;
                payloadSize = length data - HEADER_SIZE - CHECKSUM_SIZE
            in and_then
                 (if 0 < payloadSize
                  then parsePayload (take payloadSize (drop HEADER_SIZE data)) (h_type h) m
                  else Inr m)
                 (\<lambda>m. Inr (if verifyChecksum data then m else addValidationError checksum_error m))))"

text \<open>\<open>parseImpl\<close>: the handler records the caught exception's text and rethrows.\<close>

definition parseImpl :: "ticks \<Rightarrow> u8 list \<Rightarrow> parser \<Rightarrow> (proto_exc fault + message) \<times> parser" where
  "parseImpl now data p =
     (let r = parse_body now data; p = p\<lparr>p_lastError := ParseError ''No error''\<rparr>
      in case r of
           Inl (Thrown e) \<Rightarrow> (r, p\<lparr>p_lastError := ParseError (what e)\<rparr>)
         | _ \<Rightarrow> (r, p))"

definition parse :: "ticks \<Rightarrow> u8 list \<Rightarrow> parser \<Rightarrow> (proto_exc fault + message) \<times> parser" where
  "parse now packet p =
     (if packet = [] then (Inl (Thrown (ParseError ''Empty packet data'')), p)
      else parseImpl now packet p)"

section \<open>Every packet is parsed or refused\<close>

lemma bcd_digits_total:
  "off + (i + n) div 2 < length data \<Longrightarrow> \<exists>s. bcd_digits data off i n = Inr s"
proof (induction n arbitrary: i)
  case (Suc n)
  then have "off + i div 2 < length data" by (simp add: div_le_mono order_le_less_trans)
  moreover obtain s where "bcd_digits data off (Suc i) n = Inr s"
    using Suc.IH [of "Suc i"] Suc.prems by auto
  ultimately show ?case by simp
qed simp

lemma bcd_digits_all: "bcd_digits data off i n = Inr s \<Longrightarrow> list_all is_digit s"
proof (induction n arbitrary: i s)
  case (Suc n)
  then show ?case by (auto simp: and_then_Inr_iff split: if_splits)
qed simp

lemma parseGPSUpdate_total: "\<exists>m'. parseGPSUpdate data m = Inr m'"
  by (simp add: parseGPSUpdate_def Let_def not_less)

lemma parseStatusUpdate_total: "\<exists>m'. parseStatusUpdate data m = Inr m'"
  by (cases "length data < 8") (simp_all add: parseStatusUpdate_def Let_def not_less)

lemma parseEventNotification_total: "\<exists>m'. parseEventNotification data m = Inr m'"
  by (cases "length data < 2") (auto simp: parseEventNotification_def Let_def not_less)

lemma parseCommandAck_total: "\<exists>m'. parseCommandAck data m = Inr m'"
  by (cases "length data < 6") (auto simp: parseCommandAck_def Let_def not_less)

lemma parsePayload_total: "\<exists>m'. parsePayload data ty m = Inr m'"
  by (cases ty)
    (simp_all add: parsePayload_def parseGPSUpdate_total parseStatusUpdate_total
      parseEventNotification_total parseCommandAck_total)

lemma parseHeader_outcome:
  assumes "25 \<le> length data"
  shows "if data ! 0 = 0xAA \<and> data ! 1 = 0xBB
    then \<exists>imei. parseHeader data = Inr (Some
           \<lparr>h_version = Protocol_Version (data ! 2) (data ! 3), h_type = message_type_of (data ! 4),
            h_imei = imei, h_sequence = le32 (data ! 13) (data ! 14) (data ! 15) (data ! 16)\<rparr>)
           \<and> bcd_digits data 5 0 15 = Inr imei
    else parseHeader data = Inr None"
proof -
  from assms obtain s where "bcd_digits data 5 0 15 = Inr s"
    using bcd_digits_total [of 5 0 15 data] by auto
  moreover from assms have "data \<noteq> []" "Suc 0 < length data" by auto
  ultimately show ?thesis using assms by (simp add: parseHeader_def)
qed

text \<open>
  C4. The packet parser is memory safe and refuses packets for three reasons only: an empty
  packet, one shorter than 25 bytes, and one without the magic bytes throw the named parse
  errors; every other packet, whatever its contents, yields a message, and no read leaves
  the packet.
\<close>

theorem parse_outcome:
  "case fst (parse now packet p) of
     Inl e \<Rightarrow>
       packet = [] \<and> e = Thrown (ParseError ''Empty packet data'') \<or>
       0 < length packet \<and> length packet < 25 \<and>
         e = Thrown (ParseError (''Packet too small: '' @ dec_string (length packet) @ '' bytes'')) \<or>
       25 \<le> length packet \<and> \<not> (packet ! 0 = 0xAA \<and> packet ! 1 = 0xBB) \<and>
         e = Thrown (ParseError ''Failed to parse packet header'')
   | Inr m \<Rightarrow> 25 \<le> length packet \<and> packet ! 0 = 0xAA \<and> packet ! 1 = 0xBB"
proof (cases "25 \<le> length packet")
  case True
  define P where "P = take (length packet - 19 - 1) (drop 19 packet)"
  have "\<exists>m'. parsePayload P ty m = Inr m'" for ty m by (rule parsePayload_total)
  then obtain f where f: "parsePayload P ty m = Inr (f ty m)" for ty m by metis
  show ?thesis
    using True parseHeader_outcome [OF True] f
    by (auto simp: parse_def parseImpl_def parse_body_def Let_def P_def split: if_splits)
next
  case False
  then show ?thesis by (auto simp: parse_def parseImpl_def parse_body_def Let_def)
qed

text \<open>
  The configuration of a parser and the calls made on it before have no influence on what
  a packet parses to: in particular \<open>validateChecksums\<close>, \<open>maxPayloadSize\<close>, \<open>strictMode\<close> and
  \<open>allowUnknownMessageTypes\<close> switch nothing on or off.
\<close>

lemma parse_ignores_config: "fst (parse now packet p) = fst (parse now packet q)"
  by (simp add: parse_def parseImpl_def Let_def split: sum.splits fault.splits)

text \<open>
  The last error after a call: reset by a packet that parses, the text of the exception with
  a second \<open>Parse error:\<close> prefix after a refused non-empty packet, and untouched by an empty one.
\<close>

lemma parse_last_error:
  "p_lastError (snd (parse now packet p)) =
     (if packet = [] then p_lastError p
      else case fst (parse now packet p) of
             Inl (Thrown e) \<Rightarrow> ParseError (what e)
           | _ \<Rightarrow> ParseError ''No error'')"
  by (simp add: parse_def parseImpl_def Let_def split: sum.splits fault.splits)

section \<open>Checksum\<close>

lemma verifyChecksum_iff: "verifyChecksum d \<longleftrightarrow> d \<noteq> [] \<and> xor_all d = 0"
proof (cases d rule: rev_cases)
  case (snoc ys y)
  then show ?thesis by (simp add: verifyChecksum_def xor_eq_0_iff)
qed (simp add: verifyChecksum_def)

lemma verifyChecksum_snoc: "verifyChecksum (xs @ [xor_all xs])"
  by (simp add: verifyChecksum_def)

lemma parse_body_checksum:
  assumes "parse_body now d = Inr m" "\<not> verifyChecksum d"
  shows "checksum_error \<in> set (m_errors m)"
  using assms by (auto simp: parse_body_def and_then_Inr_iff Let_def split: if_splits option.splits)

lemma checksum_error_invalid: "checksum_error \<in> set (m_errors m) \<Longrightarrow> \<not> isValid m"
  by (auto simp: isValid_def)

section \<open>The packet layout\<close>

text \<open>
  The specification side of the header: how a device lays out a packet the parser understands.
  Two digits of the IMEI share a byte, the first in the low nibble; two bytes between the
  sequence number and the payload are skipped, because the header fields take 17 of the 19
  header bytes.
\<close>

definition digit_of :: "char \<Rightarrow> nat" where
  "digit_of c = of_char c - 48"

definition bcd_bytes :: "string \<Rightarrow> u8 list" where
  "bcd_bytes imei =
     map (\<lambda>j. word_of_nat (digit_of (imei ! (2 * j))
            + 16 * (if 2 * j + 1 < length imei then digit_of (imei ! (2 * j + 1)) else 0))) [0..<8]"

definition encode_packet ::
    "string \<Rightarrow> u32 \<Rightarrow> u8 \<Rightarrow> protocol_version \<Rightarrow> u8 \<times> u8 \<Rightarrow> u8 list \<Rightarrow> u8 list" where
  "encode_packet imei seqno ty v skipped payload =
     (let body = [0xAA, 0xBB, major v, minor v, ty] @ bcd_bytes imei @ le32_bytes seqno
                 @ [fst skipped, snd skipped] @ payload
      in body @ [xor_all body])"

lemma unat_and_15: "unat ((w :: u8) AND 15) = unat w mod 16"
proof -
  have "w AND 15 = take_bit 4 w" by (simp add: take_bit_eq_mask mask_eq_exp_minus_1)
  then show ?thesis by (simp only: unsigned_take_bit_eq) (simp add: take_bit_eq_mod)
qed

lemma unat_drop_4: "unat (drop_bit 4 (w :: u8)) = unat w div 16"
  by (simp add: drop_bit_eq_div unat_div)

lemma bcd_nibble_pack:
  assumes "a < 10" "b < 10"
  shows "unat (bcd_nibble i (word_of_nat (a + 16 * b))) = (if even i then a else b)"
proof -
  have "unat (word_of_nat (a + 16 * b) :: u8) = a + 16 * b"
    using assms by (simp only: unat_of_nat) simp
  with assms show ?thesis
    by (simp add: bcd_nibble_def unat_and_15 unat_drop_4 even_iff_mod_2_eq_zero)
qed

lemma bcd_digits_match:
  assumes "\<And>k. k < length s \<Longrightarrow> off + (i + k) div 2 < length data \<and>
      unat (bcd_nibble (i + k) (data ! (off + (i + k) div 2))) = digit_of (s ! k)"
    "list_all is_digit s"
  shows "bcd_digits data off i (length s) = Inr s"
  using assms
proof (induction s arbitrary: i)
  case (Cons c s)
  have "bcd_digits data off (Suc i) (length s) = Inr s"
  proof (rule Cons.IH)
    fix k
    assume "k < length s"
    with Cons.prems(1) [of "Suc k"]
    show "off + (Suc i + k) div 2 < length data \<and>
        unat (bcd_nibble (Suc i + k) (data ! (off + (Suc i + k) div 2))) = digit_of (s ! k)"
      by simp
  qed (use Cons.prems in simp)
  moreover have "digit_of c \<le> 9" "digit_char (digit_of c) = c"
    using Cons.prems(2) by (auto simp: digit_of_def is_digit_def digit_char_def)
  ultimately show ?case using Cons.prems(1) [of 0] by simp
qed simp

lemma bcd_digits_bytes:
  assumes "isValidImei imei"
  shows "bcd_digits (pre @ bcd_bytes imei @ rest) (length pre) 0 15 = Inr imei"
proof -
  have len: "length imei = 15" and dig: "list_all is_digit imei"
    using assms by (simp_all add: isValidImei_digits)
  have d10: "digit_of (imei ! k) < 10" if "k < 15" for k
    using dig len that by (auto simp: digit_of_def is_digit_def list_all_length)
  have "bcd_digits (pre @ bcd_bytes imei @ rest) (length pre) 0 (length imei) = Inr imei"
  proof (rule bcd_digits_match)
    fix k
    assume "k < length imei"
    then have k: "k div 2 < 8" "k < 15" and b: "length (bcd_bytes imei) = 8"
      using len by (simp_all add: bcd_bytes_def)
    have e: "even k \<Longrightarrow> 2 * (k div 2) = k" and o: "odd k \<Longrightarrow> 2 * (k div 2) + 1 = k \<and> k < 15"
      using k by auto
    have "(pre @ bcd_bytes imei @ rest) ! (length pre + k div 2) = bcd_bytes imei ! (k div 2)"
      using k b by (simp add: nth_append)
    also have "\<dots> = word_of_nat (digit_of (imei ! (2 * (k div 2)))
        + 16 * (if 2 * (k div 2) + 1 < 15 then digit_of (imei ! (2 * (k div 2) + 1)) else 0))"
      using k by (simp add: bcd_bytes_def len)
    finally have at: "(pre @ bcd_bytes imei @ rest) ! (length pre + k div 2) = \<dots>" .
    have "unat (bcd_nibble k ((pre @ bcd_bytes imei @ rest) ! (length pre + k div 2)))
        = digit_of (imei ! k)"
      unfolding at using k d10 e o by (subst bcd_nibble_pack) (auto simp del: One_nat_def)
    with k b show "length pre + (0 + k) div 2 < length (pre @ bcd_bytes imei @ rest) \<and>
        unat (bcd_nibble (0 + k) ((pre @ bcd_bytes imei @ rest) ! (length pre + (0 + k) div 2)))
        = digit_of (imei ! k)" by simp
  qed (rule dig)
  then show ?thesis by (simp only: len)
qed

lemma fold_addValidationError:
  "fold addValidationError es m = m\<lparr>m_errors := m_errors m @ es\<rparr>"
  by (induction es arbitrary: m) (simp_all add: addValidationError_def)

lemma parse_body_encode:
  assumes "isValidImei imei" "5 \<le> length payload"
  shows "parse_body now (encode_packet imei seqno ty v skipped payload) =
    parsePayload payload (message_type_of ty)
      (fold addValidationError
        (validateHeader \<lparr>h_version = v, h_type = message_type_of ty, h_imei = imei, h_sequence = seqno\<rparr>)
        (new_message imei seqno (message_type_of ty) v [] now))"
proof -
  let ?h = "[0xAA, 0xBB, major v, minor v, ty]"
  let ?b = "?h @ bcd_bytes imei @ le32_bytes seqno @ [fst skipped, snd skipped] @ payload"
  define d where "d = encode_packet imei seqno ty v skipped payload"
  have d: "d = ?b @ [xor_all ?b]"
    by (simp add: d_def encode_packet_def Let_def)
  have b: "length (bcd_bytes imei) = 8" by (simp add: bcd_bytes_def)
  have len: "length d = 20 + length payload" unfolding d using b by simp
  have l: "length ?h = 5" by simp
  have imei: "bcd_digits d 5 0 15 = Inr imei"
    using bcd_digits_bytes [OF assms(1), of ?h
        "le32_bytes seqno @ [fst skipped, snd skipped] @ payload @ [xor_all ?b]"]
    unfolding d l by simp
  have seqno: "(read_le32 d 13 :: proto_exc fault + u32) = Inr seqno"
    using read_le32_at [of "?h @ bcd_bytes imei" seqno
        "[fst skipped, snd skipped] @ payload @ [xor_all ?b]"] b
    unfolding d by (simp del: read_le32_in)
  have "d ! 0 = 0xAA" "d ! 1 = 0xBB" "d ! 2 = major v" "d ! 3 = minor v" "d ! 4 = ty"
    unfolding d by simp_all
  then have hdr: "parseHeader d = Inr (Some \<lparr>h_version = v, h_type = message_type_of ty,
      h_imei = imei, h_sequence = seqno\<rparr>)"
    using len imei seqno unfolding parseHeader_def by (simp del: read_le32_in)
  have pay: "take (length payload) (drop 19 d) = payload" unfolding d using b by simp
  have sum: "verifyChecksum d" unfolding d by (rule verifyChecksum_snoc)
  obtain m' where "parsePayload payload (message_type_of ty)
      (fold addValidationError
        (validateHeader \<lparr>h_version = v, h_type = message_type_of ty, h_imei = imei, h_sequence = seqno\<rparr>)
        (new_message imei seqno (message_type_of ty) v [] now)) = Inr m'"
    using parsePayload_total by blast
  with len assms(2) show ?thesis
    unfolding d_def [symmetric] by (auto simp: parse_body_def hdr Let_def pay sum)
qed

lemma fst_parse: "fst (parse now d p) =
    (if d = [] then Inl (Thrown (ParseError ''Empty packet data'')) else parse_body now d)"
  by (simp add: parse_def parseImpl_def Let_def split: sum.splits fault.splits)

definition sample_packet :: "u8 list" where
  "sample_packet =
     encode_packet ''123456789012345'' 7 9 (Protocol_Version 1 0) (0, 0) [1, 2, 3, 4, 5]"

lemma parse_sample_packet:
  "\<exists>m. fst (parse 0 sample_packet p) = Inr m \<and> isValid m"
proof -
  have "sample_packet \<noteq> []" by (simp add: sample_packet_def encode_packet_def Let_def)
  then show ?thesis
    by (simp add: fst_parse sample_packet_def parse_body_encode isValidImei_def message_type_of_def
        validateHeader_def parsePayload_def isValid_def new_message_def is_digit_def)
qed

text \<open>
  C5. A packet laid out as the specification \<open>encode_packet\<close> says is understood: the parser
  recovers IMEI, sequence number, type and version, decodes exactly the payload, finds the
  checksum correct, and adds no errors of its own beyond those of the version and type checks
  and of the payload decoder.
\<close>

theorem parse_encode_packet:
  assumes "isValidImei imei" "5 \<le> length payload"
  shows "fst (parse now (encode_packet imei seqno ty v skipped payload) p) =
    parsePayload payload (message_type_of ty)
      (fold addValidationError
        (validateHeader \<lparr>h_version = v, h_type = message_type_of ty, h_imei = imei, h_sequence = seqno\<rparr>)
        (new_message imei seqno (message_type_of ty) v [] now))"
proof -
  have "encode_packet imei seqno ty v skipped payload \<noteq> []"
    by (simp add: encode_packet_def Let_def)
  then show ?thesis by (simp add: fst_parse parse_body_encode assms)
qed

theorem parse_encode_packet_witness:
  "isValidImei ''123456789012345'' \<and>
   (\<exists>m. fst (parse 3 (encode_packet ''123456789012345'' 9 9 (Protocol_Version 1 0) (0, 0) [1, 2, 3, 4, 5])
            (new_parser default_parser_config))
          = Inr m \<and> m_sequence m = 9 \<and> isValid m)"
proof -
  have i: "isValidImei ''123456789012345''" by (simp add: isValidImei_def)
  show ?thesis
    using parse_encode_packet [OF i, of "[1, 2, 3, 4, 5]" 3 9 9 "Protocol_Version 1 0" "(0, 0)"
      "new_parser default_parser_config"] i
    by (simp add: message_type_of_def validateHeader_def parsePayload_def isValid_def new_message_def
        is_digit_def)
qed

text \<open>
  C26. A packet that parses to a valid message cannot be corrupted in one byte unnoticed:
  whatever byte is replaced by whatever other value, the changed packet is refused or its
  message carries the checksum error, and so is not valid.
\<close>

theorem single_byte_corruption_detected:
  assumes "fst (parse now d p) = Inr m" "isValid m" "i < length d" "b \<noteq> d ! i"
  shows "case fst (parse now' (d[i := b]) q) of
           Inl e \<Rightarrow> True
         | Inr m' \<Rightarrow> checksum_error \<in> set (m_errors m') \<and> \<not> isValid m'"
proof -
  have "parse_body now d = Inr m"
    using assms(1) by (simp add: fst_parse split: if_splits)
  then have "verifyChecksum d"
    using assms(2) parse_body_checksum checksum_error_invalid by blast
  then have "xor_all (d[i := b]) \<noteq> 0"
    using assms(4) xor_all_update [OF assms(3), of b] by (simp add: verifyChecksum_iff)
  then have "\<not> verifyChecksum (d[i := b])" by (simp add: verifyChecksum_iff)
  then show ?thesis
    using parse_body_checksum checksum_error_invalid by (auto simp: fst_parse split: sum.splits)
qed

theorem single_byte_corruption_detected_witness:
  "\<exists>m. fst (parse 0 sample_packet (new_parser default_parser_config)) = Inr m \<and> isValid m \<and>
     (case fst (parse 1 (sample_packet[4 := 10]) (new_parser default_parser_config)) of
        Inl e \<Rightarrow> True | Inr m' \<Rightarrow> checksum_error \<in> set (m_errors m') \<and> \<not> isValid m')"
proof -
  obtain m where m: "fst (parse 0 sample_packet (new_parser default_parser_config)) = Inr m" "isValid m"
    using parse_sample_packet by blast
  have "4 < length sample_packet" "(10 :: u8) \<noteq> sample_packet ! 4"
    by (simp_all add: sample_packet_def encode_packet_def Let_def)
  from m single_byte_corruption_detected [OF m this, of 1 "new_parser default_parser_config"] show ?thesis by blast
qed

end
