(* ===== verification/Cpp_Strings.thy ===== *)
theory Cpp_Strings
  imports Ieee_Float Gw_Prelude
begin

text \<open>
  Numbers and strings as the C++ library converts them: \<open>std::to_string\<close>, \<open>std::stoi\<close>,
  \<open>std::stoll\<close> and \<open>std::stoul\<close> with their white space, sign, prefix and range rules,
  hexadecimal bytes as a stream prints them, and C strings, which end at their first null
  character.
\<close>

section \<open>Printing numbers\<close>

text \<open>\<open>std::to_string\<close> of a signed integer, and of a floating-point value (\<open>%f\<close>).\<close>

definition int_string :: "int \<Rightarrow> string" where
  "int_string n = (if n < 0 then ''-'' @ dec_string (nat (- n)) else dec_string (nat n))"

definition pad6 :: "nat \<Rightarrow> string" where
  "pad6 n = map (\<lambda>k. digit_char (n div 10 ^ k mod 10)) [5, 4, 3, 2, 1, 0]"

fun fp_string :: "fp \<Rightarrow> string" where
  "fp_string (Fin x) =
     (let n = nat (round_half_even (\<bar>x\<bar> * 1000000))
      in (if x < 0 then ''-'' else []) @ dec_string (n div 1000000) @ ''.'' @ pad6 (n mod 1000000))"
| "fp_string (Inf neg) = (if neg then ''-inf'' else ''inf'')"
| "fp_string NaN = ''nan''"

definition pad2 :: "int \<Rightarrow> string" where
  "pad2 n = (if n < 10 then ''0'' else []) @ dec_string (nat n)"

text \<open>
  \<open>gmtime\<close>: the date of a number of days since 1970, in the proleptic Gregorian calendar, with
  years that start in March inside. \<open>utc_time\<close> prints it with the time, for a time stamp that counts
  nanoseconds since 1970 and is not negative.
\<close>

definition civil_date :: "int \<Rightarrow> int \<times> int \<times> int" where
  "civil_date days =
     (let z = days + 719468; era = z div 146097; doe = z mod 146097;
          yoe = (doe - doe div 1460 + doe div 36524 - doe div 146096) div 365;
          doy = doe - (365 * yoe + yoe div 4 - yoe div 100);
          mp = (5 * doy + 2) div 153;
          month = (if mp < 10 then mp + 3 else mp - 9)
      in (yoe + era * 400 + (if month \<le> 2 then 1 else 0), month, doy - (153 * mp + 2) div 5 + 1))"

definition utc_time :: "string \<Rightarrow> string \<Rightarrow> ticks \<Rightarrow> string" where
  "utc_time separator end_mark tp =
     (let secs = tp div 1000000000; t = secs mod 86400
      in case civil_date (secs div 86400) of (y, mo, d) \<Rightarrow>
        int_string y @ ''-'' @ pad2 mo @ ''-'' @ pad2 d @ separator @
        pad2 (t div 3600) @ '':'' @ pad2 (t mod 3600 div 60) @ '':'' @ pad2 (t mod 60) @ end_mark)"

section \<open>Reading numbers\<close>

text \<open>
  \<open>strtol\<close> and its relatives skip white space, take an optional sign, in base 16 an optional
  \<open>0x\<close> that a digit follows, and then the longest run of digits. Without a digit there is no
  conversion and the \<open>sto\<close> functions throw \<open>std::invalid_argument\<close>; a value that the result
  type cannot hold makes them throw \<open>std::out_of_range\<close>.
\<close>

datatype sto_error = Invalid_Argument | Out_Of_Range

definition is_space :: "char \<Rightarrow> bool" where
  "is_space c \<longleftrightarrow> c = CHR '' '' \<or> (9 \<le> (of_char c :: nat) \<and> (of_char c :: nat) \<le> 13)"

definition digit_val :: "char \<Rightarrow> nat" where
  "digit_val c = (let n = of_char c in
     if 48 \<le> n \<and> n \<le> 57 then n - 48
     else if 97 \<le> n \<and> n \<le> 122 then n - 87
     else if 65 \<le> n \<and> n \<le> 90 then n - 55 else 36)"

definition take_sign :: "string \<Rightarrow> bool \<times> string" where
  "take_sign s = (case s of
     [] \<Rightarrow> (False, [])
   | c # r \<Rightarrow> if c = CHR ''-'' then (True, r) else if c = CHR ''+'' then (False, r) else (False, s))"

definition skip_prefix :: "nat \<Rightarrow> string \<Rightarrow> string" where
  "skip_prefix base s = (case s of
     z # x # d # r \<Rightarrow>
       if base = 16 \<and> z = CHR ''0'' \<and> (x = CHR ''x'' \<or> x = CHR ''X'') \<and> digit_val d < 16
       then d # r else s
   | _ \<Rightarrow> s)"

definition digits_val :: "nat \<Rightarrow> string \<Rightarrow> nat" where
  "digits_val base ds = foldl (\<lambda>a c. base * a + digit_val c) 0 ds"

definition strto :: "nat \<Rightarrow> string \<Rightarrow> int option" where
  "strto base s =
     (case take_sign (dropWhile is_space s) of (neg, t) \<Rightarrow>
       let ds = takeWhile (\<lambda>c. digit_val c < base) (skip_prefix base t)
       in if ds = [] then None
          else Some (if neg then - int (digits_val base ds) else int (digits_val base ds)))"

definition sto_signed :: "nat \<Rightarrow> string \<Rightarrow> sto_error + int" where
  "sto_signed bits s = (case strto 10 s of
     None \<Rightarrow> Inl Invalid_Argument
   | Some v \<Rightarrow> if - (2 ^ (bits - 1)) \<le> v \<and> v < 2 ^ (bits - 1) then Inr v else Inl Out_Of_Range)"

definition stoi :: "string \<Rightarrow> sto_error + int" where "stoi = sto_signed 32"
definition stoll :: "string \<Rightarrow> sto_error + int" where "stoll = sto_signed 64"

text \<open>\<open>std::stoul\<close> negates a value with a minus sign in the unsigned type.\<close>

definition stoul :: "nat \<Rightarrow> string \<Rightarrow> sto_error + u64" where
  "stoul base s = (case strto base s of
     None \<Rightarrow> Inl Invalid_Argument
   | Some v \<Rightarrow> if \<bar>v\<bar> < 2 ^ 64 then Inr (word_of_int v) else Inl Out_Of_Range)"

section \<open>Printing and reading back\<close>

lemma digit_val_digit_char [simp]: "n < 10 \<Longrightarrow> digit_val (digit_char n) = n"
  by (simp add: digit_val_def)

lemma digit_val_is_digit: "is_digit c \<Longrightarrow> digit_val c = of_char c - 48 \<and> digit_val c < 10"
  by (auto simp: is_digit_def digit_val_def)

lemma digits_val_snoc [simp]: "digits_val base (s @ [c]) = base * digits_val base s + digit_val c"
  by (simp add: digits_val_def)

lemma digits_val_Nil [simp]: "digits_val base [] = 0"
  by (simp add: digits_val_def)

lemma digits_val_dec [simp]: "digits_val 10 (dec_string n) = n"
proof (induction n rule: dec_string.induct)
  case (1 n)
  show ?case
  proof (cases "n < 10")
    case True
    then show ?thesis by (simp add: dec_string_small digits_val_def)
  next
    case False
    with 1 show ?thesis by (subst dec_string.simps) simp
  qed
qed

lemma dec_string_Cons: "\<exists>c r. dec_string n = c # r \<and> is_digit c"
  using dec_string_digits [of n] by (cases "dec_string n") auto

lemma takeWhile_dec [simp]: "takeWhile (\<lambda>c. digit_val c < 10) (dec_string n) = dec_string n"
proof -
  have "\<forall>c \<in> set (dec_string n). digit_val c < 10"
    using dec_string_digits [of n] digit_val_is_digit by (metis list_all_iff)
  then show ?thesis by (simp add: takeWhile_eq_all_conv)
qed

lemma digit_not_special:
  assumes "is_digit c"
  shows "\<not> is_space c" "c \<noteq> CHR ''-''" "c \<noteq> CHR ''+''"
  using assms by (auto simp: is_digit_def is_space_def)

lemma skip_prefix_10 [simp]: "skip_prefix 10 s = s"
  by (auto simp: skip_prefix_def split: list.split)

lemma is_space_minus [simp]: "\<not> is_space CHR ''-''"
  by (simp add: is_space_def)

lemma strto_int_string [simp]: "strto 10 (int_string n) = Some n"
proof (cases "n < 0")
  case True
  then show ?thesis by (simp add: strto_def int_string_def take_sign_def)
next
  case False
  obtain c r where s: "dec_string (nat n) = c # r" "is_digit c" using dec_string_Cons by blast
  have "take_sign (dropWhile is_space (dec_string (nat n))) = (False, dec_string (nat n))"
    using s digit_not_special [OF s(2)] by (simp add: take_sign_def)
  with False show ?thesis by (simp add: strto_def int_string_def)
qed

lemma stoi_int_string: "- (2 ^ 31) \<le> n \<Longrightarrow> n < 2 ^ 31 \<Longrightarrow> stoi (int_string n) = Inr n"
  by (simp add: stoi_def sto_signed_def)

lemma stoll_int_string: "- (2 ^ 63) \<le> n \<Longrightarrow> n < 2 ^ 63 \<Longrightarrow> stoll (int_string n) = Inr n"
  by (simp add: stoll_def sto_signed_def)

section \<open>Hexadecimal bytes\<close>

definition hex_digit :: "nat \<Rightarrow> char" where
  "hex_digit n = (if n < 10 then char_of (48 + n) else char_of (87 + n))"

text \<open>\<open>ss << std::hex << std::setw(2) << std::setfill('0') << byte\<close>\<close>

definition hex_byte :: "u8 \<Rightarrow> string" where
  "hex_byte b = [hex_digit (unat b div 16), hex_digit (unat b mod 16)]"

lemma hex_digit_val [simp]: "n < 16 \<Longrightarrow> digit_val (hex_digit n) = n"
  by (simp add: hex_digit_def digit_val_def)

lemma hex_digit_plain:
  assumes "n < 16"
  shows "\<not> is_space (hex_digit n)" "hex_digit n \<noteq> CHR ''-''" "hex_digit n \<noteq> CHR ''+''"
proof -
  have c: "(of_char (hex_digit n) :: nat) = (if n < 10 then 48 + n else 87 + n)"
    using assms by (simp add: hex_digit_def)
  show "hex_digit n \<noteq> CHR ''-''" "hex_digit n \<noteq> CHR ''+''" using c by (auto split: if_splits)
  show "\<not> is_space (hex_digit n)" using c by (auto simp: is_space_def split: if_splits)
qed

lemma length_hex_byte [simp]: "length (hex_byte b) = 2"
  by (simp add: hex_byte_def)

lemma stoul_hex_byte: "stoul 16 (hex_byte b) = Inr (word_of_nat (unat b))"
proof -
  define h l where "h = unat b div 16" and "l = unat b mod 16"
  have "unat b < 256" using unsigned_less [of b] by simp
  then have hl: "h < 16" "l < 16" and b: "16 * h + l = unat b" by (auto simp: h_def l_def)
  have "strto 16 (hex_byte b) = Some (int (16 * h + l))"
    using hl hex_digit_plain [OF hl(1)]
    by (simp add: strto_def hex_byte_def take_sign_def skip_prefix_def digits_val_def
        h_def [symmetric] l_def [symmetric])
  moreover have "int (unat b) < 2 ^ 64" using uint_bounded [of b] by (simp add: uint_nat [symmetric])
  ultimately show ?thesis unfolding b by (simp add: stoul_def)
qed

section \<open>C strings\<close>

text \<open>\<open>strlen\<close> and everything built on it stops at the first null character.\<close>

definition c_string :: "string \<Rightarrow> string" where
  "c_string s = takeWhile (\<lambda>c. c \<noteq> CHR 0x00) s"

lemma c_string_id [simp]: "CHR 0x00 \<notin> set s \<Longrightarrow> c_string s = s"
  by (auto simp: c_string_def takeWhile_eq_all_conv)

end
