(* ===== verification/Msg_Validator.thy ===== *)
theory Msg_Validator
  imports Packet_Parser Cpp_Strings
begin

text \<open>
  \<open>protocol_parser::Validator\<close> (\<open>validator.hpp\<close>, \<open>validator.cpp\<close>): header checks and the range
  checks on the fields of each message type, with the texts of the reported errors. A field
  access that throws is caught and reported; a cast that is undefined would show as \<open>Bad_Cast\<close>.
\<close>

section \<open>Configuration\<close>

record validator_config =
  strictValidation :: bool
  allowEmptyFields :: bool
  validateRanges :: bool
  checkProtocolVersion :: bool

definition default_validator_config :: validator_config where
  "default_validator_config =
     \<lparr>strictValidation = True, allowEmptyFields = False, validateRanges = True,
      checkProtocolVersion = True\<rparr>"

section \<open>Header\<close>

definition validateImei :: "string \<Rightarrow> bool" where
  "validateImei imei \<longleftrightarrow> (if length imei \<noteq> 15 then False else list_all is_digit imei)"

definition validateProtocolVersion :: "protocol_version \<Rightarrow> bool" where
  "validateProtocolVersion v \<longleftrightarrow>
     (if major v = 1 then minor v \<le> 1 else if major v = 2 then minor v = 0 else False)"

definition validateMessageType :: "message_type \<Rightarrow> bool" where
  "validateMessageType t \<longleftrightarrow>
     1 \<le> uint (message_type_byte t) \<and> uint (message_type_byte t) \<le> 10 \<and> t \<noteq> MT_UNKNOWN"

definition protocolVersionToString :: "protocol_version \<Rightarrow> string" where
  "protocolVersionToString v = dec_string (unat (major v)) @ ''.'' @ dec_string (unat (minor v))"

definition validateMessageHeader :: "validator_config \<Rightarrow> message \<Rightarrow> validation_error list" where
  "validateMessageHeader c m =
     (if \<not> validateImei (m_imei m)
      then [validation_error4 (''Invalid IMEI format: '' @ m_imei m) ''imei'' Sev_ERROR Cat_VALIDATION_ERROR]
      else [])
     @ (if \<not> validateMessageType (m_type m)
        then [validation_error4
                (''Invalid message type: '' @ dec_string (unat (message_type_byte (m_type m))))
                ''messageType'' Sev_ERROR Cat_PROTOCOL_ERROR]
        else [])
     @ (if checkProtocolVersion c \<and> \<not> validateProtocolVersion (m_version m)
        then [validation_error4 (''Unsupported protocol version: '' @ protocolVersionToString (m_version m))
                ''version'' Sev_WARNING Cat_PROTOCOL_ERROR]
        else [])"

section \<open>Fields\<close>

text \<open>One \<open>try\<close> block: read the field, test it, report what went wrong.\<close>

definition range_check ::
    "(fvalue \<Rightarrow> proto_exc fault + 'a) \<Rightarrow> ('a \<Rightarrow> bool) \<Rightarrow> ('a \<Rightarrow> string) \<Rightarrow> string \<Rightarrow> string \<Rightarrow>
     error_severity \<Rightarrow> message \<Rightarrow> proto_exc fault + validation_error list" where
  "range_check conv bad print label name sev m =
     (case getField conv name m of
        Inr x \<Rightarrow>
          Inr (if bad x
               then [validation_error4 (label @ '' out of valid range: '' @ print x) name sev
                       Cat_VALIDATION_ERROR]
               else [])
      | Inl (Thrown e) \<Rightarrow>
          Inr [validation_error4 (''Failed to access '' @ name @ '' field'') name sev Cat_TYPE_ERROR]
      | Inl f \<Rightarrow> Inl f)"

definition quoted :: "string \<Rightarrow> string" where
  "quoted s = [CHR 0x27] @ s @ [CHR 0x27]"

definition missing_field :: "string \<Rightarrow> validation_error" where
  "missing_field name =
     validation_error4 (''Required field '' @ quoted name @ '' missing'') name Sev_ERROR
       Cat_VALIDATION_ERROR"

text \<open>Error lists of consecutive checks.\<close>

definition append_results :: "'e + 'a list \<Rightarrow> 'e + 'a list \<Rightarrow> 'e + 'a list" where
  "append_results a b = and_then a (\<lambda>xs. and_then b (\<lambda>ys. Inr (xs @ ys)))"

definition latitude_check :: "message \<Rightarrow> proto_exc fault + validation_error list" where
  "latitude_check =
     range_check convert_double (\<lambda>x. fp_lt x (Fin (- 90)) \<or> fp_lt (Fin 90) x) fp_string
       ''Latitude'' ''latitude'' Sev_ERROR"

definition longitude_check :: "message \<Rightarrow> proto_exc fault + validation_error list" where
  "longitude_check =
     range_check convert_double (\<lambda>x. fp_lt x (Fin (- 180)) \<or> fp_lt (Fin 180) x) fp_string
       ''Longitude'' ''longitude'' Sev_ERROR"

definition speed_check :: "message \<Rightarrow> proto_exc fault + validation_error list" where
  "speed_check =
     range_check convert_float (\<lambda>x. fp_lt x (Fin 0) \<or> fp_lt (Fin 500) x) fp_string
       ''Speed'' ''speed'' Sev_WARNING"

definition battery_check :: "message \<Rightarrow> proto_exc fault + validation_error list" where
  "battery_check =
     range_check convert_u32 (\<lambda>w. 100 < w) (\<lambda>w. dec_string (unat w))
       ''Battery level'' ''battery_level'' Sev_WARNING"

definition signal_check :: "message \<Rightarrow> proto_exc fault + validation_error list" where
  "signal_check =
     range_check convert_i32 (\<lambda>w. sint w < - 120 \<or> 0 < sint w) (\<lambda>w. int_string (sint w))
       ''Signal strength'' ''signal_strength'' Sev_WARNING"

definition validateGPSFields ::
    "validator_config \<Rightarrow> message \<Rightarrow> proto_exc fault + validation_error list" where
  "validateGPSFields c m =
     append_results
       (if \<not> hasField ''latitude'' m then Inr [missing_field ''latitude'']
        else if validateRanges c then latitude_check m else Inr [])
     (append_results
       (if \<not> hasField ''longitude'' m then Inr [missing_field ''longitude'']
        else if validateRanges c then longitude_check m else Inr [])
       (if hasField ''speed'' m \<and> validateRanges c then speed_check m else Inr []))"

definition validateStatusFields ::
    "validator_config \<Rightarrow> message \<Rightarrow> proto_exc fault + validation_error list" where
  "validateStatusFields c m =
     append_results
       (if hasField ''battery_level'' m \<and> validateRanges c then battery_check m else Inr [])
       (if hasField ''signal_strength'' m \<and> validateRanges c then signal_check m else Inr [])"

definition validateEventFields :: "message \<Rightarrow> validation_error list" where
  "validateEventFields m =
     (if \<not> hasField ''event_type'' m then [missing_field ''event_type''] else [])"

definition validateCommandFields :: "message \<Rightarrow> validation_error list" where
  "validateCommandFields m =
     (if \<not> hasField ''original_sequence'' m then [missing_field ''original_sequence''] else [])
     @ (if \<not> hasField ''result_code'' m then [missing_field ''result_code''] else [])"

definition validateFields ::
    "validator_config \<Rightarrow> message \<Rightarrow> proto_exc fault + validation_error list" where
  "validateFields c m =
     (case m_type m of
        MT_GPS_UPDATE \<Rightarrow> validateGPSFields c m
      | MT_STATUS_UPDATE \<Rightarrow> validateStatusFields c m
      | MT_EVENT_NOTIFICATION \<Rightarrow> Inr (validateEventFields m)
      | MT_COMMAND_ACK \<Rightarrow> Inr (validateCommandFields m)
      | _ \<Rightarrow>
          Inr (if strictValidation c
               then [validation_error4 ''Unknown message type for field validation'' ''messageType''
                       Sev_WARNING Cat_VALIDATION_ERROR]
               else []))"

definition validateMessage ::
    "validator_config \<Rightarrow> message \<Rightarrow> proto_exc fault + validation_error list" where
  "validateMessage c m = append_results (Inr (validateMessageHeader c m)) (validateFields c m)"

section \<open>Lemmas\<close>

lemma append_results_Inr [simp]: "append_results (Inr xs) (Inr ys) = Inr (xs @ ys)"
  by (simp add: append_results_def)

lemma append_results_total:
  "\<exists>xs. a = Inr xs \<Longrightarrow> \<exists>ys. b = Inr ys \<Longrightarrow> \<exists>zs. append_results a b = Inr zs"
  by auto

lemma hasField_map: "hasField n m \<longleftrightarrow> (\<exists>v. map_of (m_fields m) n = Some v)"
  by (auto simp: hasField_def)

section \<open>Raw GPS fields and rounding\<close>

definition gps_latitude :: "u8 list \<Rightarrow> int" where
  "gps_latitude d = sint (le32 (d ! 0) (d ! 1) (d ! 2) (d ! 3))"

definition gps_longitude :: "u8 list \<Rightarrow> int" where
  "gps_longitude d = sint (le32 (d ! 4) (d ! 5) (d ! 6) (d ! 7))"

definition gps_speed :: "u8 list \<Rightarrow> int" where
  "gps_speed d = uint (ucast (le16 (d ! 10) (d ! 11)) :: u16)"

lemma parseGPSUpdate_fields:
  assumes "32 \<le> length d"
  shows "\<exists>m'. parseGPSUpdate d m = Inr m' \<and> m_type m' = m_type m \<and>
    map_of (m_fields m') ''latitude'' = Some (VDouble (double_bits (of_int (gps_latitude d) / 1000000))) \<and>
    map_of (m_fields m') ''longitude'' = Some (VDouble (double_bits (of_int (gps_longitude d) / 1000000))) \<and>
    map_of (m_fields m') ''speed'' = Some (VFloat (float_bits (of_int (gps_speed d) / 10)))"
proof -
  from assms have "d \<noteq> []" "Suc 0 < length d" by auto
  with assms show ?thesis
    by (simp add: parseGPSUpdate_def gps_latitude_def gps_longitude_def gps_speed_def Let_def flip: numeral_2_eq_2)
qed

lemma f64_micro:
  assumes "\<bar>n\<bar> \<le> 2 ^ 31"
  shows "f64 (of_int n / 1000000) = Fin (rnd64 (of_int n / 1000000))"
proof -
  have "(of_int (- 2148) :: rat) \<le> of_int n / 1000000" "of_int n / 1000000 \<le> (of_int 2148 :: rat)"
    using assms by (simp_all add: field_simps abs_le_iff)
  then have "\<bar>rnd64 (of_int n / 1000000)\<bar> \<le> 2148"
    using dbl.rnd_between [of "- 2148" "of_int n / 1000000" 2148] by (simp add: abs_le_iff minus_le_iff)
  also have "(2148 :: rat) < 2 powi 1024" by simp
  finally show ?thesis by (simp add: f64_eq)
qed

lemma f64_micro_above:
  assumes "\<bar>n\<bar> \<le> 2 ^ 31" "0 \<le> b" "b \<le> 1000"
  shows "fp_lt (Fin (of_int b)) (f64 (of_int n / 1000000)) \<longleftrightarrow> b * 1000000 < n"
proof -
  have "of_int b < rnd64 (of_int n / 1000000)" if "b * 1000000 < n"
  proof (rule dbl.rnd_gt_int [where k = 20])
    from that have "(of_int (b * 1000000 + 1) :: rat) \<le> of_int n" by (simp only: of_int_le_iff)
    then show "of_int b + 2 powi - int 20 \<le> (of_int n / 1000000 :: rat)"
      by (simp add: power_int_minus field_simps)
  qed (use assms in simp_all)
  moreover have "rnd64 (of_int n / 1000000) \<le> of_int b" if "\<not> b * 1000000 < n"
  proof (rule dbl.rnd_le_int)
    from that have "(of_int n :: rat) \<le> of_int (b * 1000000)" by (simp only: of_int_le_iff)
    then show "of_int n / 1000000 \<le> (of_int b :: rat)" by (simp add: field_simps)
  qed (use assms in simp_all)
  ultimately show ?thesis by (simp only: f64_micro [OF assms(1)] fp_lt.simps) (meson not_le)
qed

lemma f64_micro_below:
  assumes "\<bar>n\<bar> \<le> 2 ^ 31" "0 \<le> b" "b \<le> 1000"
  shows "fp_lt (f64 (of_int n / 1000000)) (Fin (- of_int b)) \<longleftrightarrow> n < - b * 1000000"
proof -
  have "\<bar>- n\<bar> \<le> 2 ^ 31" using assms(1) by simp
  note above = f64_micro_above [OF this assms(2,3)]
  have "f64 (of_int (- n) / 1000000) = Fin (- rnd64 (of_int n / 1000000))"
    using f64_micro [of "- n"] assms(1) by (simp add: dbl.rnd_neg)
  with above have "of_int b < - rnd64 (of_int n / 1000000) \<longleftrightarrow> b * 1000000 < - n"
    by (simp only: fp_lt.simps)
  then show ?thesis
    by (simp only: f64_micro [OF assms(1)] fp_lt.simps less_minus_iff [of "of_int b"]) linarith
qed

lemma f32_tenth_above:
  assumes "0 \<le> n" "n < 2 ^ 16"
  shows "fp_lt (Fin 500) (f32 (of_int n / 10)) \<longleftrightarrow> 5000 < n"
    "\<not> fp_lt (f32 (of_int n / 10)) (Fin 0)"
proof -
  have "(of_int 0 :: rat) \<le> of_int n / 10" "of_int n / 10 \<le> (of_int 6554 :: rat)"
    using assms by (simp_all add: field_simps)
  from sgl.rnd_between [OF this] have r: "0 \<le> rnd32 (of_int n / 10)" "rnd32 (of_int n / 10) \<le> 6554"
    by simp_all
  moreover have "(6554 :: rat) < 2 powi 128" by simp
  ultimately have f: "f32 (of_int n / 10) = Fin (rnd32 (of_int n / 10))" by (simp add: f32_eq)
  have "of_int 500 < rnd32 (of_int n / 10)" if "5000 < n"
  proof (rule sgl.rnd_gt_int [where k = 4])
    from that have "(of_int 5001 :: rat) \<le> of_int n" by (simp only: of_int_le_iff)
    then show "of_int 500 + 2 powi - int 4 \<le> (of_int n / 10 :: rat)"
      by (simp add: power_int_minus field_simps)
  qed simp_all
  moreover have "rnd32 (of_int n / 10) \<le> of_int 500" if "\<not> 5000 < n"
  proof (rule sgl.rnd_le_int)
    from that have "(of_int n :: rat) \<le> of_int 5000" by (simp only: of_int_le_iff)
    then show "of_int n / 10 \<le> (of_int 500 :: rat)" by (simp add: field_simps)
  qed simp_all
  ultimately show "fp_lt (Fin 500) (f32 (of_int n / 10)) \<longleftrightarrow> 5000 < n"
    by (simp only: f fp_lt.simps of_int_numeral) (meson not_le)
  show "\<not> fp_lt (f32 (of_int n / 10)) (Fin 0)" using r by (simp add: f)
qed

lemma sint_u32_bound: "\<bar>sint (w :: u32)\<bar> \<le> 2 ^ 31"
  using sint_ge [of w] sint_lt [of w] by (simp add: abs_le_iff)

lemma gps_bounds:
  "\<bar>gps_latitude d\<bar> \<le> 2 ^ 31" "\<bar>gps_longitude d\<bar> \<le> 2 ^ 31"
  "0 \<le> gps_speed d" "gps_speed d < 2 ^ 16"
  using uint_bounded [of "ucast (le16 (d ! 10) (d ! 11)) :: u16"] sint_u32_bound
  unfolding gps_latitude_def gps_longitude_def gps_speed_def by simp_all

text \<open>
  C28. The GPS range checks are exact although they compare rounded floating-point values: for
  every GPS payload the parser decodes, the validator reports the latitude exactly when the raw
  micro-degrees leave [-90, 90] degrees, the longitude exactly when they leave [-180, 180], and
  the speed exactly when the raw value exceeds 500.0 km/h; the parser's scaling to double and
  float loses no case.
\<close>

theorem gps_ranges_exact:
  "32 \<le> length d \<Longrightarrow> validateRanges c \<Longrightarrow>
   \<exists>m' es. parseGPSUpdate d m = Inr m' \<and> validateGPSFields c m' = Inr es \<and>
     map (\<lambda>e. (ve_field e, ve_severity e, ve_category e)) es =
       (if 90000000 < \<bar>gps_latitude d\<bar> then [(''latitude'', Sev_ERROR, Cat_VALIDATION_ERROR)] else [])
       @ (if 180000000 < \<bar>gps_longitude d\<bar> then [(''longitude'', Sev_ERROR, Cat_VALIDATION_ERROR)] else [])
       @ (if 5000 < gps_speed d then [(''speed'', Sev_WARNING, Cat_VALIDATION_ERROR)] else [])"
proof -
  assume "32 \<le> length d" and c: "validateRanges c"
  then obtain m' where m: "parseGPSUpdate d m = Inr m'"
    "map_of (m_fields m') ''latitude'' = Some (VDouble (double_bits (of_int (gps_latitude d) / 1000000)))"
    "map_of (m_fields m') ''longitude'' = Some (VDouble (double_bits (of_int (gps_longitude d) / 1000000)))"
    "map_of (m_fields m') ''speed'' = Some (VFloat (float_bits (of_int (gps_speed d) / 10)))"
    using parseGPSUpdate_fields by blast
  have lat: "fp_lt (Fin 90) (f64 (of_int (gps_latitude d) / 1000000)) \<longleftrightarrow> 90000000 < gps_latitude d"
      "fp_lt (f64 (of_int (gps_latitude d) / 1000000)) (Fin (- 90)) \<longleftrightarrow> gps_latitude d < - 90000000"
    using f64_micro_above [OF gps_bounds(1), of 90] f64_micro_below [OF gps_bounds(1), of 90] by simp_all
  have lon: "fp_lt (Fin 180) (f64 (of_int (gps_longitude d) / 1000000)) \<longleftrightarrow> 180000000 < gps_longitude d"
      "fp_lt (f64 (of_int (gps_longitude d) / 1000000)) (Fin (- 180)) \<longleftrightarrow> gps_longitude d < - 180000000"
    using f64_micro_above [OF gps_bounds(2), of 180] f64_micro_below [OF gps_bounds(2), of 180] by simp_all
  note sp = f32_tenth_above [OF gps_bounds(3,4)]
  show ?thesis
    by (simp add: m c validateGPSFields_def latitude_check_def longitude_check_def speed_check_def
        range_check_def getField_def hasField_def lat lon sp validation_error4_def abs_if)
qed

definition sample_gps :: "u8 list" where
  "sample_gps = le32_bytes 90000001 @ le32_bytes (- 180000001) @ [0, 0, 137, 19] @ replicate 20 0"

theorem gps_ranges_exact_witness:
  "32 \<le> length sample_gps \<and> validateRanges default_validator_config \<and>
   (\<exists>m' es. parseGPSUpdate sample_gps (default_message 0) = Inr m' \<and> validateGPSFields default_validator_config m' = Inr es \<and>
     map (\<lambda>e. (ve_field e, ve_severity e)) es =
       [(''latitude'', Sev_ERROR), (''longitude'', Sev_ERROR), (''speed'', Sev_WARNING)])"
proof -
  have len: "32 \<le> length sample_gps" and c: "validateRanges default_validator_config"
    by (simp_all add: sample_gps_def default_validator_config_def)
  have raw: "gps_latitude sample_gps = 90000001" "gps_longitude sample_gps = - 180000001"
      "gps_speed sample_gps = 5001"
    by (simp_all add: gps_latitude_def gps_longitude_def gps_speed_def sample_gps_def le32_bytes_def
        le32_def le16_def)
  obtain m' es where r: "parseGPSUpdate sample_gps (default_message 0) = Inr m'"
      "validateGPSFields default_validator_config m' = Inr es"
      "map (\<lambda>e. (ve_field e, ve_severity e, ve_category e)) es =
        [(''latitude'', Sev_ERROR, Cat_VALIDATION_ERROR), (''longitude'', Sev_ERROR, Cat_VALIDATION_ERROR),
         (''speed'', Sev_WARNING, Cat_VALIDATION_ERROR)]"
    using gps_ranges_exact [OF len c, of "default_message 0"] unfolding raw by auto
  have "map (\<lambda>e. (ve_field e, ve_severity e)) es =
      map (\<lambda>(a, b, c). (a, b)) (map (\<lambda>e. (ve_field e, ve_severity e, ve_category e)) es)"
    by simp
  with r len c show ?thesis by simp
qed

section \<open>Status fields\<close>

definition status_battery :: "u8 list \<Rightarrow> int" where
  "status_battery d = uint (d ! 0)"

definition status_signal :: "u8 list \<Rightarrow> int" where
  "status_signal d = sint (d ! 1)"

lemma parseStatusUpdate_fields:
  assumes "8 \<le> length d"
  shows "\<exists>m'. parseStatusUpdate d m = Inr m' \<and>
    map_of (m_fields m') ''battery_level'' = Some (VU32 (ucast (d ! 0))) \<and>
    map_of (m_fields m') ''signal_strength'' = Some (VI32 (scast (d ! 1)))"
proof -
  from assms have "d \<noteq> []" "Suc 0 < length d" by auto
  with assms show ?thesis
    by (simp add: parseStatusUpdate_def Let_def flip: numeral_2_eq_2)
qed

lemma u8_as_i32 [simp]: "sint (scast (b :: u8) :: u32) = sint b"
  by (rule sint_up_scast) (simp add: is_up)

lemma u8_as_u32: "uint (ucast (b :: u8) :: u32) = uint b"
  by (rule uint_up_ucast) (simp add: is_up)

lemma convert_u32_byte: "convert_u32 (VU32 (ucast (b :: u8))) = Inr (ucast b)"
  by (simp add: convert_u32_def convert_int_def)

lemma convert_i32_byte: "convert_i32 (VI32 w) = Inr w"
  by (simp add: convert_i32_def convert_int_def)

lemma ucast_less_u8: "(100 :: u32) < ucast (b :: u8) \<longleftrightarrow> 100 < uint b"
  unfolding word_less_def u8_as_u32 by simp

text \<open>
  The status range checks report a battery level above 100 and a signal strength outside
  -120..0, and nothing else, for every status payload the parser decodes.
\<close>

lemma status_ranges_exact:
  "8 \<le> length d \<Longrightarrow> validateRanges c \<Longrightarrow>
   \<exists>m' es. parseStatusUpdate d m = Inr m' \<and> validateStatusFields c m' = Inr es \<and>
     map (\<lambda>e. (ve_field e, ve_severity e, ve_category e)) es =
       (if 100 < status_battery d then [(''battery_level'', Sev_WARNING, Cat_VALIDATION_ERROR)] else [])
       @ (if status_signal d < - 120 \<or> 0 < status_signal d
          then [(''signal_strength'', Sev_WARNING, Cat_VALIDATION_ERROR)] else [])"
proof -
  assume "8 \<le> length d" and c: "validateRanges c"
  then obtain m' where m: "parseStatusUpdate d m = Inr m'"
    "map_of (m_fields m') ''battery_level'' = Some (VU32 (ucast (d ! 0)))"
    "map_of (m_fields m') ''signal_strength'' = Some (VI32 (scast (d ! 1)))"
    using parseStatusUpdate_fields by blast
  show ?thesis
    by (simp add: m c validateStatusFields_def battery_check_def signal_check_def range_check_def
        getField_def hasField_def convert_u32_byte convert_i32_byte validation_error4_def
        ucast_less_u8 status_battery_def status_signal_def)
qed

lemma status_ranges_exact_witness:
  "\<exists>m' es. parseStatusUpdate [101, 1, 0, 0, 0, 0, 0, 0] (default_message 0) = Inr m' \<and>
     validateStatusFields default_validator_config m' = Inr es \<and> length es = 2"
proof -
  have c: "validateRanges default_validator_config" by (simp add: default_validator_config_def)
  have raw: "status_battery [101, 1, 0, 0, 0, 0, 0, 0] = 101" "status_signal [101, 1, 0, 0, 0, 0, 0, 0] = 1"
    by (simp_all add: status_battery_def status_signal_def)
  obtain m' es where "parseStatusUpdate [101, 1, 0, 0, 0, 0, 0, 0] (default_message 0) = Inr m'"
      "validateStatusFields default_validator_config m' = Inr es"
      "length (map (\<lambda>e. (ve_field e, ve_severity e, ve_category e)) es) = 2"
    using status_ranges_exact [of "[101, 1, 0, 0, 0, 0, 0, 0]", OF _ c, of "default_message 0"] unfolding raw by auto
  then show ?thesis by auto
qed

definition no_float :: "string \<Rightarrow> message \<Rightarrow> bool" where
  "no_float name m \<longleftrightarrow>
     (case map_of (m_fields m) name of
        Some v \<Rightarrow> (case num_of v of Some (FpN x) \<Rightarrow> False | _ \<Rightarrow> True) | None \<Rightarrow> True)"

lemma convert_double_cast: "convert_double v \<noteq> Inl Bad_Cast" "convert_double v \<noteq> Inl (Out_Of_Bounds n)"
  by (simp_all add: numeric_error_def split: option.splits number.splits)

lemma convert_float_cast: "convert_float v \<noteq> Inl Bad_Cast" "convert_float v \<noteq> Inl (Out_Of_Bounds n)"
  by (cases v; simp add: numeric_error_def split: option.splits number.splits)+

lemma range_check_total:
  assumes "\<And>v. map_of (m_fields m) name = Some v \<Longrightarrow> conv v \<noteq> Inl Bad_Cast \<and> (\<forall>n. conv v \<noteq> Inl (Out_Of_Bounds n))"
  shows "\<exists>es. range_check conv bad print label name sev m = Inr es"
  using assms by (auto simp: range_check_def getField_def split: option.splits sum.splits fault.splits)

lemma validateFields_total:
  assumes "m_type m = MT_STATUS_UPDATE \<Longrightarrow> no_float ''battery_level'' m \<and> no_float ''signal_strength'' m"
  shows "\<exists>es. validateMessage c m = Inr es"
proof -
  have "\<exists>es. validateGPSFields c m = Inr es"
    unfolding validateGPSFields_def latitude_check_def longitude_check_def speed_check_def
    by (intro append_results_total; simp; intro impI range_check_total;
        simp add: convert_double_cast convert_float_cast del: convert_double.simps convert_float.simps)
  moreover have "\<exists>es. validateStatusFields c m = Inr es" if "m_type m = MT_STATUS_UPDATE"
    using assms [OF that]
    unfolding validateStatusFields_def battery_check_def signal_check_def no_float_def
    by (intro append_results_total; simp; intro impI range_check_total;
        simp add: convert_u32_def convert_i32_def convert_int_def numeric_error_def
          split: option.splits number.splits)
  ultimately have "\<exists>es. validateFields c m = Inr es"
    by (cases "m_type m") (simp_all add: validateFields_def)
  then show ?thesis by (auto simp: validateMessage_def)
qed


section \<open>Parser and validator together\<close>

lemma parseGPSUpdate_frame:
  "parseGPSUpdate d m = Inr m' \<Longrightarrow>
     m_type m' = m_type m \<and> m_imei m' = m_imei m \<and> m_version m' = m_version m \<and>
     (\<exists>es. m_errors m' = m_errors m @ es)"
  by (auto simp: parseGPSUpdate_def and_then_Inr_iff Let_def split: if_splits)

lemma parseStatusUpdate_frame:
  "parseStatusUpdate d m = Inr m' \<Longrightarrow>
     m_type m' = m_type m \<and> m_imei m' = m_imei m \<and> m_version m' = m_version m \<and>
     (\<exists>es. m_errors m' = m_errors m @ es)"
  by (auto simp: parseStatusUpdate_def and_then_Inr_iff Let_def split: if_splits)

lemma parseEventNotification_frame:
  "parseEventNotification d m = Inr m' \<Longrightarrow>
     m_type m' = m_type m \<and> m_imei m' = m_imei m \<and> m_version m' = m_version m \<and>
     (\<exists>es. m_errors m' = m_errors m @ es)"
  by (auto simp: parseEventNotification_def and_then_Inr_iff Let_def split: if_splits)

lemma parseCommandAck_frame:
  "parseCommandAck d m = Inr m' \<Longrightarrow>
     m_type m' = m_type m \<and> m_imei m' = m_imei m \<and> m_version m' = m_version m \<and>
     (\<exists>es. m_errors m' = m_errors m @ es)"
  by (auto simp: parseCommandAck_def and_then_Inr_iff Let_def split: if_splits)

lemma parsePayload_frame:
  assumes "parsePayload d t m = Inr m'"
  shows "m_type m' = m_type m \<and> m_imei m' = m_imei m \<and> m_version m' = m_version m \<and>
     (\<exists>es. m_errors m' = m_errors m @ es)"
proof -
  note frames = parseGPSUpdate_frame parseStatusUpdate_frame parseEventNotification_frame
    parseCommandAck_frame
  from assms show ?thesis
    by (cases t) (auto simp: parsePayload_def dest!: frames)
qed

lemma parseStatusUpdate_no_float:
  assumes "parseStatusUpdate d m = Inr m'" "m_fields m = []"
  shows "no_float ''battery_level'' m' \<and> no_float ''signal_strength'' m'"
  using assms
  by (auto simp: parseStatusUpdate_def and_then_Inr_iff Let_def no_float_def split: if_splits)

lemma parseHeader_type:
  "parseHeader d = Inr (Some h) \<Longrightarrow> h_type h = message_type_of (message_type_byte (h_type h))"
  by (auto simp: parseHeader_def and_then_Inr_iff split: if_splits)

lemma u8_up_to_2: "\<not> 2 < (v :: u8) \<Longrightarrow> v = 0 \<or> v = 1 \<or> v = 2"
  by (simp add: word_less_nat_alt word_unat_eq_iff not_less) linarith

lemma parse_body_Inr:
  assumes "parse_body now d = Inr m"
  obtains h where "parseHeader d = Inr (Some h)" "m_type m = h_type h" "m_imei m = h_imei h"
    "m_version m = h_version h" "set (validateHeader h) \<subseteq> set (m_errors m)"
    "isValid m \<Longrightarrow> isValidImei (h_imei h)"
    "m_type m = MT_STATUS_UPDATE \<Longrightarrow> no_float ''battery_level'' m \<and> no_float ''signal_strength'' m"
proof -
  from assms obtain h where h: "parseHeader d = Inr (Some h)"
    by (auto simp: parse_body_def and_then_Inr_iff split: if_splits option.splits)
  let ?n = "new_message (h_imei h) (h_sequence h) (h_type h) (h_version h) [] now"
  let ?m0 = "fold addValidationError (validateHeader h) ?n"
  let ?size = "length d - 19 - 1"
  from assms h obtain m1 where m1: "(if 0 < ?size
       then parsePayload (take ?size (drop 19 d)) (h_type h) ?m0 else Inr ?m0) = Inr m1"
    and m: "m = (if verifyChecksum d then m1 else addValidationError checksum_error m1)"
    by (auto simp: parse_body_def and_then_Inr_iff Let_def split: if_splits)
  have f: "m_type ?m0 = h_type h" "m_imei ?m0 = h_imei h" "m_version ?m0 = h_version h"
      "m_fields ?m0 = []" "m_errors ?m0 = m_errors ?n @ validateHeader h"
    by (simp_all add: fold_addValidationError)
  have m1': "m_type m1 = h_type h \<and> m_imei m1 = h_imei h \<and> m_version m1 = h_version h \<and>
      (\<exists>es. m_errors m1 = m_errors ?n @ validateHeader h @ es)"
  proof (cases "0 < ?size")
    case True
    with m1 have "parsePayload (take ?size (drop 19 d)) (h_type h) ?m0 = Inr m1" by simp
    from parsePayload_frame [OF this] show ?thesis unfolding f by auto
  qed (use m1 f in auto)
  have nf: "no_float ''battery_level'' m1 \<and> no_float ''signal_strength'' m1"
    if "h_type h = MT_STATUS_UPDATE"
  proof (cases "0 < ?size")
    case True
    with m1 that have "parseStatusUpdate (take ?size (drop 19 d)) ?m0 = Inr m1"
      by (simp add: parsePayload_def)
    from parseStatusUpdate_no_float [OF this f(4)] show ?thesis .
  qed (use m1 f in \<open>auto simp: no_float_def\<close>)
  show thesis
  proof (rule that [OF h])
    show "set (validateHeader h) \<subseteq> set (m_errors m)" using m1' by (auto simp: m)
    show "isValidImei (h_imei h)" if "isValid m"
      using m1' that by (auto simp: m isValid_def new_message_errors split: if_splits)
    show "no_float ''battery_level'' m \<and> no_float ''signal_strength'' m" if "m_type m = MT_STATUS_UPDATE"
      using nf m1' that by (auto simp: m no_float_def split: if_splits)
  qed (use m1' in \<open>auto simp: m\<close>)
qed

text \<open>
  C29. The validator never fails on a message the parser returned: for every packet, every
  parser and every validator configuration it returns a list of errors, and no field access
  performs an undefined cast.
\<close>

theorem validate_parsed:
  "case fst (parse now packet p) of
     Inl e \<Rightarrow> True
   | Inr m \<Rightarrow> (\<exists>es. validateMessage c m = Inr es)"
proof (cases "fst (parse now packet p)")
  case (Inr m)
  then have "parse_body now packet = Inr m" by (simp add: fst_parse split: if_splits)
  then have "\<exists>es. validateMessage c m = Inr es"
    by (rule parse_body_Inr) (rule validateFields_total)
  with Inr show ?thesis by simp
qed simp

text \<open>
  C30. Where parser and validator agree: with the version check on, the header of a message the
  parser calls valid is refused by the validator for its version only, and exactly when the major
  version is 0, or it is 1 and the minor version is above 1, versions which the parser accepts. Versions
  1.0, 1.1 and 2.0 are accepted by both.
\<close>

theorem valid_message_header:
  assumes "fst (parse now packet p) = Inr m" "isValid m" "checkProtocolVersion c"
  shows "validateMessageHeader c m =
    (if major (m_version m) = 0 \<or> major (m_version m) = 1 \<and> 1 < minor (m_version m)
     then [validation_error4
             (''Unsupported protocol version: '' @ protocolVersionToString (m_version m))
             ''version'' Sev_WARNING Cat_PROTOCOL_ERROR]
     else [])"
proof -
  from assms have "parse_body now packet = Inr m" by (simp add: fst_parse split: if_splits)
  then obtain h where h: "m_type m = h_type h" "m_imei m = h_imei h" "m_version m = h_version h"
    "validateHeader h = []" "isValidImei (h_imei h)"
    "parseHeader packet = Inr (Some h)"
    using assms(2) by (elim parse_body_Inr) (auto simp: isValid_def)
  have imei: "validateImei (m_imei m)"
    using h by (simp add: validateImei_def isValidImei_digits)
  have ty: "h_type h \<noteq> MT_UNKNOWN" "uint (message_type_byte (h_type h)) \<le> 10"
    using h(4) by (auto simp: validateHeader_def split: if_splits)
  have "h_type h = message_type_of (message_type_byte (h_type h))"
    using parseHeader_type [OF h(6)] .
  then have "message_type_byte (h_type h) \<noteq> 0" using ty(1) by (metis message_type_of_def)
  then have "1 \<le> uint (message_type_byte (h_type h))"
    using uint_ge_0 [of "message_type_byte (h_type h)"] uint_0_iff [of "message_type_byte (h_type h)"]
    by linarith
  with ty have type: "validateMessageType (m_type m)"
    by (simp add: validateMessageType_def h)
  have v: "\<not> 2 < major (m_version m)" "\<not> (major (m_version m) = 2 \<and> 0 < minor (m_version m))"
    using h(4) by (auto simp: validateHeader_def h split: if_splits)
  then have "major (m_version m) = 0 \<or> major (m_version m) = 1 \<or> major (m_version m) = 2"
    by (intro u8_up_to_2) simp
  then show ?thesis using v imei type assms(3)
    by (auto simp: validateMessageHeader_def validateProtocolVersion_def not_less word_gt_0)
qed


definition old_version_packet :: "u8 list" where
  "old_version_packet =
     encode_packet ''123456789012345'' 9 9 (Protocol_Version 0 1) (0, 0) [1, 2, 3, 4, 5]"

theorem valid_message_header_witness:
  "\<exists>m. fst (parse 3 old_version_packet (new_parser default_parser_config)) = Inr m \<and> isValid m \<and>
     map ve_field (validateMessageHeader default_validator_config m) = [''version'']"
proof -
  have "old_version_packet \<noteq> []" by (simp add: old_version_packet_def encode_packet_def Let_def)
  then obtain m where m: "fst (parse 3 old_version_packet (new_parser default_parser_config)) = Inr m" "isValid m"
      "m_version m = Protocol_Version 0 1"
    by (simp add: fst_parse old_version_packet_def parse_body_encode isValidImei_def
        message_type_of_def validateHeader_def parsePayload_def isValid_def new_message_def is_digit_def)
  from m valid_message_header [OF m(1,2), of default_validator_config] show ?thesis
    by (simp add: default_validator_config_def validation_error4_def)
qed


end
