(* ===== verification/Command_Builder.thy ===== *)
theory Command_Builder
  imports Proto_Message Cpp_Strings
begin

text \<open>
  \<open>protocol_parser::CommandBuilder\<close> and \<open>Command\<close> (\<open>builder.hpp\<close>, \<open>builder.cpp\<close>): commands for
  devices, assembled by chained calls, built into a message and serialised. What a device that
  decodes the bytes sees is read off with \<open>fromBinary\<close> and \<open>Command::getType\<close>.
\<close>

section \<open>State\<close>

datatype parameter_value =
    PBool bool | PI32 u32 | PU32 u32 | PFloat u32 | PDouble u64 | PString string

record command_builder =
  b_type :: command_type
  b_imei :: string
  b_sequence :: u32
  b_parameters :: "(string \<times> parameter_value) list"

definition create :: "command_type \<Rightarrow> command_builder" where
  "create t = \<lparr>b_type = t, b_imei = [], b_sequence = 0, b_parameters = []\<rparr>"

section \<open>Operations\<close>

definition setImei :: "string \<Rightarrow> command_builder \<Rightarrow> proto_exc fault + command_builder" where
  "setImei imei b =
     (if length imei \<noteq> 15 then Inl (Thrown (ValidationError ''IMEI must be exactly 15 digits''))
      else Inr (b\<lparr>b_imei := imei\<rparr>))"

definition setSequence :: "u32 \<Rightarrow> command_builder \<Rightarrow> command_builder" where
  "setSequence n b = b\<lparr>b_sequence := n\<rparr>"

definition addParameter :: "string \<Rightarrow> parameter_value \<Rightarrow> command_builder \<Rightarrow> command_builder" where
  "addParameter name v b = b\<lparr>b_parameters := al_set name v (b_parameters b)\<rparr>"

fun field_value :: "parameter_value \<Rightarrow> fvalue" where
  "field_value (PBool b) = VBool b"
| "field_value (PI32 w) = VI32 w"
| "field_value (PU32 w) = VU32 w"
| "field_value (PFloat w) = VFloat w"
| "field_value (PDouble w) = VDouble w"
| "field_value (PString s) = VString s"

definition command_message_type :: "command_type \<Rightarrow> message_type" where
  "command_message_type t =
     (case t of
        CT_REBOOT \<Rightarrow> MT_COMMAND_REBOOT
      | CT_SUBSCRIBE \<Rightarrow> MT_COMMAND_SUBSCRIBE
      | CT_UNSUBSCRIBE \<Rightarrow> MT_COMMAND_UNSUBSCRIBE
      | CT_UPDATE_CONFIG \<Rightarrow> MT_COMMAND_UPDATE_CONFIG
      | _ \<Rightarrow> MT_COMMAND_REBOOT)"

definition build :: "ticks \<Rightarrow> command_builder \<Rightarrow> proto_exc fault + message" where
  "build now b =
     (if b_imei b = []
      then Inl (Thrown (ValidationError ''IMEI must be set before building command''))
      else
        let m = new_message (b_imei b) (b_sequence b) (command_message_type (b_type b))
                  (Protocol_Version 1 0) [] now;
            m = setField ''command_type'' (VU32 (ucast (command_type_byte (b_type b)))) m
        in Inr (fold (\<lambda>(name, v). setField name (field_value v)) (b_parameters b) m))"

definition builder_toBinary :: "ticks \<Rightarrow> command_builder \<Rightarrow> proto_exc fault + u8 list" where
  "builder_toBinary now b = and_then (build now b) (\<lambda>m. Inr (toBinary m))"

text \<open>
  \<open>Command::getType\<close>: the field when there is one and it converts, else the message type. The
  cast to the 8-bit enumeration keeps the low byte.
\<close>

definition getType_of_message :: "message \<Rightarrow> command_type" where
  "getType_of_message m =
     (case m_type m of
        MT_COMMAND_REBOOT \<Rightarrow> CT_REBOOT
      | MT_COMMAND_SUBSCRIBE \<Rightarrow> CT_SUBSCRIBE
      | MT_COMMAND_UNSUBSCRIBE \<Rightarrow> CT_UNSUBSCRIBE
      | MT_COMMAND_UPDATE_CONFIG \<Rightarrow> CT_UPDATE_CONFIG
      | _ \<Rightarrow> CT_REBOOT)"

definition getType :: "message \<Rightarrow> proto_exc fault + command_type" where
  "getType m =
     (if hasField ''command_type'' m
      then (case getField convert_u32 ''command_type'' m of
              Inr w \<Rightarrow> Inr (command_type_of (ucast w))
            | Inl (Thrown e) \<Rightarrow> Inr (getType_of_message m)
            | Inl f \<Rightarrow> Inl f)
      else Inr (getType_of_message m))"

text \<open>\<open>Command\<close> wraps its message.\<close>

definition command_toBinary :: "message \<Rightarrow> u8 list" where
  "command_toBinary m = toBinary m"

definition command_getImei :: "message \<Rightarrow> string" where
  "command_getImei m = m_imei m"

definition command_getSequence :: "message \<Rightarrow> u32" where
  "command_getSequence m = m_sequence m"

fun parameterValueToString :: "parameter_value \<Rightarrow> string" where
  "parameterValueToString (PString s) = s"
| "parameterValueToString (PBool b) = (if b then ''true'' else ''false'')"
| "parameterValueToString (PI32 w) = int_string (sint w)"
| "parameterValueToString (PU32 w) = dec_string (unat w)"
| "parameterValueToString (PFloat w) = fp_string (float_val w)"
| "parameterValueToString (PDouble w) = fp_string (double_val w)"

section \<open>Scripts of calls\<close>

text \<open>
  A chain of calls on a new builder. A call that throws leaves the builder as it was, as a
  caller that catches the exception finds it.
\<close>

datatype builder_call =
  Set_Imei string | Set_Sequence u32 | Add_Parameter string parameter_value

fun apply_call :: "builder_call \<Rightarrow> command_builder \<Rightarrow> command_builder" where
  "apply_call (Set_Imei imei) b = (case setImei imei b of Inr b' \<Rightarrow> b' | Inl e \<Rightarrow> b)"
| "apply_call (Set_Sequence n) b = setSequence n b"
| "apply_call (Add_Parameter name v) b = addParameter name v b"

definition run_calls :: "command_type \<Rightarrow> builder_call list \<Rightarrow> command_builder" where
  "run_calls t calls = fold apply_call calls (create t)"

section \<open>Lemmas\<close>

lemma apply_call_keeps:
  "b_type (apply_call c b) = b_type b"
  "distinct (map fst (b_parameters b)) \<Longrightarrow> distinct (map fst (b_parameters (apply_call c b)))"
  "b_imei b = [] \<or> length (b_imei b) = 15 \<Longrightarrow>
     b_imei (apply_call c b) = [] \<or> length (b_imei (apply_call c b)) = 15"
  by (cases c; simp add: setImei_def setSequence_def addParameter_def)+

lemma run_calls_inv:
  "b_type (run_calls t calls) = t \<and> distinct (map fst (b_parameters (run_calls t calls))) \<and>
   (b_imei (run_calls t calls) = [] \<or> length (b_imei (run_calls t calls)) = 15)"
proof -
  have "b_type (fold apply_call calls b) = b_type b \<and>
      distinct (map fst (b_parameters (fold apply_call calls b))) \<and>
      (b_imei (fold apply_call calls b) = [] \<or> length (b_imei (fold apply_call calls b)) = 15)"
    if "distinct (map fst (b_parameters b))" "b_imei b = [] \<or> length (b_imei b) = 15" for b
    using that
  proof (induction calls arbitrary: b)
    case (Cons c calls)
    from Cons.IH [OF apply_call_keeps(2) [OF Cons.prems(1)] apply_call_keeps(3) [OF Cons.prems(2)]] show ?case
      by (simp add: apply_call_keeps(1))
  qed simp
  from this [of "create t"] show ?thesis by (simp add: run_calls_def create_def)
qed

lemma fold_setField_frame:
  "m_imei (fold (\<lambda>(n, v). setField n (f v)) ps m) = m_imei m"
  "m_sequence (fold (\<lambda>(n, v). setField n (f v)) ps m) = m_sequence m"
  "m_type (fold (\<lambda>(n, v). setField n (f v)) ps m) = m_type m"
  "m_version (fold (\<lambda>(n, v). setField n (f v)) ps m) = m_version m"
  "m_errors (fold (\<lambda>(n, v). setField n (f v)) ps m) = m_errors m"
  by (induction ps arbitrary: m) auto

lemma fold_setField_fields:
  "distinct (map fst ps) \<Longrightarrow>
     map_of (m_fields (fold (\<lambda>(n, v). setField n (f v)) ps m)) k =
       (case map_of ps k of Some v \<Rightarrow> Some (f v) | None \<Rightarrow> map_of (m_fields m) k)"
proof (induction ps arbitrary: m)
  case (Cons p ps)
  obtain n v where p: "p = (n, v)" by (cases p)
  from Cons.prems have "map_of ps n = None" by (simp add: p map_of_eq_None_iff)
  with Cons show ?case by (auto simp: p split: option.splits)
qed simp

lemma command_type_roundtrip_u32 [simp]:
  "(ucast (ucast (b :: u8) :: u32) :: u8) = b"
  by (rule bit_word_eqI) (simp add: bit_simps)

lemma build_frame:
  assumes "build now (run_calls t calls) = Inr m"
  shows "length (b_imei (run_calls t calls)) = 15" "m_imei m = b_imei (run_calls t calls)"
    "m_sequence m = b_sequence (run_calls t calls)" "m_type m = command_message_type t"
    "m_version m = Protocol_Version 1 0"
    "isValid m \<longleftrightarrow> list_all is_digit (b_imei (run_calls t calls))"
  using assms run_calls_inv [of t calls]
  by (auto simp: build_def Let_def fold_setField_frame isValid_def new_message_errors
      isValidImei_digits split: if_splits)

lemma build_fields:
  assumes "build now (run_calls t calls) = Inr m"
  shows "map_of (m_fields m) k =
    (case map_of (b_parameters (run_calls t calls)) k of
       Some v \<Rightarrow> Some (field_value v)
     | None \<Rightarrow> if k = ''command_type'' then Some (VU32 (ucast (command_type_byte t))) else None)"
  using assms run_calls_inv [of t calls]
  by (auto simp: build_def Let_def fold_setField_fields split: if_splits option.splits)

section \<open>Properties\<close>

text \<open>
  What a chain of calls asks for, read off the calls alone: of each kind of call the last one counts,
  and an IMEI only when it has 15 characters.
\<close>

fun last_of :: "('a \<Rightarrow> 'b option) \<Rightarrow> 'a list \<Rightarrow> 'b option" where
  "last_of f [] = None"
| "last_of f (c # cs) = (case last_of f cs of Some x \<Rightarrow> Some x | None \<Rightarrow> f c)"

fun asked_imei :: "builder_call \<Rightarrow> string option" where
  "asked_imei (Set_Imei imei) = (if length imei = 15 then Some imei else None)"
| "asked_imei _ = None"

fun asked_sequence :: "builder_call \<Rightarrow> u32 option" where
  "asked_sequence (Set_Sequence n) = Some n"
| "asked_sequence _ = None"

fun asked_parameter :: "string \<Rightarrow> builder_call \<Rightarrow> parameter_value option" where
  "asked_parameter k (Add_Parameter name v) = (if name = k then Some v else None)"
| "asked_parameter k _ = None"

lemma call_asked:
  "b_imei (apply_call c b) = (case asked_imei c of Some imei \<Rightarrow> imei | None \<Rightarrow> b_imei b)"
  "b_sequence (apply_call c b) = (case asked_sequence c of Some n \<Rightarrow> n | None \<Rightarrow> b_sequence b)"
  "map_of (b_parameters (apply_call c b)) k =
    (case asked_parameter k c of Some v \<Rightarrow> Some v | None \<Rightarrow> map_of (b_parameters b) k)"
  by (cases c; simp add: setImei_def setSequence_def addParameter_def)+

lemma calls_asked:
  "b_imei (fold apply_call calls b) =
    (case last_of asked_imei calls of Some imei \<Rightarrow> imei | None \<Rightarrow> b_imei b)"
  "b_sequence (fold apply_call calls b) =
    (case last_of asked_sequence calls of Some n \<Rightarrow> n | None \<Rightarrow> b_sequence b)"
  "map_of (b_parameters (fold apply_call calls b)) k =
    (case last_of (asked_parameter k) calls of Some v \<Rightarrow> Some v | None \<Rightarrow> map_of (b_parameters b) k)"
  by (induction calls arbitrary: b) (simp_all add: call_asked split: option.split)

lemma run_calls_asked:
  "b_imei (run_calls t calls) = (case last_of asked_imei calls of Some imei \<Rightarrow> imei | None \<Rightarrow> [])"
  "b_sequence (run_calls t calls) = (case last_of asked_sequence calls of Some n \<Rightarrow> n | None \<Rightarrow> 0)"
  "map_of (b_parameters (run_calls t calls)) k = last_of (asked_parameter k) calls"
  by (simp_all add: run_calls_def calls_asked create_def split: option.split)

lemma asked_imei_length: "last_of asked_imei calls = Some imei \<Longrightarrow> length imei = 15"
proof (induction calls)
  case (Cons c calls)
  then show ?case by (cases c) (auto split: option.splits if_splits)
qed simp

text \<open>
  C31. What a chain of builder calls builds, in terms of the calls: it fails exactly when no call set
  an IMEI of 15 characters; otherwise the message has the last such IMEI, the last sequence number, 0
  without one, version 1.0 and the message type of the command; it is valid exactly when the IMEI is made of
  digits; and the field of every name is the last parameter added under that name, also for
  \<open>command_type\<close>, which is the number of the command when no parameter overrides it, and there are
  no other fields.
\<close>

theorem build_outcome:
  "case last_of asked_imei calls of
     None \<Rightarrow> build now (run_calls t calls) =
       Inl (Thrown (ValidationError ''IMEI must be set before building command''))
   | Some imei \<Rightarrow> \<exists>m. build now (run_calls t calls) = Inr m \<and> m_imei m = imei \<and>
       m_sequence m = (case last_of asked_sequence calls of Some n \<Rightarrow> n | None \<Rightarrow> 0) \<and>
       m_type m = command_message_type t \<and> m_version m = Protocol_Version 1 0 \<and>
       (isValid m \<longleftrightarrow> list_all is_digit imei) \<and>
       (\<forall>k. map_of (m_fields m) k =
          (case last_of (asked_parameter k) calls of
             Some v \<Rightarrow> Some (field_value v)
           | None \<Rightarrow>
               if k = ''command_type'' then Some (VU32 (ucast (command_type_byte t))) else None))"
proof (cases "last_of asked_imei calls")
  case None
  then show ?thesis by (simp add: build_def run_calls_asked)
next
  case (Some imei)
  then have imei: "b_imei (run_calls t calls) = imei" "imei \<noteq> []"
    using asked_imei_length [OF Some] by (auto simp: run_calls_asked)
  then obtain m where m: "build now (run_calls t calls) = Inr m" by (simp add: build_def Let_def)
  from build_frame [OF m] build_fields [OF m] m imei(1) Some show ?thesis by (simp add: run_calls_asked)
qed

text \<open>
  A built command is recognised: unless a parameter named \<open>command_type\<close> was added,
  \<open>Command::getType\<close> of the built message is the type the builder was created with, also for
  the three types that share the message type of a reboot.
\<close>

lemma getType_build:
  assumes "listed_command_type t" "build now (run_calls t calls) = Inr m"
    "map_of (b_parameters (run_calls t calls)) ''command_type'' = None"
  shows "getType m = Inr t"
proof -
  have "map_of (m_fields m) ''command_type'' = Some (VU32 (ucast (command_type_byte t)))"
    using build_fields [OF assms(2)] assms(3) by simp
  then show ?thesis
    by (simp add: getType_def hasField_def getField_def convert_u32_def convert_int_def
        command_type_of_byte assms(1))
qed

definition reset_calls :: "builder_call list" where
  "reset_calls = [Set_Imei ''123456789012345'', Set_Sequence 4, Add_Parameter ''confirm'' (PBool True)]"

lemma getType_build_witness:
  "\<exists>m. build 0 (run_calls CT_FACTORY_RESET reset_calls) = Inr m \<and> getType m = Inr CT_FACTORY_RESET"
proof -
  let ?b = "run_calls CT_FACTORY_RESET reset_calls"
  have b: "b_imei ?b = ''123456789012345''" "b_parameters ?b = [(''confirm'', PBool True)]"
    by (simp_all add: reset_calls_def run_calls_def create_def setImei_def setSequence_def addParameter_def)
  then obtain m where m: "build 0 ?b = Inr m" by (simp add: build_def Let_def)
  from getType_build [OF _ this] b m show ?thesis by (simp add: listed_command_type_def)
qed

section \<open>What a device decodes\<close>

text \<open>
  The reader has no case for the 32-bit integer the builder stores the command type in.
\<close>

lemma read_fields_u32_skipped:
  assumes "length nm < 256"
  shows "read_fields 1 (pre @ field_bytes (nm, VU32 w) @ [c]) (length pre) m = Inr m"
proof -
  let ?data = "pre @ field_bytes (nm, VU32 w) @ [c]"
  let ?pre = "pre @ word_of_nat (length nm) # map byte_of_char nm"
  have d: "?data = ?pre @ 7 # le32_bytes w @ [c]" by (simp add: field_bytes_def)
  have len: "unat (word_of_nat (length nm) :: u8) = length nm"
    using assms by (simp add: unat_of_nat)
  have at: "?data ! length pre = word_of_nat (length nm)" "?data ! length ?pre = 7"
    "length ?data = length ?pre + 6"
    unfolding d by (simp_all add: nth_append)
  then show ?thesis by (simp add: len read_value_def)
qed

text \<open>
  The command type does not survive the wire: a device that decodes the bytes of a
  parameterless command with \<open>fromBinary\<close> reads its type off the message type alone. A
  status request, an interval change and a factory reset are all executed as a reboot.
\<close>

lemma command_type_lost:
  assumes "isValidImei imei"
  shows "\<exists>bytes m.
    builder_toBinary now (run_calls t [Set_Imei imei, Set_Sequence n]) = Inr bytes \<and>
    fromBinary now' bytes = Inr m \<and> m_imei m = imei \<and> m_sequence m = n \<and> m_fields m = [] \<and>
    getType m = Inr (if t = CT_SUBSCRIBE \<or> t = CT_UNSUBSCRIBE \<or> t = CT_UPDATE_CONFIG then t
                     else CT_REBOOT)"
proof -
  let ?w = "ucast (command_type_byte t) :: u32"
  let ?b = "run_calls t [Set_Imei imei, Set_Sequence n]"
  define m where "m = setField ''command_type'' (VU32 ?w)
    (new_message imei n (command_message_type t) (Protocol_Version 1 0) [] now)"
  define m' where "m' = new_message imei n (command_message_type t) (Protocol_Version 1 0) [] now'"
  have imei: "length imei = 15" using assms by (simp add: isValidImei_def)
  then have "?b = \<lparr>b_type = t, b_imei = imei, b_sequence = n, b_parameters = []\<rparr>"
    by (simp add: run_calls_def create_def setImei_def setSequence_def)
  with imei have build: "build now ?b = Inr m" by (auto simp: build_def Let_def m_def)
  have m: "m_imei m = imei" "m_sequence m = n" "m_type m = command_message_type t"
      "m_version m = Protocol_Version 1 0" "m_fields m = [(''command_type'', VU32 ?w)]"
    by (simp_all add: m_def setField_def)
  have ty: "listed_message_type (command_message_type t)"
    by (cases t) (simp_all add: command_message_type_def listed_message_type_def)
  let ?c = "xor_all (body_bytes m)"
  obtain pre where pre: "length pre = 25"
      "body_bytes m @ [?c] = pre @ field_bytes (''command_type'', VU32 ?w) @ [?c]"
      "fromBinary now' (body_bytes m @ [?c]) = read_fields 1 (body_bytes m @ [?c]) 25 m'"
    using fromBinary_header [of m ?c now'] assms ty by (auto simp: m m'_def)
  have "fromBinary now' (toBinary m) = Inr m'"
    using read_fields_u32_skipped [of "''command_type''" pre ?w ?c m'] pre
    by (simp add: toBinary_def del: read_fields.simps)
  moreover have "getType m' = Inr (if t = CT_SUBSCRIBE \<or> t = CT_UNSUBSCRIBE \<or> t = CT_UPDATE_CONFIG
      then t else CT_REBOOT)"
    by (cases t) (simp_all add: getType_def hasField_def m'_def getType_of_message_def command_message_type_def)
  ultimately show ?thesis
    by (simp add: builder_toBinary_def build m'_def)
qed

lemma command_type_lost_witness:
  "isValidImei ''123456789012345'' \<and>
   (\<exists>bytes m. builder_toBinary 0 (run_calls CT_FACTORY_RESET
        [Set_Imei ''123456789012345'', Set_Sequence 4]) = Inr bytes \<and>
      fromBinary 9 bytes = Inr m \<and> getType m = Inr CT_REBOOT)"
proof -
  have i: "isValidImei ''123456789012345''" by (simp add: isValidImei_def)
  from command_type_lost [OF i, of 0 CT_FACTORY_RESET 4 9] i show ?thesis by auto
qed

end
