(* ===== verification/Dedup_Types.thy ===== *)
theory Dedup_Types
  imports Cpp_Strings "HOL-Library.Char_ord" "HOL-Library.List_Lexorder"
begin

text \<open>
  \<open>redis_deduplication/types.hpp\<close> and \<open>types.cpp\<close>: configuration with its validity check and
  factory functions, message identifiers with their order and keys, results and statistics.
  Durations of the configuration are counts of milliseconds; points in time and measured
  latencies are clock ticks (nanoseconds).
\<close>

abbreviation ms :: "int \<Rightarrow> ticks" where "ms d \<equiv> d * 1000000"

section \<open>Configuration\<close>

record dedup_config =
  masterHost :: string
  masterPort :: int
  standbyHost :: string
  standbyPort :: int
  cfg_password :: string
  connectionPoolSize :: int
  connectionTimeout :: int
  socketTimeout :: int
  deduplicationWindow :: int
  keyPrefix :: string
  localCacheSize :: nat
  enableLocalCacheFallback :: bool
  localCacheTtl :: int
  reconnectInterval :: int
  maxReconnectAttempts :: int
  backoffMultiplier :: fp
  maxReconnectInterval :: int
  enablePipelining :: bool
  maxPipelineSize :: int
  enableDebugLogging :: bool

definition createDefaultConfig :: dedup_config where
  "createDefaultConfig =
     \<lparr>masterHost = ''localhost'', masterPort = 6379, standbyHost = [], standbyPort = 6379,
      cfg_password = [], connectionPoolSize = 5, connectionTimeout = 5000, socketTimeout = 3000,
      deduplicationWindow = 3600000, keyPrefix = ''dedup'', localCacheSize = 10000,
      enableLocalCacheFallback = True, localCacheTtl = 3600000, reconnectInterval = 5000,
      maxReconnectAttempts = 10, backoffMultiplier = Fin 2, maxReconnectInterval = 300000,
      enablePipelining = True, maxPipelineSize = 100, enableDebugLogging = False\<rparr>"

definition createProductionConfig :: "string \<Rightarrow> int \<Rightarrow> string \<Rightarrow> dedup_config" where
  "createProductionConfig host port pw =
     createDefaultConfig
       \<lparr>masterHost := host, masterPort := port, cfg_password := pw, connectionPoolSize := 10,
        connectionTimeout := 3000, socketTimeout := 2000, deduplicationWindow := 1800000,
        localCacheSize := 50000, enableLocalCacheFallback := True, localCacheTtl := 1800000,
        reconnectInterval := 1000, maxReconnectAttempts := 5, backoffMultiplier := Fin 2,
        maxReconnectInterval := 60000, enablePipelining := True, maxPipelineSize := 200,
        enableDebugLogging := False\<rparr>"

definition createDevelopmentConfig :: "string \<Rightarrow> int \<Rightarrow> dedup_config" where
  "createDevelopmentConfig host port =
     createDefaultConfig
       \<lparr>masterHost := host, masterPort := port, connectionPoolSize := 3,
        connectionTimeout := 5000, socketTimeout := 3000, deduplicationWindow := 300000,
        localCacheSize := 1000, enableLocalCacheFallback := True, localCacheTtl := 300000,
        reconnectInterval := 2000, maxReconnectAttempts := 3, backoffMultiplier := Fin (3/2),
        maxReconnectInterval := 30000, enablePipelining := False, maxPipelineSize := 10,
        enableDebugLogging := True\<rparr>"

definition isValidConfig :: "dedup_config \<Rightarrow> bool" where
  "isValidConfig c =
     (if masterHost c = [] then False
      else if masterPort c \<le> 0 \<or> 65535 < masterPort c then False
      else if connectionPoolSize c \<le> 0 \<or> 100 < connectionPoolSize c then False
      else if deduplicationWindow c \<le> 0 then False
      else if localCacheSize c = 0 then False
      else if standbyHost c \<noteq> [] \<and> (standbyPort c \<le> 0 \<or> 65535 < standbyPort c) then False
      else if connectionTimeout c \<le> 0 \<or> socketTimeout c \<le> 0 then False
      else True)"

section \<open>Message identifiers\<close>

datatype message_id = Message_Id (mi_imei: string) (mi_seq: u32)

definition toRedisKey :: "string \<Rightarrow> message_id \<Rightarrow> string" where
  "toRedisKey prefix m =
     prefix @ CHR '':'' # mi_imei m @ CHR '':'' # dec_string (unat (mi_seq m))"

definition message_id_less :: "message_id \<Rightarrow> message_id \<Rightarrow> bool" where
  "message_id_less a b =
     (if mi_imei a \<noteq> mi_imei b then mi_imei a < mi_imei b else mi_seq a < mi_seq b)"

instantiation message_id :: linorder
begin

definition less_message_id :: "message_id \<Rightarrow> message_id \<Rightarrow> bool" where
  "less_message_id a b = message_id_less a b"

definition less_eq_message_id :: "message_id \<Rightarrow> message_id \<Rightarrow> bool" where
  "less_eq_message_id a b = (a = b \<or> a < b)"

instance
  by standard
    (auto simp: message_id_less_def less_message_id_def less_eq_message_id_def intro: message_id.expand split: if_splits)

end

section \<open>Results and statistics\<close>

datatype dedup_result = R_UNIQUE | R_DUPLICATE | R_ERROR | R_CACHE_MISS

datatype connection_status =
  CS_CONNECTED | CS_DISCONNECTED | CS_CONNECTING | CS_FAILED | CS_STANDBY_ACTIVE

fun result_string :: "dedup_result \<Rightarrow> string" where
  "result_string R_UNIQUE = ''UNIQUE''"
| "result_string R_DUPLICATE = ''DUPLICATE''"
| "result_string R_ERROR = ''ERROR''"
| "result_string R_CACHE_MISS = ''CACHE_MISS''"

fun status_string :: "connection_status \<Rightarrow> string" where
  "status_string CS_CONNECTED = ''CONNECTED''"
| "status_string CS_DISCONNECTED = ''DISCONNECTED''"
| "status_string CS_CONNECTING = ''CONNECTING''"
| "status_string CS_FAILED = ''FAILED''"
| "status_string CS_STANDBY_ACTIVE = ''STANDBY_ACTIVE''"

record dedup_stats =
  ds_totalChecks :: u64
  ds_duplicatesFound :: u64
  ds_uniqueMessages :: u64
  ds_redisConnections :: u64
  ds_redisFailures :: u64
  ds_redisReconnects :: u64
  ds_redisTimeouts :: u64
  ds_localCacheHits :: u64
  ds_localCacheMisses :: u64
  ds_localCacheEvictions :: u64
  ds_averageCheckLatency :: int
  ds_maxCheckLatency :: int
  ds_minCheckLatency :: int
  ds_activeConnections :: int
  ds_totalConnections :: int
  ds_failedConnections :: int
  ds_lastUpdated :: ticks

record pool_stats =
  ps_total :: int
  ps_active :: int
  ps_idle :: int
  ps_failed :: int
  ps_reconnectAttempts :: int
  ps_lastConnectionTime :: ticks
  ps_lastFailureTime :: ticks

text \<open>The statistics printed; the unit of the latency contains the two bytes of a Greek letter.\<close>

definition stat_line :: "string \<Rightarrow> string \<Rightarrow> string" where
  "stat_line label value = ''  '' @ label @ '': '' @ value @ [CHR 0x0A]"

definition dedup_stats_string :: "dedup_stats \<Rightarrow> string" where
  "dedup_stats_string s =
     ''DeduplicationStats {'' @ [CHR 0x0A] @
     stat_line ''Total Checks'' (dec_string (unat (ds_totalChecks s))) @
     stat_line ''Duplicates Found'' (dec_string (unat (ds_duplicatesFound s))) @
     stat_line ''Unique Messages'' (dec_string (unat (ds_uniqueMessages s))) @
     stat_line ''Redis Failures'' (dec_string (unat (ds_redisFailures s))) @
     stat_line ''Cache Hits'' (dec_string (unat (ds_localCacheHits s))) @
     stat_line ''Cache Misses'' (dec_string (unat (ds_localCacheMisses s))) @
     stat_line ''Average Latency'' (int_string (ds_averageCheckLatency s) @ [CHR 0xCE, CHR 0xBC] @ ''s'') @
     stat_line ''Active Connections'' (int_string (ds_activeConnections s)) @
     stat_line ''Total Connections'' (int_string (ds_totalConnections s)) @ ''}''"

definition pool_stats_string :: "pool_stats \<Rightarrow> string" where
  "pool_stats_string s =
     ''ConnectionPoolStats {'' @ [CHR 0x0A] @
     stat_line ''Total Connections'' (int_string (ps_total s)) @
     stat_line ''Active Connections'' (int_string (ps_active s)) @
     stat_line ''Idle Connections'' (int_string (ps_idle s)) @
     stat_line ''Failed Connections'' (int_string (ps_failed s)) @
     stat_line ''Reconnect Attempts'' (int_string (ps_reconnectAttempts s)) @ ''}''"

record batch_result =
  br_results :: "dedup_result list"
  br_totalLatency :: int
  br_redisOperations :: int
  br_cacheHits :: int
  br_errors :: int

definition empty_batch :: batch_result where
  "empty_batch =
     \<lparr>br_results = [], br_totalLatency = 0, br_redisOperations = 0, br_cacheHits = 0, br_errors = 0\<rparr>"

fun count_successes :: "dedup_result list \<Rightarrow> int" where
  "count_successes [] = 0"
| "count_successes (r # rs) = (if r \<noteq> R_ERROR then 1 else 0) + count_successes rs"

definition calculateSuccessRate :: "batch_result \<Rightarrow> fp" where
  "calculateSuccessRate b =
     (if br_results b = [] then Fin 0
      else dbl_div (f64 (of_int (count_successes (br_results b))))
             (rnd64 (of_nat (length (br_results b)))))"

definition countByResult :: "batch_result \<Rightarrow> dedup_result \<Rightarrow> int" where
  "countByResult b r = int (count_list (br_results b) r)"

section \<open>Properties\<close>

lemma factory_configs_valid:
  "isValidConfig createDefaultConfig"
  "host \<noteq> [] \<Longrightarrow> 1 \<le> port \<Longrightarrow> port \<le> 65535 \<Longrightarrow> isValidConfig (createProductionConfig host port pw)"
  "host \<noteq> [] \<Longrightarrow> 1 \<le> port \<Longrightarrow> port \<le> 65535 \<Longrightarrow> isValidConfig (createDevelopmentConfig host port)"
  by (simp_all add: isValidConfig_def createDefaultConfig_def createProductionConfig_def
      createDevelopmentConfig_def)

lemma toRedisKey_inject [simp]: "toRedisKey p a = toRedisKey p b \<longleftrightarrow> a = b"
proof -
  have "p @ CHR '':'' # mi_imei a @ CHR '':'' # dec_string (unat (mi_seq a)) =
        p @ CHR '':'' # mi_imei b @ CHR '':'' # dec_string (unat (mi_seq b)) \<longleftrightarrow>
      mi_imei a = mi_imei b \<and> unat (mi_seq a) = unat (mi_seq b)"
    by (simp add: key_split_unique)
  then show ?thesis
    by (cases a; cases b) (simp add: toRedisKey_def word_unat_eq_iff)
qed

lemma count_successes_partition:
  "count_successes rs + int (count_list rs R_ERROR) = int (length rs)"
  by (induction rs) auto

lemma count_successes_bounds: "0 \<le> count_successes rs \<and> count_successes rs \<le> int (length rs)"
  using count_successes_partition [of rs] by (induction rs) auto

end
