(* ===== verification/Redis_Client.thy ===== *)
theory Redis_Client
  imports Dedup_Types
begin

text \<open>
  \<open>redis_deduplication::RedisClient\<close> (\<open>redis_client.hpp\<close>, \<open>redis_client.cpp\<close>). The C library
  hiredis, the server behind it and the system clock are not part of the repository: they are
  the functions of a \<open>redis_env\<close>, arguments of every operation, acting on a world of type \<open>'w\<close>
  that is threaded through in call order. Contexts are handles.
\<close>

section \<open>The library\<close>

datatype redis_reply =
  Reply_Status string | Reply_Error "string option" | Reply_Integer int | Reply_Nil | Reply_Other

text \<open>
  \<open>redisConnectWithTimeout\<close> (a null context or a handle), the error text of a context if its
  \<open>err\<close> is set, \<open>redisCommand\<close> with its arguments already split, \<open>redisCommand\<close> on a raw
  command line, \<open>redisAppendCommand\<close>, \<open>redisGetReply\<close> (not \<open>REDIS_OK\<close>, or a possibly null
  reply), \<open>redisSetTimeout\<close>, \<open>redisFree\<close> and the clock.
\<close>

record 'w redis_env =
  hi_connect :: "string \<Rightarrow> int \<Rightarrow> int \<Rightarrow> 'w \<Rightarrow> nat option \<times> 'w"
  hi_err :: "nat \<Rightarrow> 'w \<Rightarrow> string option"
  hi_command :: "nat \<Rightarrow> string list \<Rightarrow> 'w \<Rightarrow> redis_reply option \<times> 'w"
  hi_raw_command :: "nat \<Rightarrow> string \<Rightarrow> 'w \<Rightarrow> redis_reply option \<times> 'w"
  hi_append :: "nat \<Rightarrow> string list \<Rightarrow> 'w \<Rightarrow> 'w"
  hi_get_reply :: "nat \<Rightarrow> 'w \<Rightarrow> redis_reply option option \<times> 'w"
  hi_set_timeout :: "nat \<Rightarrow> int \<Rightarrow> 'w \<Rightarrow> bool \<times> 'w"
  hi_free :: "nat \<Rightarrow> 'w \<Rightarrow> 'w"
  sys_now :: "'w \<Rightarrow> ticks \<times> 'w"

section \<open>State\<close>

record redis_client =
  rc_host :: string
  rc_port :: int
  rc_password :: string
  rc_connectionTimeout :: int
  rc_socketTimeout :: int
  rc_context :: "nat option"
  rc_status :: connection_status
  rc_lastConnectTime :: ticks
  rc_lastErrorTime :: ticks
  rc_errorCount :: int
  rc_lastError :: string

text \<open>Default-initialised time points are the epoch.\<close>

definition new_client :: "string \<Rightarrow> int \<Rightarrow> string \<Rightarrow> int \<Rightarrow> int \<Rightarrow> redis_client" where
  "new_client host port pw ct st =
     \<lparr>rc_host = host, rc_port = port, rc_password = pw, rc_connectionTimeout = ct,
      rc_socketTimeout = st, rc_context = None, rc_status = CS_DISCONNECTED,
      rc_lastConnectTime = 0, rc_lastErrorTime = 0, rc_errorCount = 0, rc_lastError = []\<rparr>"

type_synonym ('w, 'a) client_op = "redis_client \<times> 'w \<Rightarrow> 'a \<times> redis_client \<times> 'w"

definition c_str :: "string \<Rightarrow> string" where
  "c_str s = takeWhile (\<lambda>c. c \<noteq> CHR 0x00) s"

section \<open>Error tracking\<close>

definition setLastError :: "string \<Rightarrow> redis_client \<Rightarrow> redis_client" where
  "setLastError e c = c\<lparr>rc_lastError := e\<rparr>"

definition handleConnectionError ::
    "'w redis_env \<Rightarrow> string \<Rightarrow> redis_client \<times> 'w \<Rightarrow> redis_client \<times> 'w" where
  "handleConnectionError env operation = (\<lambda>(c, w).
     let (now, w) = sys_now env w;
         full = (case rc_context c of
                   Some x \<Rightarrow>
                     (case hi_err env x w of Some e \<Rightarrow> operation @ '': '' @ e | None \<Rightarrow> operation)
                 | None \<Rightarrow> operation)
     in (setLastError full
           (c\<lparr>rc_status := CS_FAILED, rc_lastErrorTime := now, rc_errorCount := rc_errorCount c + 1\<rparr>), w))"

definition resetErrorCounters :: "redis_client \<Rightarrow> redis_client" where
  "resetErrorCounters c = c\<lparr>rc_errorCount := 0, rc_lastError := []\<rparr>"

definition error_text :: "string \<Rightarrow> string option \<Rightarrow> string" where
  "error_text dflt s = (case s of Some t \<Rightarrow> t | None \<Rightarrow> dflt)"

section \<open>Connecting\<close>

text \<open>\<open>ping\<close> refuses unless the status is already \<open>CONNECTED\<close>.\<close>

definition ping :: "'w redis_env \<Rightarrow> ('w, bool) client_op" where
  "ping env = (\<lambda>(c, w).
     case rc_context c of
       None \<Rightarrow> (False, c, w)
     | Some x \<Rightarrow>
         if rc_status c \<noteq> CS_CONNECTED then (False, c, w)
         else case hi_command env x [''PING''] w of
                (r, w) \<Rightarrow> (r = Some (Reply_Status ''PONG''), c, w))"

definition authenticate :: "'w redis_env \<Rightarrow> nat \<Rightarrow> ('w, bool) client_op" where
  "authenticate env x = (\<lambda>(c, w).
     if rc_password c = [] then (True, c, w)
     else case hi_command env x [''AUTH'', c_str (rc_password c)] w of
            (None, w) \<Rightarrow> (False, handleConnectionError env ''AUTH command failed'' (c, w))
          | (Some (Reply_Error e), w) \<Rightarrow>
              (False, handleConnectionError env
                        (''Authentication failed: '' @ error_text ''Invalid password'' e) (c, w))
          | (Some r, w) \<Rightarrow> (r = Reply_Status ''OK'', c, w))"

definition free_context :: "'w redis_env \<Rightarrow> redis_client \<times> 'w \<Rightarrow> redis_client \<times> 'w" where
  "free_context env = (\<lambda>(c, w).
     case rc_context c of
       None \<Rightarrow> (c, w)
     | Some x \<Rightarrow> (c\<lparr>rc_context := None\<rparr>, hi_free env x w))"

definition connect :: "'w redis_env \<Rightarrow> ('w, bool) client_op" where
  "connect env = (\<lambda>(c, w).
     let (c, w) = free_context env (c, w);
         c = c\<lparr>rc_status := CS_CONNECTING\<rparr>;
         (x, w) = hi_connect env (c_str (rc_host c)) (rc_port c) (rc_connectionTimeout c) w
     in case x of
          None \<Rightarrow> (False, handleConnectionError env ''Failed to allocate Redis context'' (c, w))
        | Some x \<Rightarrow>
            let c = c\<lparr>rc_context := Some x\<rparr>
            in (case hi_err env x w of
                  Some e \<Rightarrow>
                    (False, free_context env
                       (handleConnectionError env (''Connection failed: '' @ e) (c, w)))
                | None \<Rightarrow>
                    let (ok, w) = hi_set_timeout env x (rc_socketTimeout c) w;
                        (auth, c, w) = authenticate env x (c, w)
                    in if \<not> auth then (False, free_context env (c, w))
                       else
                         let (pong, c, w) = ping env (c, w)
                         in if \<not> pong then (False, free_context env (c, w))
                            else
                              let c = c\<lparr>rc_status := CS_CONNECTED\<rparr>; (now, w) = sys_now env w
                              in (True, c\<lparr>rc_lastConnectTime := now\<rparr>, w)))"

definition disconnect :: "'w redis_env \<Rightarrow> redis_client \<times> 'w \<Rightarrow> redis_client \<times> 'w" where
  "disconnect env = (\<lambda>(c, w).
     let (c, w) = free_context env (c, w) in (c\<lparr>rc_status := CS_DISCONNECTED\<rparr>, w))"

section \<open>Commands\<close>

definition connected :: "redis_client \<Rightarrow> nat option" where
  "connected c = (if rc_status c = CS_CONNECTED then rc_context c else None)"

definition set_command :: "string \<Rightarrow> int \<Rightarrow> string list" where
  "set_command key ttl = [''SET'', c_str key, ''1'', ''NX'', ''PX'', int_string ttl]"

definition setNX :: "'w redis_env \<Rightarrow> string \<Rightarrow> int \<Rightarrow> ('w, bool) client_op" where
  "setNX env key ttl = (\<lambda>(c, w).
     case connected c of
       None \<Rightarrow> (False, handleConnectionError env ''Not connected to Redis'' (c, w))
     | Some x \<Rightarrow>
         (case hi_command env x (set_command key ttl) w of
            (None, w) \<Rightarrow> (False, handleConnectionError env ''SET NX command failed'' (c, w))
          | (Some (Reply_Error e), w) \<Rightarrow>
              (False, setLastError (''Redis error: '' @ error_text ''Unknown error'' e) c, w)
          | (Some r, w) \<Rightarrow> (r = Reply_Status ''OK'', c, w)))"

text \<open>The loop that collects the pipelined replies, one per key.\<close>

fun collect_replies :: "'w redis_env \<Rightarrow> nat \<Rightarrow> string list \<Rightarrow> ('w, bool list) client_op" where
  "collect_replies env x [] (c, w) = ([], c, w)"
| "collect_replies env x (k # ks) (c, w) =
     (let (r, c, w) =
        (case hi_get_reply env x w of
           (None, w) \<Rightarrow> (False, handleConnectionError env ''Pipeline command failed'' (c, w))
         | (Some None, w) \<Rightarrow> (False, c, w)
         | (Some (Some (Reply_Error e)), w) \<Rightarrow> (False, c, w)
         | (Some (Some r), w) \<Rightarrow> (r = Reply_Status ''OK'', c, w));
          (rs, c, w) = collect_replies env x ks (c, w)
      in (r # rs, c, w))"

definition batchSetNX :: "'w redis_env \<Rightarrow> string list \<Rightarrow> int \<Rightarrow> ('w, bool list) client_op" where
  "batchSetNX env keys ttl = (\<lambda>(c, w).
     if keys = [] then ([], c, w)
     else case connected c of
            None \<Rightarrow>
              (replicate (length keys) False, handleConnectionError env ''Not connected to Redis'' (c, w))
          | Some x \<Rightarrow>
              collect_replies env x keys
                (c, fold (\<lambda>k w. hi_append env x (set_command k ttl) w) keys w))"

definition deleteKey :: "'w redis_env \<Rightarrow> string \<Rightarrow> ('w, bool) client_op" where
  "deleteKey env key = (\<lambda>(c, w).
     case connected c of
       None \<Rightarrow> (False, handleConnectionError env ''Not connected to Redis'' (c, w))
     | Some x \<Rightarrow>
         (case hi_command env x [''DEL'', c_str key] w of
            (None, w) \<Rightarrow> (False, handleConnectionError env ''DEL command failed'' (c, w))
          | (Some (Reply_Error e), w) \<Rightarrow>
              (False, setLastError (''Redis error: '' @ error_text ''Unknown error'' e) c, w)
          | (Some (Reply_Integer n), w) \<Rightarrow> (0 < n, c, w)
          | (Some r, w) \<Rightarrow> (False, c, w)))"

text \<open>The keys are pasted into one command line, which hiredis splits at blanks.\<close>

definition deleteKeys :: "'w redis_env \<Rightarrow> string list \<Rightarrow> ('w, int) client_op" where
  "deleteKeys env keys = (\<lambda>(c, w).
     if keys = [] then (0, c, w)
     else case connected c of
            None \<Rightarrow> (0, handleConnectionError env ''Not connected to Redis'' (c, w))
          | Some x \<Rightarrow>
              (case hi_raw_command env x (c_str (''DEL'' @ concat (map (\<lambda>k. '' '' @ k) keys))) w of
                 (None, w) \<Rightarrow> (0, handleConnectionError env ''DEL command failed'' (c, w))
               | (Some (Reply_Error e), w) \<Rightarrow>
                   (0, setLastError (''Redis error: '' @ error_text ''Unknown error'' e) c, w)
               | (Some (Reply_Integer n), w) \<Rightarrow> (sint (word_of_int n :: u32), c, w)
               | (Some r, w) \<Rightarrow> (0, c, w)))"

definition executeCommand :: "'w redis_env \<Rightarrow> string \<Rightarrow> ('w, redis_reply option) client_op" where
  "executeCommand env command = (\<lambda>(c, w).
     case connected c of
       None \<Rightarrow> (None, handleConnectionError env ''Not connected to Redis'' (c, w))
     | Some x \<Rightarrow>
         (case hi_raw_command env x (c_str command) w of
            (None, w) \<Rightarrow>
              (None, handleConnectionError env (''Command execution failed: '' @ command) (c, w))
          | (Some r, w) \<Rightarrow> (Some r, c, w)))"

text \<open>\<open>arguments\<close>: the command as hiredis splits the format with its arguments filled in.\<close>

definition executeCommandf :: "'w redis_env \<Rightarrow> string list \<Rightarrow> ('w, redis_reply option) client_op" where
  "executeCommandf env arguments = (\<lambda>(c, w).
     case connected c of
       None \<Rightarrow> (None, handleConnectionError env ''Not connected to Redis'' (c, w))
     | Some x \<Rightarrow>
         (case hi_command env x arguments w of
            (None, w) \<Rightarrow> (None, handleConnectionError env ''Formatted command execution failed'' (c, w))
          | (Some r, w) \<Rightarrow> (Some r, c, w)))"

text \<open>
  Moving a client: the new one and what is left of the old one, whose strings are empty as in the
  standard libraries in use. Assignment disconnects the target first.
\<close>

definition client_move :: "redis_client \<Rightarrow> redis_client \<times> redis_client" where
  "client_move other =
     (other, other\<lparr>rc_host := [], rc_password := [], rc_lastError := [], rc_context := None,
                  rc_status := CS_DISCONNECTED, rc_errorCount := 0\<rparr>)"

definition client_move_assign ::
    "'w redis_env \<Rightarrow> redis_client \<Rightarrow> redis_client \<times> 'w \<Rightarrow> redis_client \<times> redis_client \<times> 'w" where
  "client_move_assign env other s =
     (case disconnect env s of (c, w) \<Rightarrow> (fst (client_move other), snd (client_move other), w))"

text \<open>A context is never owned twice, and the old client answers as an unconnected one.\<close>

lemma client_move_context:
  "rc_context (snd (client_move c)) = None" "connected (snd (client_move c)) = None"
  "fst (client_move c) = c"
  by (simp_all add: client_move_def connected_def)

section \<open>What connecting does\<close>

lemma handleConnectionError_sel [simp]:
  "rc_status (fst (handleConnectionError env e s)) = CS_FAILED"
  "rc_context (fst (handleConnectionError env e s)) = rc_context (fst s)"
  by (cases s; simp add: handleConnectionError_def setLastError_def Let_def split: prod.splits)+

lemma handleConnectionError_frame:
  "handleConnectionError env e (c, w) = (c', w') \<Longrightarrow>
     rc_status c' = CS_FAILED \<and> rc_context c' = rc_context c"
  using handleConnectionError_sel [of env e "(c, w)"] by simp

lemma free_context_frame:
  "free_context env s = (c', w') \<Longrightarrow> rc_context c' = None \<and> rc_status c' = rc_status (fst s)"
  by (cases s) (auto simp: free_context_def split: option.splits)

lemma authenticate_frame:
  "authenticate env x (c, w) = (b, c', w') \<Longrightarrow>
     rc_context c' = rc_context c \<and> rc_status c' \<in> {rc_status c, CS_FAILED} \<and>
     (b \<longrightarrow> rc_status c' = rc_status c)"
  by (auto simp: authenticate_def split: if_splits prod.splits option.splits redis_reply.splits
      dest!: handleConnectionError_frame)

lemma ping_unconnected: "rc_status c \<noteq> CS_CONNECTED \<Longrightarrow> ping env (c, w) = (False, c, w)"
  by (simp add: ping_def split: option.splits)

text \<open>
  A client can never connect: whatever the server and the library answer, \<open>connect\<close> returns
  false and leaves the client without a context and not connected, because the connection test
  \<open>ping\<close> refuses a client that is not connected yet.
\<close>

lemma connect_never_succeeds:
  "case connect env (c, w) of (ok, c', w') \<Rightarrow>
     \<not> ok \<and> rc_context c' = None \<and> (rc_status c' = CS_CONNECTING \<or> rc_status c' = CS_FAILED) \<and>
     connected c' = None"
proof -
  obtain c1 w1 where free: "free_context env (c, w) = (c1, w1)" by (cases "free_context env (c, w)") auto
  let ?c2 = "c1\<lparr>rc_status := CS_CONNECTING\<rparr>"
  obtain x w2 where x: "hi_connect env (c_str (rc_host ?c2)) (rc_port ?c2) (rc_connectionTimeout ?c2) w1 = (x, w2)"
    by fastforce
  show ?thesis
  proof (cases x)
    case None
    with free x free_context_frame [OF free] show ?thesis
      by (auto simp: connect_def connected_def split: prod.splits dest: handleConnectionError_frame)
  next
    case (Some h)
    let ?c3 = "?c2\<lparr>rc_context := Some h\<rparr>"
    show ?thesis
    proof (cases "hi_err env h w2")
      case (Some e)
      with free x \<open>x = Some h\<close> show ?thesis
        by (auto simp: connect_def connected_def split: prod.splits dest!: free_context_frame)
    next
      case None
      obtain b w3 where t: "hi_set_timeout env h (rc_socketTimeout ?c3) w2 = (b, w3)" by fastforce
      obtain auth c4 w4 where a: "authenticate env h (?c3, w3) = (auth, c4, w4)"
        by (cases "authenticate env h (?c3, w3)") auto
      from authenticate_frame [OF a]
      have s: "rc_status c4 = CS_CONNECTING \<or> rc_status c4 = CS_FAILED" by auto
      then have p: "ping env (c4, w4) = (False, c4, w4)" by (auto intro: ping_unconnected)
      have "connect env (c, w) = (False, free_context env (c4, w4))"
        using free x t a p \<open>x = Some h\<close> None by (simp add: connect_def Let_def)
      with s show ?thesis
        by (auto simp: connected_def split: prod.splits dest!: free_context_frame)
    qed
  qed
qed


end
