(* ===== verification/Connection_Pool.thy ===== *)
theory Connection_Pool
  imports Redis_Client "HOL-Library.Multiset"
begin

text \<open>
  \<open>redis_deduplication::ConnectionPool\<close> (\<open>connection_pool.hpp\<close>, \<open>connection_pool.cpp\<close>); the handles
  it gives out are in Connection_Handle. The pool mutex makes the operations atomic; a caller that
  waits on the condition variable is modelled as calling when the wait ends, so an empty queue means
  that it timed out. A client whose last reference goes away is disconnected, as its destructor does.
\<close>

section \<open>State\<close>

record conn_pool =
  cp_config :: dedup_config
  cp_available :: "redis_client list"
  cp_standby :: "redis_client list"
  cp_initialized :: bool
  cp_shuttingDown :: bool
  cp_usingStandby :: bool
  cp_total :: int
  cp_active :: int
  cp_failed :: int
  cp_reconnects :: int
  cp_lastConnectionTime :: ticks
  cp_lastFailureTime :: ticks
  cp_monitorRunning :: bool

definition time_min :: ticks where "time_min = - (2 ^ 63)"

definition new_pool :: "dedup_config \<Rightarrow> ticks \<Rightarrow> conn_pool" where
  "new_pool cfg now =
     \<lparr>cp_config = cfg, cp_available = [], cp_standby = [], cp_initialized = False,
      cp_shuttingDown = False, cp_usingStandby = False, cp_total = 0, cp_active = 0, cp_failed = 0,
      cp_reconnects = 0, cp_lastConnectionTime = now, cp_lastFailureTime = time_min,
      cp_monitorRunning = False\<rparr>"

section \<open>Clients\<close>

definition drop_client :: "'w redis_env \<Rightarrow> redis_client \<Rightarrow> 'w \<Rightarrow> 'w" where
  "drop_client env c w = snd (disconnect env (c, w))"

definition drop_clients :: "'w redis_env \<Rightarrow> redis_client list \<Rightarrow> 'w \<Rightarrow> 'w" where
  "drop_clients env cs w = fold (drop_client env) cs w"

definition isConnectionHealthy :: "'w redis_env \<Rightarrow> redis_client \<times> 'w \<Rightarrow> bool \<times> 'w" where
  "isConnectionHealthy env = (\<lambda>(c, w).
     if rc_status c = CS_CONNECTED then (case ping env (c, w) of (ok, c', w') \<Rightarrow> (ok, w'))
     else (False, w))"

definition createConnection ::
    "'w redis_env \<Rightarrow> bool \<Rightarrow> conn_pool \<times> 'w \<Rightarrow> redis_client option \<times> conn_pool \<times> 'w" where
  "createConnection env useStandby = (\<lambda>(p, w).
     let cfg = cp_config p;
         c = new_client (if useStandby then standbyHost cfg else masterHost cfg)
               (if useStandby then standbyPort cfg else masterPort cfg) (cfg_password cfg)
               (connectionTimeout cfg) (socketTimeout cfg);
         (ok, c, w) = connect env (c, w);
         (now, w) = sys_now env w
     in if ok then (Some c, p\<lparr>cp_lastConnectionTime := now\<rparr>, w)
        else (None, p\<lparr>cp_lastFailureTime := now\<rparr>, drop_client env c w))"

text \<open>
  \<open>n\<close> iterations of a loop that creates connections: the ones created, in the order in which
  they are pushed.
\<close>

fun create_connections ::
    "'w redis_env \<Rightarrow> bool \<Rightarrow> nat \<Rightarrow> conn_pool \<times> 'w \<Rightarrow> redis_client list \<times> conn_pool \<times> 'w" where
  "create_connections env st 0 (p, w) = ([], p, w)"
| "create_connections env st (Suc n) (p, w) =
     (let (c, p, w) = createConnection env st (p, w);
          (cs, p, w) = create_connections env st n (p, w)
      in (case c of Some c \<Rightarrow> c # cs | None \<Rightarrow> cs, p, w))"

section \<open>Operations\<close>

definition initialize :: "'w redis_env \<Rightarrow> conn_pool \<times> 'w \<Rightarrow> bool \<times> conn_pool \<times> 'w" where
  "initialize env = (\<lambda>(p, w).
     if cp_initialized p then (True, p, w)
     else
       let n = nat (connectionPoolSize (cp_config p));
           (cs, p, w) = create_connections env False n (p, w);
           p = p\<lparr>cp_available := cp_available p @ cs, cp_total := cp_total p + int (length cs)\<rparr>;
           (p, w) =
             (if standbyHost (cp_config p) \<noteq> []
              then case create_connections env True n (p, w) of
                     (cs, p, w) \<Rightarrow> (p\<lparr>cp_standby := cp_standby p @ cs\<rparr>, w)
              else (p, w))
       in if cp_available p = [] then (False, p, w)
          else (True, p\<lparr>cp_monitorRunning := True, cp_initialized := True\<rparr>, w))"

definition pool_shutdown :: "'w redis_env \<Rightarrow> conn_pool \<times> 'w \<Rightarrow> conn_pool \<times> 'w" where
  "pool_shutdown env = (\<lambda>(p, w).
     if \<not> cp_initialized p then (p, w)
     else (p\<lparr>cp_shuttingDown := True, cp_monitorRunning := False, cp_available := [],
             cp_standby := [], cp_total := 0, cp_active := 0, cp_initialized := False\<rparr>,
           drop_clients env (cp_available p @ cp_standby p) w))"

definition getConnection ::
    "'w redis_env \<Rightarrow> conn_pool \<times> 'w \<Rightarrow> redis_client option \<times> conn_pool \<times> 'w" where
  "getConnection env = (\<lambda>(p, w).
     if \<not> cp_initialized p \<or> cp_shuttingDown p then (None, p, w)
     else case cp_available p of
            [] \<Rightarrow> (None, p, w)
          | c # rest \<Rightarrow>
              let p = p\<lparr>cp_available := rest, cp_active := cp_active p + 1\<rparr>;
                  (ok, w) = isConnectionHealthy env (c, w)
              in if ok then (Some c, p, w)
                 else
                   let p = p\<lparr>cp_active := cp_active p - 1, cp_failed := cp_failed p + 1\<rparr>;
                       (r, p, w) = createConnection env (cp_usingStandby p) (p, w);
                       w = drop_client env c w
                   in case r of
                        Some c' \<Rightarrow>
                          (Some c', p\<lparr>cp_total := cp_total p + 1, cp_active := cp_active p + 1\<rparr>, w)
                      | None \<Rightarrow> (None, p, w))"

definition returnConnection ::
    "'w redis_env \<Rightarrow> redis_client \<Rightarrow> conn_pool \<times> 'w \<Rightarrow> conn_pool \<times> 'w" where
  "returnConnection env c = (\<lambda>(p, w).
     if cp_shuttingDown p then (p, drop_client env c w)
     else
       let p = p\<lparr>cp_active := cp_active p - 1\<rparr>; (ok, w) = isConnectionHealthy env (c, w)
       in if ok then (p\<lparr>cp_available := cp_available p @ [c]\<rparr>, w)
          else (p\<lparr>cp_failed := cp_failed p + 1\<rparr>, drop_client env c w))"

definition isHealthy :: "conn_pool \<Rightarrow> bool" where
  "isHealthy p \<longleftrightarrow> cp_available p \<noteq> [] \<or> 0 < cp_active p"

definition switchToStandby :: "conn_pool \<Rightarrow> conn_pool" where
  "switchToStandby p =
     (if standbyHost (cp_config p) = [] then p
      else p\<lparr>cp_available := cp_standby p, cp_standby := cp_available p, cp_usingStandby := True\<rparr>)"

definition failoverToStandby :: "conn_pool \<Rightarrow> bool \<times> conn_pool" where
  "failoverToStandby p =
     (if standbyHost (cp_config p) = [] then (False, p)
      else if cp_usingStandby p then (True, p)
      else let p = switchToStandby p in (cp_available p \<noteq> [], p))"

definition switchToMaster :: "'w redis_env \<Rightarrow> conn_pool \<times> 'w \<Rightarrow> conn_pool \<times> 'w" where
  "switchToMaster env = (\<lambda>(p, w).
     let (cs, p, w) = create_connections env False (nat (connectionPoolSize (cp_config p))) (p, w)
     in if cs \<noteq> []
        then (p\<lparr>cp_available := cs, cp_usingStandby := False\<rparr>, drop_clients env (cp_available p) w)
        else (p, w))"

definition failbackToMaster :: "'w redis_env \<Rightarrow> conn_pool \<times> 'w \<Rightarrow> bool \<times> conn_pool \<times> 'w" where
  "failbackToMaster env = (\<lambda>(p, w).
     if \<not> cp_usingStandby p then (True, p, w)
     else case createConnection env False (p, w) of
            (None, p, w) \<Rightarrow> (False, p, w)
          | (Some c, p, w) \<Rightarrow>
              let (ok, w) = isConnectionHealthy env (c, w)
              in if \<not> ok then (False, p, drop_client env c w)
                 else let (p, w) = switchToMaster env (p, w) in (True, p, drop_client env c w))"

definition pool_getStats :: "conn_pool \<Rightarrow> pool_stats" where
  "pool_getStats p =
     \<lparr>ps_total = cp_total p, ps_active = cp_active p, ps_idle = int (length (cp_available p)),
      ps_failed = cp_failed p, ps_reconnectAttempts = cp_reconnects p,
      ps_lastConnectionTime = cp_lastConnectionTime p, ps_lastFailureTime = cp_lastFailureTime p\<rparr>"

definition pool_resetStats :: "ticks \<Rightarrow> conn_pool \<Rightarrow> conn_pool" where
  "pool_resetStats now p =
     p\<lparr>cp_total := int (length (cp_available p)) + cp_active p, cp_failed := 0, cp_reconnects := 0,
       cp_lastConnectionTime := now, cp_lastFailureTime := time_min\<rparr>"

text \<open>The loop of \<open>testConnections\<close>: the healthy connections, the number of failures.\<close>

fun test_clients ::
    "'w redis_env \<Rightarrow> redis_client list \<Rightarrow> 'w \<Rightarrow> redis_client list \<times> int \<times> 'w" where
  "test_clients env [] w = ([], 0, w)"
| "test_clients env (c # cs) w =
     (let (ok, w) = isConnectionHealthy env (c, w);
          w = (if ok then w else drop_client env c w);
          (hs, k, w) = test_clients env cs w
      in if ok then (c # hs, k, w) else (hs, k + 1, w))"

definition testConnections :: "'w redis_env \<Rightarrow> conn_pool \<times> 'w \<Rightarrow> int \<times> conn_pool \<times> 'w" where
  "testConnections env = (\<lambda>(p, w).
     let (hs, k, w) = test_clients env (cp_available p) w
     in (int (length hs), p\<lparr>cp_available := hs, cp_failed := cp_failed p + k\<rparr>, w))"

definition replaceFailedConnections :: "'w redis_env \<Rightarrow> conn_pool \<times> 'w \<Rightarrow> int \<times> conn_pool \<times> 'w" where
  "replaceFailedConnections env = (\<lambda>(p, w).
     let needed = connectionPoolSize (cp_config p) - int (length (cp_available p))
     in if needed \<le> 0 then (0, p, w)
        else
          let (cs, p, w) = create_connections env (cp_usingStandby p) (nat needed) (p, w);
              p = p\<lparr>cp_available := cp_available p @ cs, cp_reconnects := cp_reconnects p + int (length cs)\<rparr>
          in (int (length cs),
              p\<lparr>cp_total := int (length (cp_available p)) + cp_active p\<rparr>, w))"

text \<open>One round of \<open>healthMonitorLoop\<close> after its sleep.\<close>

definition monitor_round :: "'w redis_env \<Rightarrow> conn_pool \<times> 'w \<Rightarrow> conn_pool \<times> 'w" where
  "monitor_round env = (\<lambda>(p, w).
     if \<not> cp_monitorRunning p then (p, w)
     else
       let (n, p, w) = replaceFailedConnections env (p, w)
       in if cp_usingStandby p \<and> masterHost (cp_config p) \<noteq> []
          then case createConnection env False (p, w) of
                 (None, p, w) \<Rightarrow> (p, w)
               | (Some c, p, w) \<Rightarrow>
                   let (ok, w) = isConnectionHealthy env (c, w) in (p, drop_client env c w)
          else (p, w))"

definition reconnectFailedConnections :: "'w redis_env \<Rightarrow> conn_pool \<times> 'w \<Rightarrow> int \<times> conn_pool \<times> 'w" where
  "reconnectFailedConnections env s = replaceFailedConnections env s"

definition pool_destroy :: "'w redis_env \<Rightarrow> conn_pool \<times> 'w \<Rightarrow> conn_pool \<times> 'w" where
  "pool_destroy env s = pool_shutdown env s"

definition getCurrentHost :: "conn_pool \<Rightarrow> string" where
  "getCurrentHost p = (if cp_usingStandby p then standbyHost (cp_config p) else masterHost (cp_config p))"

definition getCurrentPort :: "conn_pool \<Rightarrow> int" where
  "getCurrentPort p = (if cp_usingStandby p then standbyPort (cp_config p) else masterPort (cp_config p))"

section \<open>No connection is ever created\<close>

lemma connect_fails:
  obtains c' w' where "connect env (c, w) = (False, c', w')" "rc_context c' = None"
  using connect_never_succeeds [of env c w] by (cases "connect env (c, w)") auto

lemma createConnection_fails:
  "\<exists>t w'. createConnection env st (p, w) = (None, p\<lparr>cp_lastFailureTime := t\<rparr>, w')"
proof -
  define c where "c = new_client (if st then standbyHost (cp_config p) else masterHost (cp_config p))
    (if st then standbyPort (cp_config p) else masterPort (cp_config p)) (cfg_password (cp_config p))
    (connectionTimeout (cp_config p)) (socketTimeout (cp_config p))"
  obtain c' w' where "connect env (c, w) = (False, c', w')" by (rule connect_fails)
  then show ?thesis by (auto simp: createConnection_def Let_def c_def split: prod.splits)
qed

lemma create_connections_fail:
  "\<exists>t w'. create_connections env st n (p, w) = ([], p\<lparr>cp_lastFailureTime := t\<rparr>, w')"
proof (induction n arbitrary: p w)
  case 0
  show ?case by (rule exI [of _ "cp_lastFailureTime p"]) simp
next
  case (Suc n)
  from createConnection_fails [of env st p w] obtain t w1
    where c: "createConnection env st (p, w) = (None, p\<lparr>cp_lastFailureTime := t\<rparr>, w1)" by (elim exE)
  from Suc.IH [of "p\<lparr>cp_lastFailureTime := t\<rparr>" w1] obtain t' w2
    where "create_connections env st n (p\<lparr>cp_lastFailureTime := t\<rparr>, w1) =
      ([], p\<lparr>cp_lastFailureTime := t\<rparr>\<lparr>cp_lastFailureTime := t'\<rparr>, w2)" by (elim exE)
  with c show ?case by (intro exI [of _ t'] exI [of _ w2]) simp
qed

section \<open>Calls of the pool\<close>

text \<open>
  What a client and the pool's own threads can do to it. \<open>Pool_release c\<close> gives back a client.
\<close>

datatype pool_call =
    Pool_initialize | Pool_get | Pool_release redis_client | Pool_failover | Pool_failback
  | Pool_test | Pool_monitor | Pool_resetStats ticks | Pool_shutdown

fun pool_step :: "'w redis_env \<Rightarrow> pool_call \<Rightarrow> conn_pool \<times> 'w \<Rightarrow> redis_client option \<times> conn_pool \<times> 'w" where
  "pool_step env Pool_initialize s = (None, snd (initialize env s))"
| "pool_step env Pool_get s = getConnection env s"
| "pool_step env (Pool_release c) s = (None, returnConnection env c s)"
| "pool_step env Pool_failover (p, w) = (None, snd (failoverToStandby p), w)"
| "pool_step env Pool_failback s = (None, snd (failbackToMaster env s))"
| "pool_step env Pool_test s = (None, snd (testConnections env s))"
| "pool_step env Pool_monitor s = (None, monitor_round env s)"
| "pool_step env (Pool_resetStats t) (p, w) = (None, pool_resetStats t p, w)"
| "pool_step env Pool_shutdown s = (None, pool_shutdown env s)"

text \<open>
  Runs in which only clients the pool handed out are given back: the reachable configurations
  are a pool, a world and the clients that are checked out.
\<close>

inductive pool_reach :: "'w redis_env \<Rightarrow> dedup_config \<Rightarrow> conn_pool \<Rightarrow> 'w \<Rightarrow> redis_client list \<Rightarrow> bool"
  for env cfg where
  start: "pool_reach env cfg (new_pool cfg t) w []"
| call: "pool_reach env cfg p w out \<Longrightarrow> (\<forall>c. a \<noteq> Pool_release c) \<Longrightarrow>
    pool_step env a (p, w) = (r, p', w') \<Longrightarrow>
    pool_reach env cfg p' w' (case r of Some c \<Rightarrow> c # out | None \<Rightarrow> out)"
| release: "pool_reach env cfg p w out \<Longrightarrow> c \<in> set out \<Longrightarrow>
    pool_step env (Pool_release c) (p, w) = (r, p', w') \<Longrightarrow>
    pool_reach env cfg p' w' (remove1 c out)"

definition pool_dead :: "dedup_config \<Rightarrow> conn_pool \<Rightarrow> bool" where
  "pool_dead cfg p \<longleftrightarrow>
     cp_config p = cfg \<and> cp_available p = [] \<and> cp_standby p = [] \<and> \<not> cp_initialized p \<and>
     \<not> cp_shuttingDown p \<and> \<not> cp_monitorRunning p \<and> cp_total p = 0 \<and> cp_active p = 0 \<and> cp_failed p = 0"

lemma initialize_fails:
  assumes "pool_dead cfg p"
  shows "\<exists>p' w'. initialize env (p, w) = (False, p', w') \<and> pool_dead cfg p'"
proof -
  let ?n = "nat (connectionPoolSize (cp_config p))"
  from create_connections_fail [of env False ?n p w] obtain t w1
    where a: "create_connections env False ?n (p, w) = ([], p\<lparr>cp_lastFailureTime := t\<rparr>, w1)" by (elim exE)
  let ?p = "p\<lparr>cp_lastFailureTime := t, cp_available := [], cp_total := 0\<rparr>"
  from create_connections_fail [of env True ?n ?p w1] obtain t' w2
    where "create_connections env True ?n (?p, w1) = ([], ?p\<lparr>cp_lastFailureTime := t'\<rparr>, w2)" by (elim exE)
  with a assms show ?thesis
    by (auto simp: initialize_def pool_dead_def Let_def)
qed

lemma failback_dead:
  assumes "pool_dead cfg p"
  shows "\<exists>b p' w'. failbackToMaster env (p, w) = (b, p', w') \<and> pool_dead cfg p'"
proof -
  from createConnection_fails [of env False p w] obtain t w1
    where "createConnection env False (p, w) = (None, p\<lparr>cp_lastFailureTime := t\<rparr>, w1)" by (elim exE)
  with assms show ?thesis by (auto simp: failbackToMaster_def pool_dead_def)
qed

lemma pool_step_dead:
  assumes "pool_dead cfg p" "\<forall>c. a \<noteq> Pool_release c" "pool_step env a (p, w) = (r, p', w')"
  shows "pool_dead cfg p' \<and> r = None"
proof (cases a)
  case Pool_initialize
  with initialize_fails [OF assms(1), of env w] assms(3) show ?thesis by auto
next
  case Pool_failback
  with failback_dead [OF assms(1), of env w] assms(3) show ?thesis by auto
next
  case Pool_failover
  with assms show ?thesis
    by (cases "standbyHost (cp_config p) = []"; cases "cp_usingStandby p")
      (auto simp: failoverToStandby_def switchToStandby_def pool_dead_def Let_def)
qed (use assms in \<open>auto simp: pool_dead_def getConnection_def
      testConnections_def monitor_round_def pool_resetStats_def pool_shutdown_def Let_def\<close>)

text \<open>
  C24. The pool never holds a connection: in every reachable configuration, whatever the server
  answers, no client is checked out, \<open>initialize\<close> fails, \<open>getConnection\<close> returns nothing and the
  pool is unhealthy.
\<close>

theorem pool_never_connects:
  assumes "pool_reach env cfg p w out"
  shows "out = [] \<and> isHealthy p = False \<and> (\<exists>p' w'. initialize env (p, w) = (False, p', w')) \<and>
    getConnection env (p, w) = (None, p, w) \<and> ps_total (pool_getStats p) = 0"
proof -
  have "pool_dead cfg p \<and> out = []"
    using assms
  proof (induction rule: pool_reach.induct)
    case (start t w)
    then show ?case by (simp add: pool_dead_def new_pool_def)
  next
    case (call p w out a r p' w')
    with pool_step_dead [of cfg p a env w r p' w'] show ?case by auto
  qed simp
  then show ?thesis
    using initialize_fails [of cfg p env w]
    by (auto simp: pool_dead_def isHealthy_def getConnection_def pool_getStats_def)
qed


text \<open>A library and server that accept everything.\<close>

definition happy_env :: "unit redis_env" where
  "happy_env =
     \<lparr>hi_connect = (\<lambda>h p t w. (Some 0, w)), hi_err = (\<lambda>x w. None),
      hi_command = (\<lambda>x args w.
        (Some (Reply_Status (if args = [''PING''] then ''PONG'' else ''OK'')), w)),
      hi_raw_command = (\<lambda>x s w. (Some (Reply_Integer 0), w)), hi_append = (\<lambda>x args w. w),
      hi_get_reply = (\<lambda>x w. (Some (Some (Reply_Status ''OK'')), w)),
      hi_set_timeout = (\<lambda>x t w. (True, w)), hi_free = (\<lambda>x w. w), sys_now = (\<lambda>w. (0, w))\<rparr>"

theorem pool_never_connects_witness:
  "pool_reach happy_env createDefaultConfig (new_pool createDefaultConfig 0) () [] \<and>
   (\<exists>p w. initialize happy_env (new_pool createDefaultConfig 0, ()) = (False, p, w)) \<and>
   isHealthy (new_pool createDefaultConfig 0) = False"
proof -
  have "pool_reach happy_env createDefaultConfig (new_pool createDefaultConfig 0) () []"
    by (rule pool_reach.start)
  from this pool_never_connects [OF this] show ?thesis by auto
qed

section \<open>Checking out a healthy connection\<close>

lemma healthy_ping:
  assumes "rc_status c = CS_CONNECTED" "rc_context c = Some x"
    "\<And>w. fst (hi_command env x [''PING''] w) = Some (Reply_Status ''PONG'')"
  shows "\<exists>w'. isConnectionHealthy env (c, w) = (True, w')"
  using assms(1,2) assms(3) [of w]
  by (auto simp: isConnectionHealthy_def ping_def split: prod.splits)

text \<open>
  Checking out and giving back a connection rotates the queue: on a pool whose first client
  is connected and whose server answers pings, \<open>getConnection\<close> hands out that client and
  \<open>returnConnection\<close> puts it at the back, with every counter as before.
\<close>

lemma checkout_rotates:
  assumes "cp_initialized p" "\<not> cp_shuttingDown p" "cp_available p = c # rest"
    "rc_status c = CS_CONNECTED" "rc_context c = Some x"
    "\<And>w. fst (hi_command env x [''PING''] w) = Some (Reply_Status ''PONG'')"
  shows "\<exists>p' w' w''. getConnection env (p, w) = (Some c, p', w') \<and> cp_active p' = cp_active p + 1 \<and>
    cp_available p' = rest \<and>
    returnConnection env c (p', w') = (p\<lparr>cp_available := rest @ [c]\<rparr>, w'')"
proof -
  obtain w' where w': "isConnectionHealthy env (c, w) = (True, w')"
    using healthy_ping [OF assms(4,5,6)] by blast
  obtain w'' where "isConnectionHealthy env (c, w') = (True, w'')"
    using healthy_ping [OF assms(4,5,6)] by blast
  with w' assms(1-3) show ?thesis
    by (simp add: getConnection_def returnConnection_def)
qed

definition live_client :: redis_client where
  "live_client = (new_client ''localhost'' 6379 [] 5000 3000)\<lparr>rc_context := Some 0, rc_status := CS_CONNECTED\<rparr>"

definition live_pool :: conn_pool where
  "live_pool = (new_pool createDefaultConfig 0)\<lparr>cp_available := [live_client], cp_initialized := True, cp_total := 1\<rparr>"

lemma checkout_rotates_witness:
  "\<exists>p' w' w''. getConnection happy_env (live_pool, ()) = (Some live_client, p', w') \<and>
     returnConnection happy_env live_client (p', w') = (live_pool, w'')"
proof -
  have a: "cp_available live_pool = live_client # []" and i: "cp_initialized live_pool"
      "\<not> cp_shuttingDown live_pool" and c: "rc_status live_client = CS_CONNECTED" "rc_context live_client = Some 0"
    by (simp_all add: live_pool_def live_client_def new_pool_def new_client_def)
  have p: "fst (hi_command happy_env 0 [''PING''] w) = Some (Reply_Status ''PONG'')" for w
    by (simp add: happy_env_def)
  have "live_pool\<lparr>cp_available := [] @ [live_client]\<rparr> = live_pool"
    using a by simp
  with checkout_rotates [OF i a c p, of "()"] show ?thesis by auto
qed

lemma failover_conserves:
  "mset (cp_available (snd (failoverToStandby p)) @ cp_standby (snd (failoverToStandby p))) =
     mset (cp_available p @ cp_standby p)"
  by (simp add: failoverToStandby_def switchToStandby_def Let_def)


end
