(* ===== verification/Cache_Interface.thy ===== *)
theory Cache_Interface
  imports Dedup_Types
begin

text \<open>
  What the deduplicator relies on in a cache of recently seen messages, and what follows from it
  alone. \<open>holds\<close> is the set of identifiers a cache may answer for.
\<close>

locale duplicate_cache =
  fixes ok :: "'c \<Rightarrow> bool" and holds :: "'c \<Rightarrow> message_id set"
    and look :: "ticks \<Rightarrow> ticks \<Rightarrow> ticks \<Rightarrow> message_id \<Rightarrow> 'c \<Rightarrow> (bool \<times> 'c) option"
    and add :: "ticks \<Rightarrow> ticks \<Rightarrow> ticks \<Rightarrow> message_id \<Rightarrow> ticks \<Rightarrow> 'c \<Rightarrow> (bool \<times> 'c) option"
  assumes look_total: "ok c \<Longrightarrow> \<exists>b c'. look t ts te m c = Some (b, c')"
    and look_sound: "ok c \<Longrightarrow> look t ts te m c = Some (b, c') \<Longrightarrow>
      ok c' \<and> holds c' \<subseteq> holds c \<and> (b \<longrightarrow> m \<in> holds c)"
    and add_spec: "ok c \<Longrightarrow> \<exists>c'. add t ts tn m x c = Some (True, c') \<and> ok c' \<and>
      holds c' \<subseteq> insert m (holds c) \<and>
      (\<forall>t' ts' te. ts' \<le> x \<longrightarrow> te \<le> x \<longrightarrow> (\<exists>c''. look t' ts' te m c' = Some (True, c'')))"
begin

lemma look_cases:
  assumes "ok c"
  obtains (hit) c' where "look t ts te m c = Some (True, c')" "ok c'" "holds c' \<subseteq> holds c" "m \<in> holds c"
  | (miss) c' where "look t ts te m c = Some (False, c')" "ok c'" "holds c' \<subseteq> holds c"
proof -
  obtain b c' where c': "look t ts te m c = Some (b, c')" using look_total [OF assms] by blast
  with look_sound [OF assms c'] hit miss show thesis by (cases b) auto
qed

lemma look_after_add:
  assumes "ok c" "add t ts tn m x c = Some (b, c')" "ts' \<le> x" "te \<le> x"
  obtains c'' where "look t' ts' te m c' = Some (True, c'')" "ok c''"
  using add_spec [OF assms(1), of t ts tn m x] assms(2-) look_sound
  by (metis Pair_inject option.inject)

text \<open>A cache that only answers for messages of \<open>seen\<close> keeps doing so.\<close>

lemma seen_add:
  assumes "ok c" "holds c \<subseteq> seen" "m \<in> seen"
  obtains c' where "add t ts tn m x c = Some (True, c')" "ok c'" "holds c' \<subseteq> seen"
  using add_spec [OF assms(1), of t ts tn m x] assms(2,3) by blast

end

end
