(* ===== verification/Local_Cache.thy ===== *)
theory Local_Cache
  imports Cache_Interface "HOL-Library.Multiset"
begin

text \<open>
  \<open>redis_deduplication::LocalCache\<close> (\<open>local_cache.hpp\<close>, \<open>local_cache.cpp\<close>): an LRU cache with
  expiry times, a linked list of entries plus a hash map from keys to list iterators. A list
  node has an identity (the first component of its pair); an iterator is such an identity, and
  an operation that dereferences an iterator whose node is gone returns \<open>None\<close>. Every clock
  reading of an operation is an argument of its own. The mutex makes the operations atomic.
\<close>

section \<open>State\<close>

record cache_entry =
  e_id :: message_id
  e_expiry :: ticks
  e_created :: ticks

definition isExpired :: "ticks \<Rightarrow> cache_entry \<Rightarrow> bool" where
  "isExpired now e \<longleftrightarrow> e_expiry e < now"

record local_cache =
  lc_max :: nat
  lc_ttl :: int
  lc_list :: "(nat \<times> cache_entry) list"
  lc_map :: "(string \<times> nat) list"
  lc_fresh :: nat
  lc_hits :: u64
  lc_misses :: u64
  lc_insertions :: u64
  lc_evictions :: u64
  lc_expired :: u64
  lc_interval :: int
  lc_lastCleanup :: ticks
  lc_nextCleanup :: ticks

definition time_max :: ticks where "time_max = 2 ^ 63 - 1"

text \<open>The constructor throws on a maximal size of 0.\<close>

definition new_cache :: "nat \<Rightarrow> int \<Rightarrow> ticks \<Rightarrow> string + local_cache" where
  "new_cache sz ttl now =
     (if sz = 0 then Inl ''Cache max size must be greater than 0''
      else Inr \<lparr>lc_max = sz, lc_ttl = ttl, lc_list = [], lc_map = [], lc_fresh = 0, lc_hits = 0,
        lc_misses = 0, lc_insertions = 0, lc_evictions = 0, lc_expired = 0, lc_interval = 300000,
        lc_lastCleanup = now, lc_nextCleanup = now + ms 300000\<rparr>)"

section \<open>Private operations\<close>

definition generateKey :: "message_id \<Rightarrow> string" where
  "generateKey m = mi_imei m @ CHR '':'' # dec_string (unat (mi_seq m))"

definition moveToFront :: "nat \<Rightarrow> local_cache \<Rightarrow> local_cache" where
  "moveToFront n c =
     c\<lparr>lc_list := filter (\<lambda>x. fst x = n) (lc_list c) @ filter (\<lambda>x. fst x \<noteq> n) (lc_list c)\<rparr>"

definition evictLRU :: "local_cache \<Rightarrow> bool \<times> local_cache" where
  "evictLRU c =
     (if lc_list c = [] then (False, c)
      else (True, c\<lparr>lc_map := al_del (generateKey (e_id (snd (last (lc_list c))))) (lc_map c),
                    lc_list := butlast (lc_list c), lc_evictions := lc_evictions c + 1\<rparr>))"

text \<open>The \<open>while\<close> loop over the list: remaining list, map, statistics counter, result.\<close>

fun sweep ::
    "ticks \<Rightarrow> (nat \<times> cache_entry) list \<Rightarrow> (string \<times> nat) list \<Rightarrow> u64 \<Rightarrow> nat \<Rightarrow>
     (nat \<times> cache_entry) list \<times> (string \<times> nat) list \<times> u64 \<times> nat" where
  "sweep now [] m x r = ([], m, x, r)"
| "sweep now ((n, e) # l) m x r =
     (if isExpired now e then sweep now l (al_del (generateKey (e_id e)) m) (x + 1) (r + 1)
      else case sweep now l m x r of (l', rest) \<Rightarrow> ((n, e) # l', rest))"

definition removeExpiredEntries :: "ticks \<Rightarrow> local_cache \<Rightarrow> nat \<times> local_cache" where
  "removeExpiredEntries now c =
     (case sweep now (lc_list c) (lc_map c) (lc_expired c) 0 of
        (l, m, x, r) \<Rightarrow> (r, c\<lparr>lc_list := l, lc_map := m, lc_expired := x\<rparr>))"

definition cleanup_due :: "ticks \<Rightarrow> local_cache \<Rightarrow> bool" where
  "cleanup_due now c \<longleftrightarrow> 0 < lc_interval c \<and> lc_nextCleanup c \<le> now"

definition checkAndRunCleanup :: "ticks \<Rightarrow> ticks \<Rightarrow> local_cache \<Rightarrow> local_cache" where
  "checkAndRunCleanup now t_sweep c =
     (if cleanup_due now c
      then (snd (removeExpiredEntries t_sweep c))
             \<lparr>lc_lastCleanup := now, lc_nextCleanup := now + ms (lc_interval c)\<rparr>
      else c)"

definition calculateHitRate :: "local_cache \<Rightarrow> fp" where
  "calculateHitRate c =
     (let total = lc_hits c + lc_misses c
      in if total = 0 then Fin 0
         else dbl_div (f64 (of_int (uint (lc_hits c)))) (rnd64 (of_int (uint total))))"

section \<open>Public operations\<close>

definition contains ::
    "ticks \<Rightarrow> ticks \<Rightarrow> ticks \<Rightarrow> message_id \<Rightarrow> local_cache \<Rightarrow> (bool \<times> local_cache) option" where
  "contains t_check t_sweep t_entry mid c =
     (let c = checkAndRunCleanup t_check t_sweep c; key = generateKey mid
      in case map_of (lc_map c) key of
           None \<Rightarrow> Some (False, c\<lparr>lc_misses := lc_misses c + 1\<rparr>)
         | Some n \<Rightarrow>
             (case map_of (lc_list c) n of
                None \<Rightarrow> None
              | Some e \<Rightarrow>
                  if isExpired t_entry e
                  then Some (False,
                         c\<lparr>lc_list := al_del n (lc_list c), lc_map := al_del key (lc_map c),
                           lc_expired := lc_expired c + 1, lc_misses := lc_misses c + 1\<rparr>)
                  else Some (True, (moveToFront n c)\<lparr>lc_hits := lc_hits c + 1\<rparr>)))"

text \<open>The write through the iterator: the entry at node \<open>n\<close> gets a new expiry time.\<close>

definition set_expiry :: "nat \<Rightarrow> ticks \<Rightarrow> nat \<times> cache_entry \<Rightarrow> nat \<times> cache_entry" where
  "set_expiry n expiry x = (fst x, if fst x = n then (snd x)\<lparr>e_expiry := expiry\<rparr> else snd x)"

definition insert_until ::
    "ticks \<Rightarrow> ticks \<Rightarrow> ticks \<Rightarrow> message_id \<Rightarrow> ticks \<Rightarrow> local_cache \<Rightarrow> (bool \<times> local_cache) option" where
  "insert_until t_check t_sweep t_create mid expiry c =
     (let c = checkAndRunCleanup t_check t_sweep c; key = generateKey mid
      in case map_of (lc_map c) key of
           Some n \<Rightarrow>
             (case map_of (lc_list c) n of
                None \<Rightarrow> None
              | Some e \<Rightarrow>
                  Some (True, moveToFront n
                    (c\<lparr>lc_list := map (set_expiry n expiry) (lc_list c)\<rparr>)))
         | None \<Rightarrow>
             (let (ok, c) = (if lc_max c \<le> length (lc_list c) then evictLRU c else (True, c))
              in if \<not> ok then Some (False, c)
                 else Some (True,
                   c\<lparr>lc_list := (lc_fresh c, \<lparr>e_id = mid, e_expiry = expiry, e_created = t_create\<rparr>) # lc_list c,
                     lc_map := al_set key (lc_fresh c) (lc_map c), lc_fresh := lc_fresh c + 1,
                     lc_insertions := lc_insertions c + 1\<rparr>)))"

definition insert_now ::
    "ticks \<Rightarrow> ticks \<Rightarrow> ticks \<Rightarrow> ticks \<Rightarrow> message_id \<Rightarrow> local_cache \<Rightarrow> (bool \<times> local_cache) option" where
  "insert_now now t_check t_sweep t_create mid c =
     insert_until t_check t_sweep t_create mid (now + ms (lc_ttl c)) c"

definition remove :: "message_id \<Rightarrow> local_cache \<Rightarrow> (bool \<times> local_cache) option" where
  "remove mid c =
     (case map_of (lc_map c) (generateKey mid) of
        None \<Rightarrow> Some (False, c)
      | Some n \<Rightarrow>
          (case map_of (lc_list c) n of
             None \<Rightarrow> None
           | Some e \<Rightarrow>
               Some (True, c\<lparr>lc_list := al_del n (lc_list c),
                             lc_map := al_del (generateKey mid) (lc_map c)\<rparr>)))"

definition clear :: "local_cache \<Rightarrow> local_cache" where
  "clear c = c\<lparr>lc_list := [], lc_map := []\<rparr>"

definition cleanupExpired :: "ticks \<Rightarrow> local_cache \<Rightarrow> nat \<times> local_cache" where
  "cleanupExpired now c = removeExpiredEntries now c"

definition cache_size :: "local_cache \<Rightarrow> nat" where
  "cache_size c = length (lc_list c)"

definition effectiveSize :: "ticks \<Rightarrow> local_cache \<Rightarrow> nat" where
  "effectiveSize now c = length (filter (\<lambda>(n, e). \<not> isExpired now e) (lc_list c))"

definition isFull :: "local_cache \<Rightarrow> bool" where
  "isFull c \<longleftrightarrow> lc_max c \<le> length (lc_list c)"

definition resetStats :: "ticks \<Rightarrow> local_cache \<Rightarrow> local_cache" where
  "resetStats now c =
     c\<lparr>lc_hits := 0, lc_misses := 0, lc_insertions := 0, lc_evictions := 0, lc_expired := 0,
       lc_lastCleanup := now\<rparr>"

definition setCleanupInterval :: "int \<Rightarrow> ticks \<Rightarrow> local_cache \<Rightarrow> local_cache" where
  "setCleanupInterval interval now c =
     c\<lparr>lc_interval := interval,
       lc_nextCleanup := (if 0 < interval then now + ms interval else time_max)\<rparr>"

record cache_stats =
  cs_currentSize :: nat
  cs_maxSize :: nat
  cs_hits :: u64
  cs_misses :: u64
  cs_insertions :: u64
  cs_evictions :: u64
  cs_expiredRemovals :: u64
  cs_hitRate :: fp
  cs_lastCleanup :: ticks

definition getStats :: "local_cache \<Rightarrow> cache_stats" where
  "getStats c =
     \<lparr>cs_currentSize = length (lc_list c), cs_maxSize = lc_max c, cs_hits = lc_hits c,
      cs_misses = lc_misses c, cs_insertions = lc_insertions c, cs_evictions = lc_evictions c,
      cs_expiredRemovals = lc_expired c, cs_hitRate = calculateHitRate c,
      cs_lastCleanup = lc_lastCleanup c\<rparr>"

section \<open>The invariant\<close>

text \<open>
  Map and list hold the same entries: each node is reached by exactly the key of its message,
  no iterator dangles, and the list never exceeds the maximal size.
\<close>

definition linked :: "(nat \<times> cache_entry) list \<Rightarrow> (string \<times> nat) list \<Rightarrow> bool" where
  "linked l m \<longleftrightarrow>
     distinct (map fst l) \<and> distinct (map fst m) \<and> distinct (map (e_id \<circ> snd) l) \<and>
     set m = (\<lambda>x. (generateKey (e_id (snd x)), fst x)) ` set l"

definition cache_wf :: "local_cache \<Rightarrow> bool" where
  "cache_wf c \<longleftrightarrow>
     linked (lc_list c) (lc_map c) \<and> (\<forall>x \<in> set (lc_list c). fst x < lc_fresh c) \<and>
     length (lc_list c) \<le> lc_max c \<and> 0 < lc_max c"

lemma generateKey_inject [simp]: "generateKey a = generateKey b \<longleftrightarrow> a = b"
  by (cases a; cases b) (simp add: generateKey_def key_split_unique word_unat_eq_iff)

lemma linked_same_node:
  assumes "linked l m" "(n, e) \<in> set l" "x \<in> set l"
  shows "fst x = n \<longleftrightarrow> e_id (snd x) = e_id e"
proof -
  have "inj_on fst (set l)" "inj_on (e_id \<circ> snd) (set l)"
    using assms(1) by (simp_all add: linked_def distinct_map)
  from inj_onD [OF this(1), of x "(n, e)"] inj_onD [OF this(2), of x "(n, e)"] assms(2,3)
  show ?thesis by (cases x) auto
qed

lemma linked_lookup:
  assumes "linked l m"
  shows "map_of m (generateKey mid) = Some n \<longleftrightarrow> (\<exists>e. map_of l n = Some e \<and> e_id e = mid)"
proof -
  have "map_of m (generateKey mid) = Some n \<longleftrightarrow> (generateKey mid, n) \<in> set m"
    using assms by (simp add: linked_def)
  also have "\<dots> \<longleftrightarrow> (\<exists>e. (n, e) \<in> set l \<and> e_id e = mid)"
  proof -
    have "set m = (\<lambda>x. (generateKey (e_id (snd x)), fst x)) ` set l"
      using assms by (simp add: linked_def)
    then show ?thesis by (auto intro: rev_image_eqI [where x = "(n, e)" for e])
  qed
  also have "\<dots> \<longleftrightarrow> (\<exists>e. map_of l n = Some e \<and> e_id e = mid)"
    using assms by (simp add: linked_def)
  finally show ?thesis .
qed

lemma linked_absent:
  assumes "linked l m"
  shows "map_of m (generateKey mid) = None \<longleftrightarrow> mid \<notin> (e_id \<circ> snd) ` set l"
  using assms by (auto simp: linked_def map_of_eq_None_iff image_iff)

lemma linked_cong:
  assumes "linked l m" "distinct (map fst l')" "distinct (map (e_id \<circ> snd) l')" "set l' = set l"
  shows "linked l' m"
  using assms by (simp add: linked_def)

lemma linked_del:
  assumes "linked l m" "(n, e) \<in> set l"
  shows "linked (al_del n l) (al_del (generateKey (e_id e)) m)"
proof -
  have same: "fst x = n \<longleftrightarrow> e_id (snd x) = e_id e" if "x \<in> set l" for x
    using linked_same_node [OF assms that] .
  have "distinct (map fst (al_del n l))" "distinct (map (e_id \<circ> snd) (al_del n l))"
      "distinct (map fst (al_del (generateKey (e_id e)) m))"
    using assms(1) by (simp_all add: linked_def al_del_def distinct_map_filter)
  moreover have "set (al_del (generateKey (e_id e)) m) =
      (\<lambda>x. (generateKey (e_id (snd x)), fst x)) ` set (al_del n l)"
    using assms(1) same by (force simp: linked_def)
  ultimately show ?thesis by (simp add: linked_def)
qed

lemma linked_new:
  assumes "linked l m" "n \<notin> fst ` set l" "e_id e \<notin> (e_id \<circ> snd) ` set l"
  shows "linked ((n, e) # l) (al_set (generateKey (e_id e)) n m)"
proof -
  have "generateKey (e_id e) \<notin> fst ` set m"
    using assms(1,3) linked_absent [OF assms(1), of "e_id e"] by (simp add: map_of_eq_None_iff)
  then have "set (al_set (generateKey (e_id e)) n m) = insert (generateKey (e_id e), n) (set m)"
    by (simp add: al_set_new)
  with assms show ?thesis by (simp add: linked_def)
qed

lemma linked_butlast:
  assumes "linked l m" "l \<noteq> []"
  shows "linked (butlast l) (al_del (generateKey (e_id (snd (last l)))) m)"
proof -
  obtain n e where e: "last l = (n, e)" by (cases "last l")
  have l: "l = butlast l @ [(n, e)]" using assms(2) e by (metis append_butlast_last_id)
  have "distinct (map fst (butlast l @ [(n, e)]))"
    using assms(1) l by (simp add: linked_def del: map_append)
  then have "al_del n (butlast l @ [(n, e)]) = butlast l"
    by (simp add: al_del_absent)
  then have "al_del n l = butlast l" using l by simp
  moreover have "(n, e) \<in> set l" using assms(2) e by (metis last_in_set)
  ultimately show ?thesis using linked_del [OF assms(1)] e by fastforce
qed

lemma sweep_spec:
  assumes "linked (pre @ l) m"
  shows "\<exists>m'. sweep now l m x r =
      (filter (\<lambda>p. \<not> isExpired now (snd p)) l, m',
       x + of_nat (length (filter (\<lambda>p. isExpired now (snd p)) l)),
       r + length (filter (\<lambda>p. isExpired now (snd p)) l)) \<and>
    linked (pre @ filter (\<lambda>p. \<not> isExpired now (snd p)) l) m'"
  using assms
proof (induction l arbitrary: pre m x r)
  case (Cons p l)
  obtain n e where p: "p = (n, e)" by (cases p)
  show ?case
  proof (cases "isExpired now e")
    case True
    have "distinct (map fst (pre @ (n, e) # l))" using Cons.prems by (simp add: linked_def p)
    then have "al_del n (pre @ (n, e) # l) = pre @ l"
      by (auto simp: al_del_absent)
    with linked_del [OF Cons.prems, of n e] have "linked (pre @ l) (al_del (generateKey (e_id e)) m)"
      by (simp add: p)
    from Cons.IH [OF this, of "x + 1" "r + 1"] True show ?thesis by (auto simp: p algebra_simps)
  next
    case False
    from Cons.IH [of "pre @ [(n, e)]" m x r] Cons.prems False show ?thesis by (auto simp: p)
  qed
qed simp


section \<open>The abstract cache\<close>

text \<open>
  What the cache promises: a list of identifiers with their expiry times, most recently used
  first. \<open>lru_view\<close> is the abstraction function.
\<close>

type_synonym lru = "(message_id \<times> ticks) list"

definition lru_view :: "local_cache \<Rightarrow> lru" where
  "lru_view c = map (\<lambda>x. (e_id (snd x), e_expiry (snd x))) (lc_list c)"

definition lru_sweep :: "ticks \<Rightarrow> lru \<Rightarrow> lru" where
  "lru_sweep now v = filter (\<lambda>p. now \<le> snd p) v"

definition lru_contains :: "ticks \<Rightarrow> message_id \<Rightarrow> lru \<Rightarrow> bool \<times> lru" where
  "lru_contains now mid v =
     (case map_of v mid of
        None \<Rightarrow> (False, v)
      | Some x \<Rightarrow> if x < now then (False, al_del mid v) else (True, (mid, x) # al_del mid v))"

definition lru_insert :: "nat \<Rightarrow> message_id \<Rightarrow> ticks \<Rightarrow> lru \<Rightarrow> lru" where
  "lru_insert sz mid x v =
     (if mid \<in> fst ` set v then (mid, x) # al_del mid v else (mid, x) # take (sz - 1) v)"

lemma lru_view_sel [simp]:
  "length (lru_view c) = length (lc_list c)"
  "fst ` set (lru_view c) = (e_id \<circ> snd) ` set (lc_list c)"
  "map fst (lru_view c) = map (e_id \<circ> snd) (lc_list c)"
  by (simp_all add: lru_view_def image_image comp_def)

lemma cache_wf_linked: "cache_wf c \<Longrightarrow> linked (lc_list c) (lc_map c)"
  by (simp add: cache_wf_def)

lemma view_al_del:
  assumes "linked l m" "(n, e) \<in> set l"
  shows "map (\<lambda>x. (e_id (snd x), e_expiry (snd x))) (al_del n l) =
    al_del (e_id e) (map (\<lambda>x. (e_id (snd x), e_expiry (snd x))) l)"
proof -
  have "filter (\<lambda>x. fst x \<noteq> n) l = filter (\<lambda>x. e_id (snd x) \<noteq> e_id e) l"
    using linked_same_node [OF assms] by (intro filter_cong) auto
  then show ?thesis by (simp add: al_del_def filter_map comp_def)
qed

lemma view_map_of:
  assumes "linked l m" "(n, e) \<in> set l"
  shows "map_of (map (\<lambda>x. (e_id (snd x), e_expiry (snd x))) l) (e_id e) = Some (e_expiry e)"
proof (rule map_of_is_SomeI)
  show "distinct (map fst (map (\<lambda>x. (e_id (snd x), e_expiry (snd x))) l))"
    using assms(1) by (simp add: linked_def comp_def)
qed (use assms(2) in force)

subsection \<open>Sweeping\<close>

lemma removeExpired_spec:
  assumes "cache_wf c"
  shows "cache_wf (snd (removeExpiredEntries now c)) \<and>
    lru_view (snd (removeExpiredEntries now c)) = lru_sweep now (lru_view c) \<and>
    fst (removeExpiredEntries now c) + length (lru_sweep now (lru_view c)) = length (lru_view c)"
proof -
  let ?l = "filter (\<lambda>p. \<not> isExpired now (snd p)) (lc_list c)"
  let ?k = "length (filter (\<lambda>p. isExpired now (snd p)) (lc_list c))"
  from sweep_spec [of "[]" "lc_list c" "lc_map c" now "lc_expired c" 0] assms
  obtain m' where m: "sweep now (lc_list c) (lc_map c) (lc_expired c) 0 = (?l, m', lc_expired c + of_nat ?k, ?k)"
      "linked ?l m'"
    by (auto simp: cache_wf_def)
  have "length ?l \<le> lc_max c"
    using assms le_trans [OF length_filter_le] by (auto simp: cache_wf_def)
  with m assms have "cache_wf (snd (removeExpiredEntries now c))"
    by (auto simp: removeExpiredEntries_def cache_wf_def)
  moreover have "lru_view (snd (removeExpiredEntries now c)) = lru_sweep now (lru_view c)"
    by (simp add: removeExpiredEntries_def m lru_view_def lru_sweep_def filter_map comp_def
        isExpired_def not_less)
  moreover have "length (lru_sweep now (lru_view c)) = length ?l"
    by (simp add: lru_view_def lru_sweep_def filter_map comp_def isExpired_def not_less)
  ultimately show ?thesis
    by (simp add: removeExpiredEntries_def m sum_length_filter_compl)
qed

lemma removeExpired_frame [simp]:
  "lc_max (snd (removeExpiredEntries now c)) = lc_max c"
  "lc_ttl (snd (removeExpiredEntries now c)) = lc_ttl c"
  "lc_fresh (snd (removeExpiredEntries now c)) = lc_fresh c"
  "lc_interval (snd (removeExpiredEntries now c)) = lc_interval c"
  "lc_hits (snd (removeExpiredEntries now c)) = lc_hits c"
  "lc_misses (snd (removeExpiredEntries now c)) = lc_misses c"
  by (simp_all add: removeExpiredEntries_def split: prod.splits)

lemma checkAndRunCleanup_spec:
  assumes "cache_wf c"
  shows "cache_wf (checkAndRunCleanup t ts c)"
    "lru_view (checkAndRunCleanup t ts c) =
       (if cleanup_due t c then lru_sweep ts (lru_view c) else lru_view c)"
    "lc_max (checkAndRunCleanup t ts c) = lc_max c"
  using assms removeExpired_spec [OF assms, of ts]
  by (auto simp: checkAndRunCleanup_def cache_wf_def lru_view_def)

subsection \<open>Moving, removing and adding nodes\<close>

lemma moveToFront_spec:
  assumes "cache_wf c" "(n, e) \<in> set (lc_list c)"
  shows "cache_wf (moveToFront n c)"
    "lru_view (moveToFront n c) = (e_id e, e_expiry e) # al_del (e_id e) (lru_view c)"
proof -
  have l: "linked (lc_list c) (lc_map c)" using assms(1) by (rule cache_wf_linked)
  have one: "filter (\<lambda>x. fst x = n) (lc_list c) = [(n, e)]"
  proof -
    obtain xs ys where xs: "lc_list c = xs @ (n, e) # ys" using split_list [OF assms(2)] by blast
    with l have "n \<notin> fst ` set xs" "n \<notin> fst ` set ys" by (auto simp: linked_def)
    then have "filter (\<lambda>x. fst x = n) xs = []" "filter (\<lambda>x. fst x = n) ys = []"
      by (auto simp: filter_empty_conv)
    then show ?thesis by (simp add: xs)
  qed
  then have list: "lc_list (moveToFront n c) = (n, e) # al_del n (lc_list c)"
    by (simp add: moveToFront_def al_del_def)
  have "mset (lc_list (moveToFront n c)) = mset (lc_list c)"
    by (simp add: moveToFront_def flip: multiset_partition)
  then have same: "set (lc_list (moveToFront n c)) = set (lc_list c)"
      "length (lc_list (moveToFront n c)) = length (lc_list c)"
      "mset (map fst (lc_list (moveToFront n c))) = mset (map fst (lc_list c))"
      "mset (map (e_id \<circ> snd) (lc_list (moveToFront n c))) = mset (map (e_id \<circ> snd) (lc_list c))"
    by (metis mset_eq_setD mset_eq_length mset_map)+
  have "linked (lc_list (moveToFront n c)) (lc_map c)"
    using l same mset_eq_imp_distinct_iff [OF same(3)] mset_eq_imp_distinct_iff [OF same(4)]
    by (intro linked_cong [OF l]) (simp_all add: linked_def)
  with assms(1) same show "cache_wf (moveToFront n c)"
    by (simp add: cache_wf_def) (simp add: moveToFront_def)
  show "lru_view (moveToFront n c) = (e_id e, e_expiry e) # al_del (e_id e) (lru_view c)"
    using view_al_del [OF l assms(2)] by (simp add: lru_view_def list)
qed

lemma cache_lookup:
  assumes "cache_wf c"
  obtains (absent) "map_of (lc_map c) (generateKey mid) = None" "mid \<notin> fst ` set (lru_view c)"
      "map_of (lru_view c) mid = None"
  | (present) n e where "map_of (lc_map c) (generateKey mid) = Some n" "map_of (lc_list c) n = Some e"
      "(n, e) \<in> set (lc_list c)" "e_id e = mid" "map_of (lru_view c) mid = Some (e_expiry e)"
      "mid \<in> fst ` set (lru_view c)"
proof (cases "map_of (lc_map c) (generateKey mid)")
  case None
  with linked_absent [OF cache_wf_linked [OF assms], of mid] absent show thesis
    by (simp add: map_of_eq_None_iff)
next
  case (Some n)
  with linked_lookup [OF cache_wf_linked [OF assms], of mid n]
  obtain e where e: "map_of (lc_list c) n = Some e" "e_id e = mid" by auto
  then have "(n, e) \<in> set (lc_list c)" by (simp add: map_of_SomeD)
  with view_map_of [OF cache_wf_linked [OF assms] this] Some e present show thesis
    unfolding lru_view_sel by (force simp: lru_view_def)
qed


subsection \<open>The public operations\<close>

text \<open>The view an operation works on, after the automatic cleanup.\<close>

definition swept_view :: "ticks \<Rightarrow> ticks \<Rightarrow> local_cache \<Rightarrow> lru" where
  "swept_view t ts c = (if cleanup_due t c then lru_sweep ts (lru_view c) else lru_view c)"

lemma contains_spec:
  assumes "cache_wf c"
  shows "\<exists>c'. contains t ts te mid c = Some (fst (lru_contains te mid (swept_view t ts c)), c') \<and>
    cache_wf c' \<and> lc_max c' = lc_max c \<and>
    lru_view c' = snd (lru_contains te mid (swept_view t ts c))"
proof -
  define d where "d = checkAndRunCleanup t ts c"
  have d: "cache_wf d" "lru_view d = swept_view t ts c" "lc_max d = lc_max c"
    using checkAndRunCleanup_spec [OF assms] by (simp_all add: d_def swept_view_def)
  from d(1) show ?thesis
  proof (cases rule: cache_lookup [where mid = mid])
    case absent
    then show ?thesis
      using d by (simp add: contains_def lru_contains_def cache_wf_def lru_view_def flip: d_def)
  next
    case (present n e)
    show ?thesis
    proof (cases "isExpired te e")
      case True
      let ?c = "d\<lparr>lc_list := al_del n (lc_list d), lc_map := al_del (generateKey mid) (lc_map d),
        lc_expired := lc_expired d + 1, lc_misses := lc_misses d + 1\<rparr>"
      have "linked (al_del n (lc_list d)) (al_del (generateKey mid) (lc_map d))"
        using linked_del [OF cache_wf_linked [OF d(1)] present(3)] present(4) by simp
      then have "cache_wf ?c"
        using d(1) le_trans [OF length_filter_le] by (auto simp: cache_wf_def al_del_def)
      moreover have "lru_view ?c = al_del mid (lru_view d)"
        using view_al_del [OF cache_wf_linked [OF d(1)] present(3)] present(4)
        by (simp add: lru_view_def)
      ultimately show ?thesis
        using True present d by (simp add: contains_def lru_contains_def isExpired_def flip: d_def)
    next
      case False
      from moveToFront_spec [OF d(1) present(3)]
      have "cache_wf ((moveToFront n d)\<lparr>lc_hits := lc_hits d + 1\<rparr>)"
        "lru_view ((moveToFront n d)\<lparr>lc_hits := lc_hits d + 1\<rparr>) = (mid, e_expiry e) # al_del mid (lru_view d)"
        by (simp_all add: cache_wf_def lru_view_def present(4))
      moreover have "lc_hits (moveToFront n d) = lc_hits d" "lc_max (moveToFront n d) = lc_max d"
        by (simp_all add: moveToFront_def)
      ultimately show ?thesis
        using False present d by (simp add: contains_def lru_contains_def isExpired_def flip: d_def)
    qed
  qed
qed

lemma update_expiry_spec:
  fixes t :: ticks
  assumes "cache_wf c" "(n, e) \<in> set (lc_list c)"
  defines "c' \<equiv> c\<lparr>lc_list := map (set_expiry n t) (lc_list c)\<rparr>"
  shows "cache_wf c'" "(n, e\<lparr>e_expiry := t\<rparr>) \<in> set (lc_list c')"
    "al_del (e_id e) (lru_view c') = al_del (e_id e) (lru_view c)"
proof -
  let ?f = "set_expiry n t"
  have keep: "fst (?f x) = fst x" "e_id (snd (?f x)) = e_id (snd x)" for x
    by (simp_all add: set_expiry_def)
  have "map fst (map ?f l) = map fst l" "map (e_id \<circ> snd) (map ?f l) = map (e_id \<circ> snd) l" for l
    using keep by (simp_all add: comp_def)
  moreover have "(\<lambda>x. (generateKey (e_id (snd x)), fst x)) ` set (map ?f l) =
      (\<lambda>x. (generateKey (e_id (snd x)), fst x)) ` set l" for l
    using keep by (simp add: image_image)
  moreover have "fst ` set (map ?f l) = fst ` set l" for l
    using keep by (simp add: image_image)
  ultimately show "cache_wf c'"
    using assms(1) unfolding cache_wf_def linked_def c'_def by (simp del: map_map set_map) auto
  show "(n, e\<lparr>e_expiry := t\<rparr>) \<in> set (lc_list c')"
    using assms(2) by (force simp: c'_def set_expiry_def)
  have "fst x = n \<longleftrightarrow> e_id (snd x) = e_id e" if "x \<in> set (lc_list c)" for x
    using linked_same_node [OF cache_wf_linked [OF assms(1)] assms(2) that] .
  then have "al_del (e_id e) (map (\<lambda>x. (e_id (snd (?f x)), e_expiry (snd (?f x)))) l) =
      al_del (e_id e) (map (\<lambda>x. (e_id (snd x), e_expiry (snd x))) l)"
    if "set l \<subseteq> set (lc_list c)" for l
    using that by (induction l) (auto simp: set_expiry_def split: prod.splits)
  then show "al_del (e_id e) (lru_view c') = al_del (e_id e) (lru_view c)"
    by (simp add: lru_view_def c'_def comp_def)
qed

lemma insert_spec:
  assumes "cache_wf c"
  shows "\<exists>c'. insert_until t ts tn mid x c = Some (True, c') \<and> cache_wf c' \<and> lc_max c' = lc_max c \<and>
    lru_view c' = lru_insert (lc_max c) mid x (swept_view t ts c)"
proof -
  define d where "d = checkAndRunCleanup t ts c"
  have d: "cache_wf d" "lru_view d = swept_view t ts c" "lc_max d = lc_max c"
    using checkAndRunCleanup_spec [OF assms] by (simp_all add: d_def swept_view_def)
  from d(1) show ?thesis
  proof (cases rule: cache_lookup [where mid = mid])
    case (present n e)
    let ?u = "d\<lparr>lc_list := map (set_expiry n x) (lc_list d)\<rparr>"
    note u = update_expiry_spec [OF d(1) present(3), of x]
    from moveToFront_spec [OF u(1,2)] u(3) have "cache_wf (moveToFront n ?u)"
      "lru_view (moveToFront n ?u) = (mid, x) # al_del mid (lru_view d)"
      by (simp_all add: present(4))
    moreover have "lc_max (moveToFront n ?u) = lc_max d" by (simp add: moveToFront_def)
    ultimately show ?thesis
      using present d by (simp add: insert_until_def lru_insert_def flip: d_def)
  next
    case absent
    define f where "f = snd (if lc_max d \<le> length (lc_list d) then evictLRU d else (True, d))"
    have ne: "lc_list d \<noteq> []" if "lc_max d \<le> length (lc_list d)"
      using d(1) that by (auto simp: cache_wf_def)
    then have ok: "(if lc_max d \<le> length (lc_list d) then evictLRU d else (True, d)) = (True, f)"
      by (simp add: f_def evictLRU_def)
    have f: "cache_wf f" "lc_max f = lc_max d" "lru_view f = take (lc_max d - 1) (lru_view d)"
      "length (lc_list f) < lc_max f"
    proof -
      have len: "length (lc_list d) \<le> lc_max d" "0 < lc_max d" using d(1) by (simp_all add: cache_wf_def)
      show "cache_wf f"
        using d(1) linked_butlast [OF cache_wf_linked [OF d(1)] ne]
        by (auto simp: f_def evictLRU_def cache_wf_def dest: in_set_butlastD)
      show "lc_max f = lc_max d" by (simp add: f_def evictLRU_def)
      show "lru_view f = take (lc_max d - 1) (lru_view d)"
        using len by (auto simp: f_def evictLRU_def lru_view_def map_butlast butlast_conv_take take_map)
      show "length (lc_list f) < lc_max f"
        using len by (auto simp: f_def evictLRU_def)
    qed
    have "fst ` set (lru_view f) \<subseteq> fst ` set (lru_view d)"
      unfolding f(3) by (intro image_mono set_take_subset)
    with absent(2) have "mid \<notin> fst ` set (lru_view f)" by blast
    then have new: "mid \<notin> (e_id \<circ> snd) ` set (lc_list f)" unfolding lru_view_sel .
    let ?e = "\<lparr>e_id = mid, e_expiry = x, e_created = tn\<rparr>"
    let ?c = "f\<lparr>lc_list := (lc_fresh f, ?e) # lc_list f,
      lc_map := al_set (generateKey mid) (lc_fresh f) (lc_map f), lc_fresh := lc_fresh f + 1,
      lc_insertions := lc_insertions f + 1\<rparr>"
    have "lc_fresh f \<notin> fst ` set (lc_list f)" using f(1) by (auto simp: cache_wf_def)
    from linked_new [OF cache_wf_linked [OF f(1)] this, of ?e] new
    have "cache_wf ?c" using f by (auto simp: cache_wf_def)
    moreover have "lru_view ?c = (mid, x) # lru_view f" by (simp add: lru_view_def)
    moreover have "insert_until t ts tn mid x c = Some (True, ?c)"
      by (simp only: insert_until_def Let_def d_def [symmetric] absent(1) option.case ok prod.case
          simp_thms if_False)
    ultimately show ?thesis
      using absent(2) d f by (simp add: lru_insert_def)
  qed
qed

lemma remove_spec:
  assumes "cache_wf c"
  shows "\<exists>c'. remove mid c = Some (mid \<in> fst ` set (lru_view c), c') \<and> cache_wf c' \<and>
    lc_max c' = lc_max c \<and> lru_view c' = al_del mid (lru_view c)"
  using assms
proof (cases rule: cache_lookup [where mid = mid])
  case absent
  with assms show ?thesis by (simp add: remove_def al_del_absent)
next
  case (present n e)
  let ?c = "c\<lparr>lc_list := al_del n (lc_list c), lc_map := al_del (generateKey mid) (lc_map c)\<rparr>"
  have "linked (al_del n (lc_list c)) (al_del (generateKey mid) (lc_map c))"
    using linked_del [OF cache_wf_linked [OF assms] present(3)] present(4) by simp
  then have "cache_wf ?c"
    using assms le_trans [OF length_filter_le] by (auto simp: cache_wf_def al_del_def)
  moreover have "lru_view ?c = al_del mid (lru_view c)"
    using view_al_del [OF cache_wf_linked [OF assms] present(3)] present(4)
    by (simp add: lru_view_def)
  ultimately show ?thesis using present by (simp add: remove_def)
qed


section \<open>Runs\<close>

text \<open>Calls of the cache's operations with the clock readings they make.\<close>

datatype cache_op =
    Op_contains ticks ticks ticks message_id
  | Op_insert ticks ticks ticks ticks message_id
  | Op_insert_until ticks ticks ticks message_id ticks
  | Op_remove message_id
  | Op_clear
  | Op_cleanup ticks
  | Op_resetStats ticks
  | Op_setInterval int ticks

fun cache_step :: "cache_op \<Rightarrow> local_cache \<Rightarrow> (bool \<times> local_cache) option" where
  "cache_step (Op_contains t ts te mid) c = contains t ts te mid c"
| "cache_step (Op_insert t0 t ts tn mid) c = insert_now t0 t ts tn mid c"
| "cache_step (Op_insert_until t ts tn mid x) c = insert_until t ts tn mid x c"
| "cache_step (Op_remove mid) c = remove mid c"
| "cache_step Op_clear c = Some (True, clear c)"
| "cache_step (Op_cleanup t) c = Some (True, snd (cleanupExpired t c))"
| "cache_step (Op_resetStats t) c = Some (True, resetStats t c)"
| "cache_step (Op_setInterval d t) c = Some (True, setCleanupInterval d t c)"

fun run_ops :: "('o \<Rightarrow> 's \<Rightarrow> (bool \<times> 's) option) \<Rightarrow> 'o list \<Rightarrow> 's \<Rightarrow> (bool list \<times> 's) option" where
  "run_ops step [] s = Some ([], s)"
| "run_ops step (a # as) s =
     (case step a s of
        None \<Rightarrow> None
      | Some (b, s') \<Rightarrow>
          (case run_ops step as s' of None \<Rightarrow> None | Some (bs, s'') \<Rightarrow> Some (b # bs, s'')))"

text \<open>The abstract cache under the same calls.\<close>

record lru_state =
  l_max :: nat
  l_ttl :: int
  l_interval :: int
  l_next :: ticks
  l_entries :: lru

definition cache_abs :: "local_cache \<Rightarrow> lru_state" where
  "cache_abs c =
     \<lparr>l_max = lc_max c, l_ttl = lc_ttl c, l_interval = lc_interval c, l_next = lc_nextCleanup c,
      l_entries = lru_view c\<rparr>"

definition lru_auto :: "ticks \<Rightarrow> ticks \<Rightarrow> lru_state \<Rightarrow> lru_state" where
  "lru_auto t ts s =
     (if 0 < l_interval s \<and> l_next s \<le> t
      then s\<lparr>l_entries := lru_sweep ts (l_entries s), l_next := t + ms (l_interval s)\<rparr> else s)"

fun lru_step :: "cache_op \<Rightarrow> lru_state \<Rightarrow> bool \<times> lru_state" where
  "lru_step (Op_contains t ts te mid) s =
     (let s = lru_auto t ts s; (b, v) = lru_contains te mid (l_entries s) in (b, s\<lparr>l_entries := v\<rparr>))"
| "lru_step (Op_insert t0 t ts tn mid) s =
     (let s = lru_auto t ts s
      in (True, s\<lparr>l_entries := lru_insert (l_max s) mid (t0 + ms (l_ttl s)) (l_entries s)\<rparr>))"
| "lru_step (Op_insert_until t ts tn mid x) s =
     (let s = lru_auto t ts s
      in (True, s\<lparr>l_entries := lru_insert (l_max s) mid x (l_entries s)\<rparr>))"
| "lru_step (Op_remove mid) s =
     (mid \<in> fst ` set (l_entries s), s\<lparr>l_entries := al_del mid (l_entries s)\<rparr>)"
| "lru_step Op_clear s = (True, s\<lparr>l_entries := []\<rparr>)"
| "lru_step (Op_cleanup t) s = (True, s\<lparr>l_entries := lru_sweep t (l_entries s)\<rparr>)"
| "lru_step (Op_resetStats t) s = (True, s)"
| "lru_step (Op_setInterval d t) s =
     (True, s\<lparr>l_interval := d, l_next := (if 0 < d then t + ms d else time_max)\<rparr>)"

definition same_settings :: "local_cache \<Rightarrow> local_cache \<Rightarrow> bool" where
  "same_settings c d \<longleftrightarrow>
     lc_ttl c = lc_ttl d \<and> lc_interval c = lc_interval d \<and> lc_nextCleanup c = lc_nextCleanup d"

lemma settings_frame:
  "contains t ts te mid c = Some (b, c') \<Longrightarrow> same_settings c' (checkAndRunCleanup t ts c)"
  "insert_until t ts tn mid x c = Some (b, c') \<Longrightarrow> same_settings c' (checkAndRunCleanup t ts c)"
  "remove mid c = Some (b, c') \<Longrightarrow> same_settings c' c"
  by (auto simp: contains_def insert_until_def remove_def moveToFront_def evictLRU_def
      same_settings_def Let_def split: option.splits if_splits)

lemma removeExpired_next [simp]:
  "lc_nextCleanup (snd (removeExpiredEntries now c)) = lc_nextCleanup c"
  by (simp add: removeExpiredEntries_def split: prod.splits)

lemma lru_auto_abs:
  assumes "cache_wf c"
  shows "cache_abs (checkAndRunCleanup t ts c) = lru_auto t ts (cache_abs c)"
  using checkAndRunCleanup_spec [OF assms, of t ts]
  by (auto simp: cache_abs_def lru_auto_def cleanup_due_def checkAndRunCleanup_def)

lemma abs_eqI:
  assumes "same_settings c' (checkAndRunCleanup t ts c)" "lc_max c' = lc_max c" "cache_wf c"
  shows "cache_abs c' = (lru_auto t ts (cache_abs c))\<lparr>l_entries := lru_view c'\<rparr>"
  using assms checkAndRunCleanup_spec(3) [OF assms(3), of t ts]
  unfolding lru_auto_abs [OF assms(3), symmetric] by (simp add: cache_abs_def same_settings_def)

lemma l_entries_auto:
  "cache_wf c \<Longrightarrow> l_entries (lru_auto t ts (cache_abs c)) = swept_view t ts c"
  "l_max (lru_auto t ts s) = l_max s" "l_ttl (lru_auto t ts s) = l_ttl s"
  by (simp_all add: lru_auto_def cache_abs_def swept_view_def cleanup_due_def)

lemma cache_step_refines:
  assumes "cache_wf c"
  shows "\<exists>c'. cache_step a c = Some (fst (lru_step a (cache_abs c)), c') \<and> cache_wf c' \<and>
    cache_abs c' = snd (lru_step a (cache_abs c))"
proof -
  have ins: "\<exists>c'. insert_until t ts tn mid x c = Some (True, c') \<and> cache_wf c' \<and>
      cache_abs c' = (lru_auto t ts (cache_abs c))
        \<lparr>l_entries := lru_insert (lc_max c) mid x (swept_view t ts c)\<rparr>" for t ts tn mid x
  proof -
    obtain c' where c': "insert_until t ts tn mid x c = Some (True, c')" "cache_wf c'"
        "lc_max c' = lc_max c" "lru_view c' = lru_insert (lc_max c) mid x (swept_view t ts c)"
      using insert_spec [OF assms] by blast
    from abs_eqI [OF settings_frame(2) [OF c'(1)] c'(3) assms] c' show ?thesis by simp
  qed
  show ?thesis
  proof (cases a)
    case (Op_contains t ts te mid)
    obtain c' where c': "contains t ts te mid c = Some (fst (lru_contains te mid (swept_view t ts c)), c')"
        "cache_wf c'" "lc_max c' = lc_max c" "lru_view c' = snd (lru_contains te mid (swept_view t ts c))"
      using contains_spec [OF assms] by blast
    from abs_eqI [OF settings_frame(1) [OF c'(1)] c'(3) assms] c' show ?thesis
      by (simp add: Op_contains Let_def l_entries_auto(1) [OF assms] l_entries_auto(2,3) split: prod.splits)
  next
    case (Op_insert t0 t ts tn mid)
    have "l_max (cache_abs c) = lc_max c" "l_ttl (cache_abs c) = lc_ttl c" by (simp_all add: cache_abs_def)
    with ins [of t ts tn mid "t0 + ms (lc_ttl c)"] show ?thesis
      by (simp add: Op_insert insert_now_def Let_def l_entries_auto(1) [OF assms] l_entries_auto(2,3))
  next
    case (Op_insert_until t ts tn mid x)
    have "l_max (cache_abs c) = lc_max c" by (simp add: cache_abs_def)
    with ins [of t ts tn mid x] show ?thesis
      by (simp add: Op_insert_until Let_def l_entries_auto(1) [OF assms] l_entries_auto(2,3))
  next
    case (Op_remove mid)
    obtain c' where c': "remove mid c = Some (mid \<in> fst ` set (lru_view c), c')" "cache_wf c'"
        "lc_max c' = lc_max c" "lru_view c' = al_del mid (lru_view c)"
      using remove_spec [OF assms] by blast
    with settings_frame(3) [OF c'(1)] show ?thesis
      by (simp add: Op_remove cache_abs_def same_settings_def del: lru_view_sel)
  next
    case Op_clear
    with assms show ?thesis by (simp add: clear_def cache_wf_def linked_def cache_abs_def lru_view_def)
  next
    case (Op_cleanup t)
    with removeExpired_spec [OF assms, of t] show ?thesis
      by (simp add: cleanupExpired_def cache_abs_def)
  next
    case (Op_resetStats t)
    with assms show ?thesis by (simp add: resetStats_def cache_wf_def cache_abs_def lru_view_def)
  next
    case (Op_setInterval d t)
    with assms show ?thesis by (simp add: setCleanupInterval_def cache_wf_def cache_abs_def lru_view_def)
  qed
qed

fun lru_run :: "cache_op list \<Rightarrow> lru_state \<Rightarrow> bool list \<times> lru_state" where
  "lru_run [] s = ([], s)"
| "lru_run (a # as) s =
     (let (b, s') = lru_step a s; (bs, s'') = lru_run as s' in (b # bs, s''))"

lemma run_ops_refines:
  assumes "cache_wf c"
  shows "\<exists>c'. run_ops cache_step as c = Some (fst (lru_run as (cache_abs c)), c') \<and> cache_wf c' \<and>
    cache_abs c' = snd (lru_run as (cache_abs c))"
  using assms
proof (induction as arbitrary: c)
  case (Cons a as)
  obtain c1 where c1: "cache_step a c = Some (fst (lru_step a (cache_abs c)), c1)" "cache_wf c1"
      "cache_abs c1 = snd (lru_step a (cache_abs c))"
    using cache_step_refines [OF Cons.prems] by blast
  from Cons.IH [OF c1(2)] c1 show ?case
    by (auto simp: Let_def split: prod.splits)
qed simp

lemma new_cache_wf: "new_cache sz ttl t = Inr c \<Longrightarrow> cache_wf c \<and> lc_max c = sz \<and> lru_view c = []"
  by (auto simp: new_cache_def cache_wf_def linked_def lru_view_def split: if_splits)

lemma lru_run_max: "l_max (snd (lru_run as s)) = l_max s"
proof (induction as arbitrary: s)
  case (Cons a as)
  have "l_max (snd (lru_step a s)) = l_max s"
    by (cases a) (simp_all add: Let_def lru_auto_def split: prod.splits)
  with Cons.IH [of "snd (lru_step a s)"] show ?case by (auto simp: Let_def split: prod.splits)
qed simp

text \<open>
  C3. The cache is an LRU map with expiry times: whatever sequence of operations runs on a new
  cache, with whatever clock readings, no iterator dangles (no operation is \<open>None\<close>), every answer
  is the one of the abstract cache, the final state represents the abstract one, and the
  maximal size is never exceeded.
\<close>

theorem cache_refines_lru:
  "case new_cache sz ttl t of
     Inl e \<Rightarrow> sz = 0
   | Inr c \<Rightarrow>
       (\<exists>c'. run_ops cache_step as c = Some (fst (lru_run as (cache_abs c)), c') \<and>
             cache_abs c' = snd (lru_run as (cache_abs c)) \<and> cache_wf c' \<and>
             length (lru_view c') \<le> sz)"
proof (cases "new_cache sz ttl t")
  case (Inl e)
  then show ?thesis by (simp add: new_cache_def split: if_splits)
next
  case (Inr c)
  note c = new_cache_wf [OF Inr]
  from c obtain c' where c': "run_ops cache_step as c = Some (fst (lru_run as (cache_abs c)), c')"
      "cache_wf c'" "cache_abs c' = snd (lru_run as (cache_abs c))"
    using run_ops_refines by blast
  have "lc_max c' = sz"
    using lru_run_max [of as "cache_abs c"] c unfolding c'(3) [symmetric] by (simp add: cache_abs_def)
  with c' have "length (lru_view c') \<le> sz" by (simp add: cache_wf_def)
  with Inr c' show ?thesis by simp
qed


subsection \<open>The interface its clients rely on\<close>

interpretation lc: duplicate_cache cache_wf "\<lambda>c. fst ` set (lru_view c)" contains insert_until
proof
  fix c :: local_cache and t ts te tn x mid
  assume wf: "cache_wf c"
  have sub: "fst ` set (swept_view t ts c) \<subseteq> fst ` set (lru_view c)" for t ts
    by (auto simp: swept_view_def lru_sweep_def simp del: lru_view_sel)
  have dist: "distinct (map fst (lru_view c))" if "cache_wf c" for c
    using cache_wf_linked [OF that] unfolding lru_view_sel linked_def by simp
  obtain c' where c': "contains t ts te mid c = Some (fst (lru_contains te mid (swept_view t ts c)), c')"
      "cache_wf c'" "lru_view c' = snd (lru_contains te mid (swept_view t ts c))"
    using contains_spec [OF wf] by blast
  then show "\<exists>b c'. contains t ts te mid c = Some (b, c')" by blast
  have shrink: "fst ` set (snd (lru_contains te mid (swept_view t ts c))) \<subseteq> fst ` set (swept_view t ts c)"
    and hit: "fst (lru_contains te mid (swept_view t ts c)) \<longrightarrow> mid \<in> fst ` set (swept_view t ts c)"
    by (auto simp: lru_contains_def rev_image_eqI dest!: map_of_SomeD split: option.splits if_splits)
  have "fst ` set (lru_view c') \<subseteq> fst ` set (lru_view c)"
    unfolding c'(3) by (rule order_trans [OF shrink sub])
  with hit sub [of t ts] c'(1,2)
  show "cache_wf c'' \<and> fst ` set (lru_view c'') \<subseteq> fst ` set (lru_view c) \<and>
      (b \<longrightarrow> mid \<in> fst ` set (lru_view c))"
    if "contains t ts te mid c = Some (b, c'')" for b c''
    using that by (metis Pair_inject option.inject subsetD)
  obtain d where d: "insert_until t ts tn mid x c = Some (True, d)" "cache_wf d"
      "lru_view d = lru_insert (lc_max c) mid x (swept_view t ts c)"
    using insert_spec [OF wf] by blast
  have "fst ` set (lru_view d) \<subseteq> insert mid (fst ` set (lru_view c))"
    using sub [of t ts] by (auto simp: d(3) lru_insert_def dest!: in_set_takeD simp del: lru_view_sel)
  moreover have "\<exists>e. contains t' ts' te' mid d = Some (True, e)" if "ts' \<le> x" "te' \<le> x" for t' ts' te'
  proof -
    have "map_of (swept_view t' ts' d) mid = Some x"
      using d(3) that(1) by (simp add: swept_view_def lru_sweep_def lru_insert_def)
    with contains_spec [OF d(2), of t' ts' te' mid] that(2) show ?thesis
      by (auto simp: lru_contains_def)
  qed
  ultimately show "\<exists>d. insert_until t ts tn mid x c = Some (True, d) \<and> cache_wf d \<and>
      fst ` set (lru_view d) \<subseteq> insert mid (fst ` set (lru_view c)) \<and>
      (\<forall>t' ts' te'. ts' \<le> x \<longrightarrow> te' \<le> x \<longrightarrow> (\<exists>e. contains t' ts' te' mid d = Some (True, e)))"
    using d by blast
qed

section \<open>Hits are genuine\<close>

fun insert_of :: "int \<Rightarrow> cache_op \<Rightarrow> (message_id \<times> ticks) list" where
  "insert_of ttl (Op_insert t0 t ts tn mid) = [(mid, t0 + ms ttl)]"
| "insert_of ttl (Op_insert_until t ts tn mid x) = [(mid, x)]"
| "insert_of ttl _ = []"

definition inserts :: "int \<Rightarrow> cache_op list \<Rightarrow> (message_id \<times> ticks) list" where
  "inserts ttl as = concat (map (insert_of ttl) as)"

lemma lru_step_entries:
  "set (l_entries (snd (lru_step a s))) \<subseteq> set (l_entries s) \<union> set (insert_of (l_ttl s) a)"
  by (cases a)
    (auto simp: Let_def lru_auto_def lru_sweep_def lru_contains_def lru_insert_def
      dest: in_set_takeD map_of_SomeD split: prod.splits option.splits if_splits)

lemma lru_step_ttl: "l_ttl (snd (lru_step a s)) = l_ttl s"
  by (cases a) (simp_all add: Let_def lru_auto_def split: prod.splits)

lemma lru_run_entries:
  "set (l_entries (snd (lru_run as s))) \<subseteq> set (l_entries s) \<union> set (inserts (l_ttl s) as)"
proof (induction as arbitrary: s)
  case (Cons a as)
  from Cons.IH [of "snd (lru_step a s)"] lru_step_entries [of a s]
  show ?case by (auto simp: Let_def inserts_def lru_step_ttl split: prod.splits)
qed (simp add: inserts_def)

lemma cache_abs_sel [simp]:
  "l_entries (cache_abs c) = lru_view c" "l_max (cache_abs c) = lc_max c" "l_ttl (cache_abs c) = lc_ttl c"
  by (simp_all add: cache_abs_def)

lemma new_cache_abs:
  "new_cache sz ttl t = Inr c \<Longrightarrow>
     cache_abs c = \<lparr>l_max = sz, l_ttl = ttl, l_interval = 300000, l_next = t + ms 300000, l_entries = []\<rparr>"
  by (auto simp: new_cache_def cache_abs_def lru_view_def split: if_splits)

text \<open>
  C18. The cache never reports a message it was not given: when \<open>contains\<close> answers true at some
  time, the same identifier was inserted before with an expiry time not yet passed.
\<close>

theorem hit_was_inserted:
  assumes "new_cache sz ttl t0 = Inr c0" "run_ops cache_step as c0 = Some (bs, c)"
    "contains t ts te mid c = Some (True, c')"
  shows "\<exists>x. te \<le> x \<and> (mid, x) \<in> set (inserts ttl as)"
proof -
  note wf = new_cache_wf [OF assms(1)]
  from run_ops_refines [of c0 as] wf assms(2)
  have c: "cache_wf c" "cache_abs c = snd (lru_run as (cache_abs c0))" by auto
  have "l_ttl (cache_abs c0) = ttl" "l_entries (cache_abs c0) = []"
    by (simp_all only: new_cache_abs [OF assms(1)] lru_state.simps)
  with lru_run_entries [of as "cache_abs c0"]
  have sub: "set (lru_view c) \<subseteq> set (inserts ttl as)" by (simp flip: c(2))
  from contains_spec [OF c(1), of t ts te mid] assms(3)
  have "fst (lru_contains te mid (swept_view t ts c))" by auto
  then obtain x where "map_of (swept_view t ts c) mid = Some x" "te \<le> x"
    by (auto simp: lru_contains_def split: option.splits if_splits)
  moreover from this have "(mid, x) \<in> set (lru_view c)"
    by (auto simp: swept_view_def lru_sweep_def dest!: map_of_SomeD split: if_splits)
  ultimately show ?thesis using sub by blast
qed

definition sample_id :: message_id where "sample_id = Message_Id ''123456789012345'' 7"


theorem hit_was_inserted_witness:
  "\<exists>c0 bs c c'. new_cache 2 60000 0 = Inr c0 \<and>
     run_ops cache_step [Op_insert 0 1 2 3 sample_id] c0 = Some (bs, c) \<and>
     contains 5 6 7 sample_id c = Some (True, c') \<and>
     (\<exists>x. 7 \<le> x \<and> (sample_id, x) \<in> set (inserts 60000 [Op_insert 0 1 2 3 sample_id]))"
proof -
  obtain c0 where c0: "new_cache 2 60000 0 = Inr c0" by (simp add: new_cache_def)
  note wf = new_cache_wf [OF c0]
  let ?as = "[Op_insert 0 1 2 3 sample_id]"
  obtain bs c where c: "run_ops cache_step ?as c0 = Some (bs, c)" "cache_wf c"
      "cache_abs c = snd (lru_run ?as (cache_abs c0))"
    using run_ops_refines [of c0 ?as] wf by blast
  have "cache_abs c = \<lparr>l_max = 2, l_ttl = 60000, l_interval = 300000, l_next = ms 300000,
      l_entries = [(sample_id, 60000000000)]\<rparr>"
    unfolding c(3) new_cache_abs [OF c0] by (simp add: lru_auto_def lru_insert_def)
  then have "swept_view 5 6 c = [(sample_id, 60000000000)]"
    by (simp add: swept_view_def cleanup_due_def cache_abs_def)
  with contains_spec [OF c(2), of 5 6 7 sample_id]
  obtain c' where c': "contains 5 6 7 sample_id c = Some (True, c')"
    by (auto simp: lru_contains_def)
  from hit_was_inserted [OF c0 c(1) this] c0 c(1) c' show ?thesis by blast
qed

section \<open>Recent entries are kept\<close>

text \<open>
  Operations that neither remove the entry \<open>(mid, x)\<close> nor happen after its expiry time.
\<close>

fun harmless :: "message_id \<Rightarrow> ticks \<Rightarrow> cache_op \<Rightarrow> bool" where
  "harmless mid x (Op_contains t ts te m) \<longleftrightarrow> ts \<le> x \<and> te \<le> x"
| "harmless mid x (Op_insert t0 t ts tn m) \<longleftrightarrow> ts \<le> x \<and> m \<noteq> mid"
| "harmless mid x (Op_insert_until t ts tn m y) \<longleftrightarrow> ts \<le> x \<and> m \<noteq> mid"
| "harmless mid x (Op_remove m) \<longleftrightarrow> m \<noteq> mid"
| "harmless mid x Op_clear \<longleftrightarrow> False"
| "harmless mid x (Op_cleanup t) \<longleftrightarrow> t \<le> x"
| "harmless mid x _ \<longleftrightarrow> True"

fun touched :: "cache_op \<Rightarrow> message_id list" where
  "touched (Op_contains t ts te m) = [m]"
| "touched (Op_insert t0 t ts tn m) = [m]"
| "touched (Op_insert_until t ts tn m y) = [m]"
| "touched _ = []"

definition kept :: "message_id \<Rightarrow> ticks \<Rightarrow> message_id set \<Rightarrow> lru \<Rightarrow> bool" where
  "kept mid x U v \<longleftrightarrow> (\<exists>pre post. v = pre @ (mid, x) # post \<and> fst ` set pre \<subseteq> U)"

lemma keptI: "v = pre @ (mid, x) # post \<Longrightarrow> fst ` set pre \<subseteq> U \<Longrightarrow> kept mid x U v"
  by (auto simp: kept_def)

lemma keptE:
  assumes "kept mid x U v"
  obtains pre post where "v = pre @ (mid, x) # post" "fst ` set pre \<subseteq> U"
  using assms by (auto simp: kept_def)

lemma kept_sweep:
  assumes "kept mid x U v" "now \<le> x"
  shows "kept mid x U (lru_sweep now v)"
proof -
  obtain pre post where v: "v = pre @ (mid, x) # post" "fst ` set pre \<subseteq> U" using assms(1) by (rule keptE)
  show ?thesis
    by (rule keptI [of _ "lru_sweep now pre" _ _ "lru_sweep now post"])
      (use v assms(2) in \<open>auto simp: lru_sweep_def\<close>)
qed

lemma kept_del:
  assumes "kept mid x U v" "m \<noteq> mid"
  shows "kept mid x U (al_del m v)"
proof -
  obtain pre post where v: "v = pre @ (mid, x) # post" "fst ` set pre \<subseteq> U" using assms(1) by (rule keptE)
  show ?thesis
    by (rule keptI [of _ "al_del m pre" _ _ "al_del m post"]) (use v assms(2) in auto)
qed

lemma kept_Cons: "kept mid x U v \<Longrightarrow> fst p \<in> U \<Longrightarrow> kept mid x U (p # v)"
  by (erule keptE, rule keptI [of _ "p # pre" for pre]) auto

lemma kept_front: "kept mid x U ((mid, x) # v)"
  by (rule keptI [of _ "[]"]) auto

lemma kept_lookup: "kept mid x U v \<Longrightarrow> distinct (map fst v) \<Longrightarrow> map_of v mid = Some x"
  by (auto elim!: keptE)

lemma kept_contains:
  assumes "kept mid x U v" "distinct (map fst v)" "te \<le> x" "m \<noteq> mid \<Longrightarrow> m \<in> U"
  shows "kept mid x U (snd (lru_contains te m v))"
proof (cases "m = mid")
  case True
  then show ?thesis
    using kept_lookup [OF assms(1,2)] assms(3) by (simp add: lru_contains_def kept_front)
next
  case False
  with assms show ?thesis
    by (auto simp: lru_contains_def kept_del kept_Cons split: option.splits)
qed

lemma kept_insert:
  assumes "kept mid x U v" "distinct (map fst v)" "m \<noteq> mid" "m \<in> U" "finite U" "card U < sz"
  shows "kept mid x U (lru_insert sz m y v)"
proof (cases "m \<in> fst ` set v")
  case True
  with assms show ?thesis by (simp add: lru_insert_def kept_del kept_Cons)
next
  case False
  obtain pre post where v: "v = pre @ (mid, x) # post" "fst ` set pre \<subseteq> U" using assms(1) by (rule keptE)
  have "distinct (m # map fst pre)" "set (m # map fst pre) \<subseteq> U"
    using assms(2,4) False v by auto
  then have "Suc (length pre) \<le> card U"
    using card_mono [OF assms(5), of "set (m # map fst pre)"] distinct_card [of "m # map fst pre"]
    by simp
  then have "length pre < sz - 1" using assms(6) by linarith
  then have "take (sz - 1) v = pre @ (mid, x) # take (sz - 1 - length pre - 1) post"
    by (simp add: v take_Cons')
  then have "kept mid x U (take (sz - 1) v)" using v(2) by (rule keptI)
  with False assms(4) show ?thesis by (simp add: lru_insert_def kept_Cons)
qed

lemma kept_step:
  assumes "kept mid x U (l_entries s)" "distinct (map fst (l_entries s))" "harmless mid x a"
    "set (touched a) - {mid} \<subseteq> U" "finite U" "card U < l_max s"
  shows "kept mid x U (l_entries (snd (lru_step a s)))"
proof -
  have auto: "kept mid x U (l_entries (lru_auto t ts s)) \<and> distinct (map fst (l_entries (lru_auto t ts s)))"
    if "ts \<le> x" for t ts
    using assms(1,2) that
    by (simp add: lru_auto_def kept_sweep) (simp add: lru_sweep_def distinct_map_filter)
  have hit: "kept mid x U v'"
    if "lru_contains te m (l_entries (lru_auto t ts s)) = (b, v')" "ts \<le> x" "te \<le> x" "m \<noteq> mid \<Longrightarrow> m \<in> U"
    for te m t ts b v'
    using kept_contains [of mid x U "l_entries (lru_auto t ts s)" te m] auto [of ts t] that by simp
  show ?thesis
    using assms(3-)
    by (cases a)
      (auto simp: Let_def auto kept_insert l_entries_auto(2) kept_del kept_sweep assms(1)
        split: prod.splits intro: hit)
qed

lemma kept_run:
  assumes "cache_wf c" "kept mid x U (lru_view c)" "list_all (harmless mid x) as"
    "set (concat (map touched as)) - {mid} \<subseteq> U" "finite U" "card U < lc_max c"
  shows "\<exists>bs c'. run_ops cache_step as c = Some (bs, c') \<and> cache_wf c' \<and> kept mid x U (lru_view c')"
  using assms
proof (induction as arbitrary: c)
  case (Cons a as)
  obtain c1 where c1: "cache_step a c = Some (fst (lru_step a (cache_abs c)), c1)" "cache_wf c1"
      "cache_abs c1 = snd (lru_step a (cache_abs c))"
    using cache_step_refines [OF Cons.prems(1)] by blast
  have "distinct (map fst (lru_view c))"
    using cache_wf_linked [OF Cons.prems(1)] unfolding lru_view_sel linked_def by simp
  then have "kept mid x U (lru_view c1)"
    using kept_step [of mid x U "cache_abs c" a] Cons.prems c1(3) [symmetric] by auto
  moreover have "lc_max c1 = lc_max c"
    using lru_run_max [of "[a]" "cache_abs c"] c1(3) [symmetric] by (simp split: prod.splits)
  ultimately obtain bs c' where "run_ops cache_step as c1 = Some (bs, c')" "cache_wf c'"
      "kept mid x U (lru_view c')"
    using Cons.IH [OF c1(2)] Cons.prems(3-) by auto
  with c1(1) show ?case by simp
qed simp

text \<open>
  C19. A message is remembered: after an insertion with expiry time \<open>x\<close>, \<open>contains\<close> still answers
  true at every time up to \<open>x\<close>, whatever calls came between, as long as the message was not
  removed or re-inserted, no sweep ran later than \<open>x\<close>, and fewer than the maximal number of
  other identifiers were touched.
\<close>

theorem insert_is_remembered:
  assumes "new_cache sz ttl t0 = Inr c0" "run_ops cache_step as c0 = Some (bs, c)"
    "insert_until t ts tn mid x c = Some (b, c1)" "list_all (harmless mid x) as'"
    "card (set (concat (map touched as')) - {mid}) < sz" "ts' \<le> x" "te \<le> x"
  shows "\<exists>bs' c2 c3. run_ops cache_step as' c1 = Some (bs', c2) \<and>
    contains t' ts' te mid c2 = Some (True, c3)"
proof -
  let ?U = "set (concat (map touched as')) - {mid}"
  note wf = new_cache_wf [OF assms(1)]
  from run_ops_refines [of c0 as] wf assms(2)
  have c: "cache_wf c" "cache_abs c = snd (lru_run as (cache_abs c0))" by auto
  have "lc_max c = sz"
    using lru_run_max [of as "cache_abs c0"] wf unfolding c(2) [symmetric] by simp
  with insert_spec [OF c(1), of t ts tn mid x] assms(3)
  have c1: "cache_wf c1" "lc_max c1 = sz" "lru_view c1 = lru_insert sz mid x (swept_view t ts c)"
    by auto
  then have "kept mid x ?U (lru_view c1)"
    by (simp add: lru_insert_def kept_front)
  from kept_run [OF c1(1) this assms(4)] assms(5) c1(2)
  obtain bs' c2 where c2: "run_ops cache_step as' c1 = Some (bs', c2)" "cache_wf c2"
      "kept mid x ?U (lru_view c2)" by auto
  have "kept mid x ?U (swept_view t' ts' c2)" "distinct (map fst (swept_view t' ts' c2))"
  proof -
    show "kept mid x ?U (swept_view t' ts' c2)"
      using c2(3) assms(6) by (simp add: swept_view_def kept_sweep)
    have "distinct (map fst (lru_view c2))"
      using cache_wf_linked [OF c2(2)] unfolding lru_view_sel linked_def by simp
    then show "distinct (map fst (swept_view t' ts' c2))"
      by (simp add: swept_view_def lru_sweep_def distinct_map_filter)
  qed
  from kept_lookup [OF this] assms(7) contains_spec [OF c2(2), of t' ts' te mid] c2(1)
  show ?thesis by (auto simp: lru_contains_def)
qed

theorem insert_is_remembered_witness:
  "\<exists>c0 c1 bs' c2 c3. new_cache 2 60000 0 = Inr c0 \<and>
     insert_until 1 2 3 sample_id 100 c0 = Some (True, c1) \<and>
     run_ops cache_step [Op_insert 4 5 6 7 (Message_Id ''1'' 1), Op_contains 8 9 10 (Message_Id ''1'' 1)] c1
       = Some (bs', c2) \<and>
     contains 11 12 100 sample_id c2 = Some (True, c3)"
proof -
  obtain c0 where c0: "new_cache 2 60000 0 = Inr c0" by (simp add: new_cache_def)
  note wf = new_cache_wf [OF c0]
  let ?as = "[Op_insert 4 5 6 7 (Message_Id ''1'' 1), Op_contains 8 9 10 (Message_Id ''1'' 1)]"
  obtain c1 where c1: "insert_until 1 2 3 sample_id 100 c0 = Some (True, c1)"
    using insert_spec [of c0 1 2 3 sample_id 100] wf by blast
  have "list_all (harmless sample_id 100) ?as" "card (set (concat (map touched ?as)) - {sample_id}) < 2"
    by (simp_all add: sample_id_def card_insert_if)
  from insert_is_remembered [OF c0 _ c1 this, of "[]" "[]" 12 100 11] c0 c1 show ?thesis by auto
qed


section \<open>The statistics add up\<close>

definition balanced :: "local_cache \<Rightarrow> bool" where
  "balanced c \<longleftrightarrow> of_nat (length (lc_list c)) = lc_insertions c - lc_evictions c - lc_expired c"

definition lookups :: "local_cache \<Rightarrow> u64" where
  "lookups c = lc_hits c + lc_misses c"

lemma length_al_del_node:
  assumes "linked l m" "(n, e) \<in> set l"
  shows "Suc (length (al_del n l)) = length l"
proof -
  obtain xs ys where l: "l = xs @ (n, e) # ys" using split_list [OF assms(2)] by blast
  with assms(1) have "n \<notin> fst ` set xs" "n \<notin> fst ` set ys" by (auto simp: linked_def)
  then show ?thesis by (simp add: l al_del_absent)
qed

lemma removeExpired_counts:
  assumes "cache_wf c" "balanced c"
  shows "balanced (snd (removeExpiredEntries now c))"
    "lookups (snd (removeExpiredEntries now c)) = lookups c"
proof -
  let ?p = "\<lambda>p. isExpired now (snd p)"
  from sweep_spec [of "[]" "lc_list c" "lc_map c" now "lc_expired c" 0] assms(1)
  obtain m' where m: "sweep now (lc_list c) (lc_map c) (lc_expired c) 0 =
      (filter (\<lambda>p. \<not> ?p p) (lc_list c), m', lc_expired c + of_nat (length (filter ?p (lc_list c))),
       length (filter ?p (lc_list c)))"
    by (auto simp: cache_wf_def)
  have "of_nat (length (filter (\<lambda>p. \<not> ?p p) (lc_list c))) + of_nat (length (filter ?p (lc_list c))) =
      (of_nat (length (lc_list c)) :: u64)"
    by (metis add.commute of_nat_add sum_length_filter_compl)
  then show "balanced (snd (removeExpiredEntries now c))"
    using assms(2) by (simp add: balanced_def removeExpiredEntries_def m algebra_simps)
  show "lookups (snd (removeExpiredEntries now c)) = lookups c"
    by (simp add: lookups_def)
qed

lemma cleanup_counts:
  assumes "cache_wf c" "balanced c"
  shows "balanced (checkAndRunCleanup t ts c)" "lookups (checkAndRunCleanup t ts c) = lookups c"
  using assms removeExpired_counts [OF assms]
  by (simp_all add: checkAndRunCleanup_def) (simp_all add: balanced_def lookups_def)

lemma moveToFront_counts [simp]:
  "length (lc_list (moveToFront n c)) = length (lc_list c)"
  "lc_insertions (moveToFront n c) = lc_insertions c" "lc_evictions (moveToFront n c) = lc_evictions c"
  "lc_expired (moveToFront n c) = lc_expired c" "lc_hits (moveToFront n c) = lc_hits c"
  "lc_misses (moveToFront n c) = lc_misses c"
  by (simp_all add: moveToFront_def sum_length_filter_compl)

lemma contains_counts:
  assumes "cache_wf c" "balanced c" "contains t ts te mid c = Some (b, c')"
  shows "balanced c' \<and> lookups c' = lookups c + 1"
proof -
  define d where "d = checkAndRunCleanup t ts c"
  have d: "cache_wf d" "balanced d" "lookups d = lookups c"
    using checkAndRunCleanup_spec(1) [OF assms(1)] cleanup_counts [OF assms(1,2)] by (simp_all add: d_def)
  from d(1) show ?thesis
  proof (cases rule: cache_lookup [where mid = mid])
    case absent
    with assms(3) d show ?thesis
      by (auto simp: contains_def balanced_def lookups_def simp flip: d_def)
  next
    case (present n e)
    have "of_nat (length (lc_list d)) = (of_nat (length (al_del n (lc_list d))) + 1 :: u64)"
      using length_al_del_node [OF cache_wf_linked [OF d(1)] present(3)] by (metis of_nat_Suc add.commute)
    then show ?thesis using assms(3) d present
      by (auto simp: contains_def balanced_def lookups_def algebra_simps
          simp flip: d_def split: if_splits)
  qed
qed

lemma insert_counts:
  assumes "cache_wf c" "balanced c" "insert_until t ts tn mid x c = Some (b, c')"
  shows "balanced c' \<and> lookups c' = lookups c"
proof -
  define d where "d = checkAndRunCleanup t ts c"
  have d: "cache_wf d" "balanced d" "lookups d = lookups c"
    using checkAndRunCleanup_spec(1) [OF assms(1)] cleanup_counts [OF assms(1,2)] by (simp_all add: d_def)
  from d(1) show ?thesis
  proof (cases rule: cache_lookup [where mid = mid])
    case (present n e)
    with assms(3) d present show ?thesis
      by (auto simp: insert_until_def balanced_def lookups_def simp flip: d_def)
  next
    case absent
    have "of_nat (length (lc_list d)) = (of_nat (length (butlast (lc_list d))) + 1 :: u64)"
      if "lc_list d \<noteq> []"
      using that by (metis Suc_pred' add.commute length_butlast length_greater_0_conv of_nat_Suc)
    moreover have "lc_list d \<noteq> []" if "lc_max d \<le> length (lc_list d)"
      using d(1) that by (auto simp: cache_wf_def)
    ultimately show ?thesis using assms(3) d absent
      by (auto simp: insert_until_def balanced_def lookups_def evictLRU_def algebra_simps
          simp flip: d_def split: if_splits)
  qed
qed

fun accountable :: "cache_op \<Rightarrow> bool" where
  "accountable (Op_remove mid) = False"
| "accountable Op_clear = False"
| "accountable (Op_resetStats t) = False"
| "accountable _ = True"

fun is_lookup :: "cache_op \<Rightarrow> bool" where
  "is_lookup (Op_contains t ts te mid) = True"
| "is_lookup _ = False"

lemma step_counts:
  assumes "cache_wf c" "balanced c" "accountable a" "cache_step a c = Some (b, c')"
  shows "balanced c' \<and> lookups c' = lookups c + (if is_lookup a then 1 else 0)"
  using assms contains_counts [OF assms(1,2)] insert_counts [OF assms(1,2)]
    removeExpired_counts [OF assms(1,2)]
  by (cases a) (auto simp: insert_now_def cleanupExpired_def setCleanupInterval_def balanced_def lookups_def)

lemma run_counts:
  assumes "cache_wf c" "balanced c" "list_all accountable as" "run_ops cache_step as c = Some (bs, c')"
  shows "balanced c' \<and> lookups c' = lookups c + of_nat (length (filter is_lookup as))"
  using assms
proof (induction as arbitrary: c bs)
  case (Cons a as)
  obtain b c1 bs1 where c1: "cache_step a c = Some (b, c1)" "run_ops cache_step as c1 = Some (bs1, c')"
    using Cons.prems(4) by (auto split: option.splits prod.splits)
  have "cache_wf c1" using cache_step_refines [OF Cons.prems(1), of a] c1(1) by auto
  from Cons.IH [OF this _ _ c1(2)] step_counts [OF Cons.prems(1,2) _ c1(1)] Cons.prems(3)
  show ?case by (auto simp: algebra_simps)
qed simp

text \<open>
  The statistics add up, modulo the width of their counters: after any sequence of lookups,
  insertions and cleanups on a new cache, the size is the number of insertions less evictions
  and expirations, and hits and misses together count the lookups.
\<close>

lemma cache_statistics:
  "case new_cache sz ttl t of
     Inl e \<Rightarrow> sz = 0
   | Inr c \<Rightarrow>
       (\<exists>bs c'. run_ops cache_step (filter accountable as) c = Some (bs, c') \<and>
          of_nat (cache_size c') = lc_insertions c' - lc_evictions c' - lc_expired c' \<and>
          lc_hits c' + lc_misses c' = of_nat (length (filter is_lookup (filter accountable as))))"
proof (cases "new_cache sz ttl t")
  case (Inl e)
  then show ?thesis by (simp add: new_cache_def split: if_splits)
next
  case (Inr c)
  have "cache_wf c" using new_cache_wf [OF Inr] by simp
  moreover have "balanced c" "lookups c = 0"
    using Inr by (auto simp: new_cache_def balanced_def lookups_def split: if_splits)
  moreover obtain c' where
      "run_ops cache_step (filter accountable as) c = Some (fst (lru_run (filter accountable as) (cache_abs c)), c')"
    using run_ops_refines [OF \<open>cache_wf c\<close>, of "filter accountable as"] by blast
  moreover have "list_all accountable (filter accountable as)" by (simp add: list_all_iff)
  ultimately have "balanced c' \<and> lookups c' = of_nat (length (filter is_lookup (filter accountable as)))"
    using run_counts by fastforce
  with Inr \<open>run_ops _ _ _ = _\<close> show ?thesis
    by (simp add: balanced_def lookups_def cache_size_def)
qed


end
