(* ===== verification/Deduplicator.thy ===== *)
theory Deduplicator
  imports Connection_Pool Local_Cache
begin

text \<open>
  \<open>redis_deduplication::Deduplicator\<close> (\<open>deduplicator.hpp\<close>, \<open>deduplicator.cpp\<close>): the local cache
  in front of the connection pool, the decision for each message, statistics and maintenance.
  A result \<open>None\<close> of an operation is undefined behaviour: a dangling list iterator in the cache
  or a null connection pool. Clocks are read from the environment of the pool; an operation of
  the cache takes all the readings it may need, those of untaken branches being unused.
\<close>

section \<open>State\<close>

record deduplicator =
  dd_config :: dedup_config
  dd_pool :: "conn_pool option"
  dd_cache :: "local_cache option"
  dd_initialized :: bool
  dd_shuttingDown :: bool
  dd_fallback :: bool
  dd_totalChecks :: u64
  dd_duplicatesFound :: u64
  dd_uniqueMessages :: u64
  dd_redisFailures :: u64
  dd_cacheHits :: u64
  dd_cacheMisses :: u64
  dd_recent :: "int list"
  dd_totalLatency :: int
  dd_maxLatency :: int
  dd_minLatency :: int
  dd_maintenanceRunning :: bool

definition micros_max :: int where "micros_max = 2 ^ 63 - 1"

definition new_deduplicator :: "dedup_config \<Rightarrow> deduplicator" where
  "new_deduplicator cfg =
     \<lparr>dd_config = cfg, dd_pool = None, dd_cache = None, dd_initialized = False,
      dd_shuttingDown = False, dd_fallback = enableLocalCacheFallback cfg, dd_totalChecks = 0,
      dd_duplicatesFound = 0, dd_uniqueMessages = 0, dd_redisFailures = 0, dd_cacheHits = 0,
      dd_cacheMisses = 0, dd_recent = [], dd_totalLatency = 0, dd_maxLatency = 0,
      dd_minLatency = micros_max, dd_maintenanceRunning = False\<rparr>"

section \<open>Life cycle\<close>

text \<open>The constructor of the cache throws on size 0, which \<open>initialize\<close> catches.\<close>

definition dedup_initialize :: "'w redis_env \<Rightarrow> deduplicator \<times> 'w \<Rightarrow> bool \<times> deduplicator \<times> 'w" where
  "dedup_initialize env = (\<lambda>(d, w).
     if dd_initialized d then (True, d, w)
     else
       let (now, w) = sys_now env w;
           (ok, p, w) = initialize env (new_pool (dd_config d) now, w);
           d = d\<lparr>dd_pool := Some p\<rparr>
       in if \<not> ok then (False, d, w)
          else
            let (now, w) = sys_now env w
            in case new_cache (localCacheSize (dd_config d)) (localCacheTtl (dd_config d)) now of
                 Inl e \<Rightarrow> (False, d, w)
               | Inr c \<Rightarrow>
                   (True, d\<lparr>dd_cache := Some c, dd_maintenanceRunning := True, dd_initialized := True\<rparr>, w))"

definition dedup_shutdown :: "'w redis_env \<Rightarrow> deduplicator \<times> 'w \<Rightarrow> deduplicator \<times> 'w" where
  "dedup_shutdown env = (\<lambda>(d, w).
     if \<not> dd_initialized d then (d, w)
     else
       let w = (case dd_pool d of Some p \<Rightarrow> snd (pool_shutdown env (p, w)) | None \<Rightarrow> w)
       in (d\<lparr>dd_shuttingDown := True, dd_maintenanceRunning := False, dd_pool := None,
             dd_cache := None, dd_initialized := False\<rparr>, w))"

section \<open>Checks\<close>

definition isValidMessageId :: "message_id \<Rightarrow> bool" where
  "isValidMessageId m =
     (if length (mi_imei m) \<noteq> 15 then False
      else if \<not> list_all is_digit (mi_imei m) then False
      else if mi_seq m = 0 \<or> 0xFFFFFF < mi_seq m then False
      else True)"

definition generateRedisKey :: "deduplicator \<Rightarrow> message_id \<Rightarrow> string" where
  "generateRedisKey d m = toRedisKey (keyPrefix (dd_config d)) m"

definition handleRedisFailure :: "deduplicator \<Rightarrow> deduplicator" where
  "handleRedisFailure d = d\<lparr>dd_redisFailures := dd_redisFailures d + 1\<rparr>"

text \<open>The connection goes back to the pool when its holder leaves scope.\<close>

definition checkWithRedis ::
    "'w redis_env \<Rightarrow> message_id \<Rightarrow> deduplicator \<times> 'w \<Rightarrow> (dedup_result \<times> deduplicator \<times> 'w) option" where
  "checkWithRedis env mid = (\<lambda>(d, w).
     case dd_pool d of
       None \<Rightarrow> None
     | Some p \<Rightarrow>
         (case getConnection env (p, w) of
            (None, p, w) \<Rightarrow> Some (R_ERROR, handleRedisFailure (d\<lparr>dd_pool := Some p\<rparr>), w)
          | (Some c, p, w) \<Rightarrow>
              let (wasUnique, c, w) =
                    setNX env (generateRedisKey d mid) (deduplicationWindow (dd_config d)) (c, w);
                  (p, w) = returnConnection env c (p, w)
              in Some (if wasUnique then R_UNIQUE else R_DUPLICATE, d\<lparr>dd_pool := Some p\<rparr>, w)))"

definition checkWithCache ::
    "'w redis_env \<Rightarrow> message_id \<Rightarrow> deduplicator \<times> 'w \<Rightarrow> (dedup_result \<times> deduplicator \<times> 'w) option" where
  "checkWithCache env mid = (\<lambda>(d, w).
     case dd_cache d of
       None \<Rightarrow> Some (R_CACHE_MISS, d, w)
     | Some c \<Rightarrow>
         let (t, w) = sys_now env w; (ts, w) = sys_now env w; (te, w) = sys_now env w
         in (case contains t ts te mid c of
               None \<Rightarrow> None
             | Some (True, c) \<Rightarrow> Some (R_DUPLICATE, d\<lparr>dd_cache := Some c\<rparr>, w)
             | Some (False, c) \<Rightarrow>
                 Some (R_CACHE_MISS, d\<lparr>dd_cache := Some c, dd_cacheMisses := dd_cacheMisses d + 1\<rparr>, w)))"

definition updateLocalCache ::
    "'w redis_env \<Rightarrow> message_id \<Rightarrow> deduplicator \<times> 'w \<Rightarrow> (deduplicator \<times> 'w) option" where
  "updateLocalCache env mid = (\<lambda>(d, w).
     if \<not> dd_fallback d then Some (d, w)
     else case dd_cache d of
            None \<Rightarrow> Some (d, w)
          | Some c \<Rightarrow>
              let (t0, w) = sys_now env w; (t, w) = sys_now env w; (ts, w) = sys_now env w;
                  (tn, w) = sys_now env w
              in (case insert_now t0 t ts tn mid c of
                    None \<Rightarrow> None
                  | Some (b, c) \<Rightarrow> Some (d\<lparr>dd_cache := Some c\<rparr>, w)))"

text \<open>\<open>duration_cast\<close> truncates toward zero.\<close>

definition to_micros :: "ticks \<Rightarrow> int" where
  "to_micros n = (if n < 0 then - ((- n) div 1000) else n div 1000)"

definition updateLatencyStats :: "int \<Rightarrow> deduplicator \<Rightarrow> deduplicator" where
  "updateLatencyStats l d =
     (let d = (if dd_maxLatency d < l then d\<lparr>dd_maxLatency := l\<rparr> else d);
          d = (if l < dd_minLatency d then d\<lparr>dd_minLatency := l\<rparr> else d);
          d = d\<lparr>dd_recent := dd_recent d @ [l], dd_totalLatency := dd_totalLatency d + l\<rparr>
      in if 1000 < length (dd_recent d)
         then d\<lparr>dd_totalLatency := dd_totalLatency d - hd (dd_recent d), dd_recent := tl (dd_recent d)\<rparr>
         else d)"

definition count_result :: "dedup_result \<Rightarrow> deduplicator \<Rightarrow> deduplicator" where
  "count_result r d =
     (if r = R_DUPLICATE then d\<lparr>dd_duplicatesFound := dd_duplicatesFound d + 1\<rparr>
      else if r = R_UNIQUE then d\<lparr>dd_uniqueMessages := dd_uniqueMessages d + 1\<rparr>
      else d)"

text \<open>The part of \<open>isDuplicate\<close> after the cache lookup.\<close>

definition check_and_cache ::
    "'w redis_env \<Rightarrow> message_id \<Rightarrow> deduplicator \<times> 'w \<Rightarrow> (dedup_result \<times> deduplicator \<times> 'w) option" where
  "check_and_cache env mid = (\<lambda>(d, w).
     case checkWithRedis env mid (d, w) of
       None \<Rightarrow> None
     | Some (r, d, w) \<Rightarrow>
         (case (if dd_fallback d \<and> r \<noteq> R_ERROR then updateLocalCache env mid (d, w) else Some (d, w)) of
            None \<Rightarrow> None
          | Some (d, w) \<Rightarrow> Some (r, count_result r d, w)))"

definition isDuplicate ::
    "'w redis_env \<Rightarrow> message_id \<Rightarrow> deduplicator \<times> 'w \<Rightarrow> (dedup_result \<times> deduplicator \<times> 'w) option" where
  "isDuplicate env mid = (\<lambda>(d, w).
     if \<not> dd_initialized d \<or> dd_shuttingDown d then Some (R_ERROR, d, w)
     else if \<not> isValidMessageId mid then Some (R_ERROR, d, w)
     else
       let (start, w) = sys_now env w;
           d = d\<lparr>dd_totalChecks := dd_totalChecks d + 1\<rparr>
       in case (if dd_fallback d then checkWithCache env mid (d, w) else Some (R_ERROR, d, w)) of
            None \<Rightarrow> None
          | Some (r, d, w) \<Rightarrow>
              if r = R_DUPLICATE
              then let (stop, w) = sys_now env w
                   in Some (r, updateLatencyStats (to_micros (stop - start))
                                 (d\<lparr>dd_cacheHits := dd_cacheHits d + 1\<rparr>), w)
              else (case check_and_cache env mid (d, w) of
                      None \<Rightarrow> None
                    | Some (r, d, w) \<Rightarrow>
                        let (stop, w) = sys_now env w
                        in Some (r, updateLatencyStats (to_micros (stop - start)) d, w)))"

subsection \<open>Batches\<close>

fun batch_results ::
    "'w redis_env \<Rightarrow> message_id list \<Rightarrow> deduplicator \<times> 'w \<Rightarrow> (dedup_result list \<times> deduplicator \<times> 'w) option" where
  "batch_results env [] (d, w) = Some ([], d, w)"
| "batch_results env (m # mids) (d, w) =
     (case checkWithRedis env m (d, w) of
        None \<Rightarrow> None
      | Some (r, d, w) \<Rightarrow>
          (case batch_results env mids (d, w) of
             None \<Rightarrow> None
           | Some (rs, d, w) \<Rightarrow> Some (r # rs, d, w)))"

definition batchCheckWithRedis ::
    "'w redis_env \<Rightarrow> message_id list \<Rightarrow> deduplicator \<times> 'w \<Rightarrow> (batch_result \<times> deduplicator \<times> 'w) option" where
  "batchCheckWithRedis env mids s =
     (case batch_results env mids s of
        None \<Rightarrow> None
      | Some (rs, d, w) \<Rightarrow> Some (empty_batch\<lparr>br_results := rs\<rparr>, d, w))"

fun cache_batch ::
    "'w redis_env \<Rightarrow> (message_id \<times> dedup_result) list \<Rightarrow> deduplicator \<times> 'w \<Rightarrow> (deduplicator \<times> 'w) option" where
  "cache_batch env [] s = Some s"
| "cache_batch env ((m, r) # xs) s =
     (case (if r \<noteq> R_ERROR then updateLocalCache env m s else Some s) of
        None \<Rightarrow> None
      | Some s \<Rightarrow> cache_batch env xs s)"

definition count_batch :: "dedup_result list \<Rightarrow> deduplicator \<Rightarrow> deduplicator" where
  "count_batch rs d =
     fold (\<lambda>r d. count_result r (d\<lparr>dd_totalChecks := dd_totalChecks d + 1\<rparr>)) rs d"

definition areDuplicates ::
    "'w redis_env \<Rightarrow> message_id list \<Rightarrow> deduplicator \<times> 'w \<Rightarrow> (batch_result \<times> deduplicator \<times> 'w) option" where
  "areDuplicates env mids = (\<lambda>(d, w).
     if \<not> dd_initialized d \<or> dd_shuttingDown d
     then Some (empty_batch\<lparr>br_results := replicate (length mids) R_ERROR, br_errors := int (length mids)\<rparr>, d, w)
     else if mids = [] then Some (empty_batch, d, w)
     else
       let (start, w) = sys_now env w
       in case batchCheckWithRedis env mids (d, w) of
            None \<Rightarrow> None
          | Some (b, d, w) \<Rightarrow>
              (case (if dd_fallback d then cache_batch env (zip mids (br_results b)) (d, w) else Some (d, w)) of
                 None \<Rightarrow> None
               | Some (d, w) \<Rightarrow>
                   let d = count_batch (br_results b) d; (stop, w) = sys_now env w;
                       l = to_micros (stop - start)
                   in Some (b\<lparr>br_totalLatency := l\<rparr>, updateLatencyStats l d, w)))"

section \<open>Administration\<close>

definition clearHistory_imei :: "string \<Rightarrow> deduplicator \<Rightarrow> int" where
  "clearHistory_imei imei d = 0"

definition clearHistory_message :: "message_id \<Rightarrow> deduplicator \<Rightarrow> bool" where
  "clearHistory_message mid d = True"

definition clearAllHistory :: "deduplicator \<Rightarrow> int" where
  "clearAllHistory d = 0"

definition isConnected :: "deduplicator \<Rightarrow> bool" where
  "isConnected d \<longleftrightarrow> dd_initialized d \<and> (case dd_pool d of Some p \<Rightarrow> isHealthy p | None \<Rightarrow> False)"

definition isUsingStandby :: "deduplicator \<Rightarrow> bool" where
  "isUsingStandby d \<longleftrightarrow> (case dd_pool d of Some p \<Rightarrow> cp_usingStandby p | None \<Rightarrow> False)"

definition healthCheck :: "deduplicator \<Rightarrow> bool" where
  "healthCheck d =
     (if \<not> dd_initialized d \<or> dd_shuttingDown d then False
      else case dd_pool d of Some p \<Rightarrow> isHealthy p | None \<Rightarrow> False)"

definition updateDeduplicationWindow :: "int \<Rightarrow> deduplicator \<Rightarrow> deduplicator" where
  "updateDeduplicationWindow win d =
     (if win \<le> 0 then d else d\<lparr>dd_config := (dd_config d)\<lparr>deduplicationWindow := win\<rparr>\<rparr>)"

definition setLocalCacheFallbackEnabled :: "bool \<Rightarrow> deduplicator \<Rightarrow> deduplicator" where
  "setLocalCacheFallbackEnabled b d = d\<lparr>dd_fallback := b\<rparr>"

text \<open>The signed total is converted to the unsigned type of the sample count.\<close>

definition calculateAverageLatency :: "deduplicator \<Rightarrow> int" where
  "calculateAverageLatency d =
     (if dd_recent d = [] then 0
      else sint (word_of_int (dd_totalLatency d) div word_of_nat (length (dd_recent d)) :: u64))"

definition dedup_getStats :: "ticks \<Rightarrow> deduplicator \<Rightarrow> dedup_stats" where
  "dedup_getStats now d =
     \<lparr>ds_totalChecks = dd_totalChecks d, ds_duplicatesFound = dd_duplicatesFound d,
      ds_uniqueMessages = dd_uniqueMessages d, ds_redisConnections = 0,
      ds_redisFailures = dd_redisFailures d,
      ds_redisReconnects = (case dd_pool d of Some p \<Rightarrow> word_of_int (cp_reconnects p) | None \<Rightarrow> 0),
      ds_redisTimeouts = 0, ds_localCacheHits = dd_cacheHits d,
      ds_localCacheMisses = dd_cacheMisses d,
      ds_localCacheEvictions =
        (case dd_cache d of Some c \<Rightarrow> cs_evictions (getStats c) | None \<Rightarrow> 0),
      ds_averageCheckLatency = calculateAverageLatency d, ds_maxCheckLatency = dd_maxLatency d,
      ds_minCheckLatency = (if dd_minLatency d = micros_max then 0 else dd_minLatency d),
      ds_activeConnections = (case dd_pool d of Some p \<Rightarrow> ps_active (pool_getStats p) | None \<Rightarrow> 0),
      ds_totalConnections = (case dd_pool d of Some p \<Rightarrow> ps_total (pool_getStats p) | None \<Rightarrow> 0),
      ds_failedConnections = (case dd_pool d of Some p \<Rightarrow> ps_failed (pool_getStats p) | None \<Rightarrow> 0),
      ds_lastUpdated = now\<rparr>"

definition dedup_resetStats :: "'w redis_env \<Rightarrow> deduplicator \<times> 'w \<Rightarrow> deduplicator \<times> 'w" where
  "dedup_resetStats env = (\<lambda>(d, w).
     let d = d\<lparr>dd_totalChecks := 0, dd_duplicatesFound := 0, dd_uniqueMessages := 0,
               dd_redisFailures := 0, dd_cacheHits := 0, dd_cacheMisses := 0, dd_recent := [],
               dd_totalLatency := 0, dd_maxLatency := 0, dd_minLatency := micros_max\<rparr>;
         (d, w) = (case dd_cache d of
                     None \<Rightarrow> (d, w)
                   | Some c \<Rightarrow> let (now, w) = sys_now env w in (d\<lparr>dd_cache := Some (resetStats now c)\<rparr>, w))
     in case dd_pool d of
          None \<Rightarrow> (d, w)
        | Some p \<Rightarrow> let (now, w) = sys_now env w in (d\<lparr>dd_pool := Some (pool_resetStats now p)\<rparr>, w))"

definition performMaintenance :: "'w redis_env \<Rightarrow> deduplicator \<times> 'w \<Rightarrow> deduplicator \<times> 'w" where
  "performMaintenance env = (\<lambda>(d, w).
     if dd_shuttingDown d then (d, w)
     else
       let (d, w) = (case dd_cache d of
                       None \<Rightarrow> (d, w)
                     | Some c \<Rightarrow>
                         let (now, w) = sys_now env w
                         in (d\<lparr>dd_cache := Some (snd (cleanupExpired now c))\<rparr>, w))
       in case dd_pool d of
            None \<Rightarrow> (d, w)
          | Some p \<Rightarrow>
              let (n, p, w) = testConnections env (p, w) in (d\<lparr>dd_pool := Some p\<rparr>, w))"

text \<open>One round of \<open>maintenanceLoop\<close> after its sleep.\<close>

definition maintenance_round :: "'w redis_env \<Rightarrow> deduplicator \<times> 'w \<Rightarrow> deduplicator \<times> 'w" where
  "maintenance_round env = (\<lambda>(d, w).
     if \<not> dd_maintenanceRunning d then (d, w) else performMaintenance env (d, w))"

definition dedup_destroy :: "'w redis_env \<Rightarrow> deduplicator \<times> 'w \<Rightarrow> deduplicator \<times> 'w" where
  "dedup_destroy env s = dedup_shutdown env s"

text \<open>The overloads for an IMEI and a sequence number, and the answer as a truth value\<close>

definition isDuplicate_imei ::
    "'w redis_env \<Rightarrow> string \<Rightarrow> u32 \<Rightarrow> deduplicator \<times> 'w \<Rightarrow> (dedup_result \<times> deduplicator \<times> 'w) option" where
  "isDuplicate_imei env imei seqno s = isDuplicate env (Message_Id imei seqno) s"

definition areDuplicates_imei ::
    "'w redis_env \<Rightarrow> (string \<times> u32) list \<Rightarrow> deduplicator \<times> 'w \<Rightarrow>
      (batch_result \<times> deduplicator \<times> 'w) option" where
  "areDuplicates_imei env messages s =
     areDuplicates env (map (\<lambda>(imei, seqno). Message_Id imei seqno) messages) s"

definition resultToBool :: "dedup_result \<Rightarrow> bool" where
  "resultToBool r \<longleftrightarrow> r = R_DUPLICATE"

section \<open>As deployed\<close>

text \<open>
  Deduplication never starts: whatever Redis server is configured, \<open>initialize\<close> of a new
  deduplicator fails, it is not connected, and every message checked afterwards is answered
  with an error, without a trace in the statistics.
\<close>

lemma dedup_never_starts:
  "case dedup_initialize env (new_deduplicator cfg, w) of
     (ok, d, w') \<Rightarrow> \<not> ok \<and> \<not> isConnected d \<and> isDuplicate env mid (d, w') = Some (R_ERROR, d, w') \<and>
       dd_totalChecks d = 0"
proof -
  obtain now w1 where t: "sys_now env w = (now, w1)" by fastforce
  have "pool_dead cfg (new_pool cfg now)" by (simp add: pool_dead_def new_pool_def)
  from initialize_fails [OF this, of env w1] obtain p w2
    where "initialize env (new_pool cfg now, w1) = (False, p, w2)" by blast
  with t show ?thesis
    by (simp add: dedup_initialize_def new_deduplicator_def isDuplicate_def isConnected_def)
qed

section \<open>With a working server\<close>

text \<open>
  The documented behaviour of the server for the commands the code sends. \<open>time\<close> is the server's
  clock in milliseconds and \<open>dl\<close> the table of the keys it holds, each with the time it expires at. A
  key may be gone as soon as its time has come, and only then. \<open>SET key 1 NX PX ttl\<close> is executed at
  some time \<open>n\<close> between the call and its return: it answers nil when the key is there and its time has not
  passed, and otherwise OK, with the key stored until \<open>n + ttl\<close>. \<open>PING\<close> answers PONG. The other
  keys are untouched, and the clock does not go back.
\<close>

definition key_kept ::
    "('w \<Rightarrow> int) \<Rightarrow> ('w \<Rightarrow> string \<Rightarrow> int option) \<Rightarrow> string \<Rightarrow> 'w \<Rightarrow> 'w \<Rightarrow> bool" where
  "key_kept time dl k w w' \<longleftrightarrow>
     dl w' k = dl w k \<or> dl w' k = None \<and> (\<exists>e. dl w k = Some e \<and> e \<le> time w')"

definition quiet :: "('w \<Rightarrow> int) \<Rightarrow> ('w \<Rightarrow> string \<Rightarrow> int option) \<Rightarrow> 'w \<Rightarrow> 'w \<Rightarrow> bool" where
  "quiet time dl w w' \<longleftrightarrow> time w \<le> time w' \<and> (\<forall>k. key_kept time dl k w w')"

definition set_answered ::
    "('w \<Rightarrow> int) \<Rightarrow> ('w \<Rightarrow> string \<Rightarrow> int option) \<Rightarrow> string \<Rightarrow> int \<Rightarrow> 'w \<Rightarrow> redis_reply option \<Rightarrow> 'w \<Rightarrow> bool" where
  "set_answered time dl k t w r w' \<longleftrightarrow>
     (\<forall>k'. k' \<noteq> k \<longrightarrow> key_kept time dl k' w w') \<and>
     (\<exists>n. time w \<le> n \<and> n \<le> time w' \<and>
        (r = Some Reply_Nil \<and> (\<exists>e. dl w k = Some e \<and> n \<le> e) \<and> key_kept time dl k w w' \<or>
         r = Some (Reply_Status ''OK'') \<and> (\<forall>e. dl w k = Some e \<longrightarrow> e \<le> n) \<and>
           (dl w' k = Some (n + t) \<or> dl w' k = None \<and> n + t \<le> time w')))"

definition redis_server ::
    "'w redis_env \<Rightarrow> ('w \<Rightarrow> int) \<Rightarrow> ('w \<Rightarrow> string \<Rightarrow> int option) \<Rightarrow> bool" where
  "redis_server env time dl \<longleftrightarrow>
     (\<forall>x k t w. 0 < t \<longrightarrow> t < 2 ^ 62 \<longrightarrow>
        (case hi_command env x [''SET'', k, ''1'', ''NX'', ''PX'', int_string t] w of
           (r, w') \<Rightarrow> set_answered time dl k t w r w')) \<and>
     (\<forall>x w. fst (hi_command env x [''PING''] w) = Some (Reply_Status ''PONG'') \<and>
        quiet time dl w (snd (hi_command env x [''PING''] w))) \<and>
     (\<forall>w. quiet time dl w (snd (sys_now env w)))"

lemma key_kept_trans:
  assumes "key_kept time dl k u v" "key_kept time dl k v w" "time v \<le> time w"
  shows "key_kept time dl k u w"
  using assms by (cases "dl u k"; cases "dl v k") (auto simp: key_kept_def)

lemma quiet_trans: "quiet time dl u v \<Longrightarrow> quiet time dl v w \<Longrightarrow> quiet time dl u w"
  unfolding quiet_def by (meson key_kept_trans order_trans)

definition live :: "redis_client \<Rightarrow> bool" where
  "live c \<longleftrightarrow> rc_status c = CS_CONNECTED \<and> rc_context c \<noteq> None"

definition pool_live :: "conn_pool \<Rightarrow> bool" where
  "pool_live p \<longleftrightarrow>
     cp_initialized p \<and> \<not> cp_shuttingDown p \<and> cp_available p \<noteq> [] \<and> list_all live (cp_available p)"

lemma server_ping:
  assumes "redis_server env time dl" "live c"
  shows "\<exists>w'. isConnectionHealthy env (c, w) = (True, w') \<and> quiet time dl w w'"
  using assms
  by (auto simp: isConnectionHealthy_def ping_def live_def redis_server_def split: prod.splits option.splits)
    (metis fst_conv snd_conv)+

lemma server_clock:
  "redis_server env time dl \<Longrightarrow> sys_now env w = (t, w') \<Longrightarrow> quiet time dl w w'"
  by (auto simp: redis_server_def) (metis snd_conv)

lemma server_set:
  assumes "redis_server env time dl" "live c" "0 < t" "t < 2 ^ 62"
  obtains r w' where "setNX env k t (c, w) = (r = Some (Reply_Status ''OK''), c, w')"
    "set_answered time dl (c_str k) t w r w'"
proof -
  obtain x where x: "connected c = Some x" using assms(2) by (auto simp: live_def connected_def)
  obtain r w' where r: "hi_command env x (set_command k t) w = (r, w')" by fastforce
  have s: "set_answered time dl (c_str k) t w r w'"
    using assms(1,3,4) r unfolding redis_server_def set_command_def by (auto split: prod.splits)
  then have "r = Some Reply_Nil \<or> r = Some (Reply_Status ''OK'')" by (auto simp: set_answered_def)
  then have "setNX env k t (c, w) = (r = Some (Reply_Status ''OK''), c, w')"
    by (auto simp: setNX_def x r)
  from that [OF this s] show thesis .
qed

lemma set_answered_time: "set_answered time dl k t w r w' \<Longrightarrow> time w \<le> time w'"
  by (auto simp: set_answered_def)

lemma set_answered_quiet:
  assumes "quiet time dl u v" "set_answered time dl k t v r w" "quiet time dl w x" "0 < t"
  shows "set_answered time dl k t u r x"
proof -
  have times: "time u \<le> time v" "time v \<le> time w" "time w \<le> time x"
    using assms(1,3) set_answered_time [OF assms(2)] by (simp_all add: quiet_def)
  have kept: "key_kept time dl k' u v" "key_kept time dl k' w x" for k'
    using assms(1,3) by (simp_all add: quiet_def)
  have other: "\<forall>k'. k' \<noteq> k \<longrightarrow> key_kept time dl k' u x"
    using assms(2) kept times by (metis key_kept_trans order_trans set_answered_def)
  obtain n where n: "time v \<le> n" "n \<le> time w"
      "r = Some Reply_Nil \<and> (\<exists>e. dl v k = Some e \<and> n \<le> e) \<and> key_kept time dl k v w \<or>
       r = Some (Reply_Status ''OK'') \<and> (\<forall>e. dl v k = Some e \<longrightarrow> e \<le> n) \<and>
         (dl w k = Some (n + t) \<or> dl w k = None \<and> n + t \<le> time w)"
    using assms(2) by (auto simp: set_answered_def)
  have "r = Some Reply_Nil \<and> (\<exists>e. dl u k = Some e \<and> n \<le> e) \<and> key_kept time dl k u x \<or>
       r = Some (Reply_Status ''OK'') \<and> (\<forall>e. dl u k = Some e \<longrightarrow> e \<le> n) \<and>
         (dl x k = Some (n + t) \<or> dl x k = None \<and> n + t \<le> time x)"
    using n(3)
  proof (elim disjE)
    assume h: "r = Some Reply_Nil \<and> (\<exists>e. dl v k = Some e \<and> n \<le> e) \<and> key_kept time dl k v w"
    then have "key_kept time dl k u x"
      using kept times by (meson key_kept_trans order_trans)
    with h kept(1) [of k] show ?thesis by (auto simp: key_kept_def)
  next
    assume h: "r = Some (Reply_Status ''OK'') \<and> (\<forall>e. dl v k = Some e \<longrightarrow> e \<le> n) \<and>
         (dl w k = Some (n + t) \<or> dl w k = None \<and> n + t \<le> time w)"
    with kept [of k] n(1) times show ?thesis by (auto simp: key_kept_def)
  qed
  with other n(1,2) times show ?thesis unfolding set_answered_def by (meson order_trans)
qed

lemma checkWithRedis_live:
  fixes mid :: message_id
  assumes "redis_server env time dl" "dd_pool d = Some p" "pool_live p"
    "deduplicationWindow (dd_config d) = W" "0 < W" "W < 2 ^ 62"
  defines "k \<equiv> c_str (generateRedisKey d mid)"
  obtains r p' w' where "checkWithRedis env mid (d, w) =
      Some (if r = Some (Reply_Status ''OK'') then R_UNIQUE else R_DUPLICATE, d\<lparr>dd_pool := Some p'\<rparr>, w')"
    "pool_live p'" "set_answered time dl k W w r w'"
proof -
  obtain c rest where c: "cp_available p = c # rest" "live c" "list_all live rest"
    using assms(3) by (cases "cp_available p") (auto simp: pool_live_def)
  obtain w1 where w1: "isConnectionHealthy env (c, w) = (True, w1)" "quiet time dl w w1"
    using server_ping [OF assms(1) c(2)] by blast
  obtain r w2 where w2: "setNX env (generateRedisKey d mid) W (c, w1) = (r = Some (Reply_Status ''OK''), c, w2)"
      "set_answered time dl k W w1 r w2"
    using server_set [OF assms(1) c(2) assms(5,6)] unfolding k_def by metis
  obtain w3 where w3: "isConnectionHealthy env (c, w2) = (True, w3)" "quiet time dl w2 w3"
    using server_ping [OF assms(1) c(2)] by blast
  let ?p = "p\<lparr>cp_available := rest @ [c]\<rparr>"
  have "pool_live ?p" using assms(3) c by (simp add: pool_live_def)
  moreover have "checkWithRedis env mid (d, w) =
      Some (if r = Some (Reply_Status ''OK'') then R_UNIQUE else R_DUPLICATE, d\<lparr>dd_pool := Some ?p\<rparr>, w3)"
    using assms(2,3) c w1 w2 w3
    by (simp add: checkWithRedis_def getConnection_def returnConnection_def pool_live_def assms(4))
  moreover have "set_answered time dl k W w r w3"
    using set_answered_quiet [OF w1(2) w2(2) w3(2) assms(5)] .
  ultimately show thesis using that by blast
qed

lemma updateLatencyStats_frame [simp]:
  "dd_pool (updateLatencyStats l d) = dd_pool d" "dd_cache (updateLatencyStats l d) = dd_cache d"
  "dd_initialized (updateLatencyStats l d) = dd_initialized d"
  "dd_shuttingDown (updateLatencyStats l d) = dd_shuttingDown d"
  "dd_fallback (updateLatencyStats l d) = dd_fallback d"
  "dd_config (updateLatencyStats l d) = dd_config d"
  "dd_totalChecks (updateLatencyStats l d) = dd_totalChecks d"
  "dd_duplicatesFound (updateLatencyStats l d) = dd_duplicatesFound d"
  "dd_uniqueMessages (updateLatencyStats l d) = dd_uniqueMessages d"
  "dd_cacheHits (updateLatencyStats l d) = dd_cacheHits d"
  "dd_redisFailures (updateLatencyStats l d) = dd_redisFailures d"
  by (simp_all add: updateLatencyStats_def Let_def)

lemma count_result_frame [simp]:
  "dd_pool (count_result r d) = dd_pool d" "dd_cache (count_result r d) = dd_cache d"
  "dd_initialized (count_result r d) = dd_initialized d"
  "dd_shuttingDown (count_result r d) = dd_shuttingDown d"
  "dd_fallback (count_result r d) = dd_fallback d" "dd_config (count_result r d) = dd_config d"
  "dd_totalChecks (count_result r d) = dd_totalChecks d"
  "dd_cacheHits (count_result r d) = dd_cacheHits d"
  by (simp_all add: count_result_def)

lemma clean_key:
  assumes "isValidMessageId mid" "CHR 0x00 \<notin> set (keyPrefix (dd_config d))"
  shows "c_str (generateRedisKey d mid) = generateRedisKey d mid"
proof -
  have "CHR 0x00 \<notin> set (dec_string n)" for n by (rule dec_string_no_sep) (simp add: is_digit_def)
  moreover have "CHR 0x00 \<notin> set (mi_imei mid)"
    using assms(1) by (auto simp: isValidMessageId_def list_all_iff is_digit_def split: if_splits)
  ultimately show ?thesis
    using assms(2) by (auto simp: generateRedisKey_def toRedisKey_def c_str_def takeWhile_eq_all_conv)
qed

text \<open>
  What holds between checks. \<open>U\<close> is the set of the messages answered unique so far, each with the
  server's time before and after its check. The cache knows such messages only, and the server
  holds the key of a message from its check until the window after it is over.
\<close>

definition in_step ::
    "('w \<Rightarrow> int) \<Rightarrow> ('w \<Rightarrow> string \<Rightarrow> int option) \<Rightarrow> int \<Rightarrow> (message_id \<times> int \<times> int) set \<Rightarrow>
      deduplicator \<Rightarrow> 'w \<Rightarrow> bool" where
  "in_step time dl W U d w \<longleftrightarrow>
     dd_initialized d \<and> \<not> dd_shuttingDown d \<and> CHR 0x00 \<notin> set (keyPrefix (dd_config d)) \<and>
     deduplicationWindow (dd_config d) = W \<and> 0 < W \<and> W < 2 ^ 62 \<and>
     (case dd_pool d of Some p \<Rightarrow> pool_live p | None \<Rightarrow> False) \<and>
     (case dd_cache d of Some c \<Rightarrow> cache_wf c \<and> fst ` set (lru_view c) \<subseteq> fst ` U | None \<Rightarrow> True) \<and>
     (\<forall>m e. isValidMessageId m \<longrightarrow> dl w (generateRedisKey d m) = Some e \<longrightarrow>
        (\<exists>u0 u1. (m, u0, u1) \<in> U \<and> e \<le> u1 + W)) \<and>
     (\<forall>m u0 u1. isValidMessageId m \<longrightarrow> (m, u0, u1) \<in> U \<longrightarrow>
        (\<exists>e. dl w (generateRedisKey d m) = Some e \<and> u0 + W \<le> e) \<or> u0 + W \<le> time w)"

lemma in_step_frame:
  "in_step time dl W U (d\<lparr>dd_totalChecks := a\<rparr>) w \<longleftrightarrow> in_step time dl W U d w"
  "in_step time dl W U (d\<lparr>dd_cacheHits := a\<rparr>) w \<longleftrightarrow> in_step time dl W U d w"
  "in_step time dl W U (d\<lparr>dd_cacheMisses := a\<rparr>) w \<longleftrightarrow> in_step time dl W U d w"
  "in_step time dl W U (updateLatencyStats l d) w \<longleftrightarrow> in_step time dl W U d w"
  "in_step time dl W U (count_result r d) w \<longleftrightarrow> in_step time dl W U d w"
  by (simp_all add: in_step_def generateRedisKey_def)

lemma in_step_quiet:
  assumes "in_step time dl W U d w" "quiet time dl w w'"
  shows "in_step time dl W U d w'"
proof -
  have k: "key_kept time dl k w w'" "time w \<le> time w'" for k using assms(2) by (simp_all add: quiet_def)
  have "\<exists>u0 u1. (m, u0, u1) \<in> U \<and> e \<le> u1 + W"
    if "isValidMessageId m" "dl w' (generateRedisKey d m) = Some e" for m e
    using assms(1) that k(1) [of "generateRedisKey d m"] by (auto simp: in_step_def key_kept_def)
  moreover have "(\<exists>e. dl w' (generateRedisKey d m) = Some e \<and> u0 + W \<le> e) \<or> u0 + W \<le> time w'"
    if m: "isValidMessageId m" "(m, u0, u1) \<in> U" for m u0 u1
  proof -
    have "(\<exists>e. dl w (generateRedisKey d m) = Some e \<and> u0 + W \<le> e) \<or> u0 + W \<le> time w"
      using assms(1) m unfolding in_step_def by blast
    with k(1) [of "generateRedisKey d m"] k(2) show ?thesis by (auto simp: key_kept_def)
  qed
  ultimately show ?thesis using assms(1) unfolding in_step_def by blast
qed

lemma in_step_later:
  assumes "in_step time dl W (insert (m, t0, t1) U) d w" "s0 \<le> t0" "t1 \<le> s1"
  shows "in_step time dl W (insert (m, s0, s1) U) d w"
proof -
  have "\<exists>u0 u1. (n, u0, u1) \<in> insert (m, s0, s1) U \<and> e \<le> u1 + W"
    if n: "isValidMessageId n" "dl w (generateRedisKey d n) = Some e" for n e
  proof -
    obtain u0 u1 where "(n, u0, u1) \<in> insert (m, t0, t1) U" "e \<le> u1 + W"
      using assms(1) n unfolding in_step_def by blast
    then have "(n, u0, u1) \<in> U \<and> e \<le> u1 + W \<or> n = m \<and> e \<le> s1 + W" using assms(3) by auto
    then show ?thesis by auto
  qed
  moreover have "(\<exists>e. dl w (generateRedisKey d n) = Some e \<and> u0 + W \<le> e) \<or> u0 + W \<le> time w"
    if n: "isValidMessageId n" "(n, u0, u1) \<in> insert (m, s0, s1) U" for n u0 u1
  proof -
    obtain v0 v1 where "(n, v0, v1) \<in> insert (m, t0, t1) U" "u0 \<le> v0" using n(2) assms(2) by auto
    then have "(\<exists>e. dl w (generateRedisKey d n) = Some e \<and> v0 + W \<le> e) \<or> v0 + W \<le> time w" "u0 \<le> v0"
      using assms(1) n(1) unfolding in_step_def by blast+
    then show ?thesis by force
  qed
  moreover have "case dd_cache d of Some c \<Rightarrow> cache_wf c \<and> fst ` set (lru_view c) \<subseteq> fst ` insert (m, s0, s1) U
      | None \<Rightarrow> True"
    using assms(1) by (cases "dd_cache d") (simp_all add: in_step_def del: lru_view_sel)
  ultimately show ?thesis using assms(1) unfolding in_step_def by blast
qed

lemma in_step_cached:
  assumes "in_step time dl W U d w" "cache_wf c" "fst ` set (lru_view c) \<subseteq> fst ` U"
  shows "in_step time dl W U (d\<lparr>dd_cache := Some c\<rparr>) w"
  using assms by (simp add: in_step_def generateRedisKey_def del: lru_view_sel)

lemma checkWithCache_in_step:
  assumes "redis_server env time dl" "in_step time dl W U d w"
  obtains r d' w' where "checkWithCache env mid (d, w) = Some (r, d', w')" "in_step time dl W U d' w'"
    "quiet time dl w w'" "r = R_DUPLICATE \<longrightarrow> mid \<in> fst ` U" "dd_fallback d' = dd_fallback d"
proof (cases "dd_cache d")
  case None
  with assms(2) that [of R_CACHE_MISS d w] show ?thesis
    by (simp add: checkWithCache_def quiet_def key_kept_def)
next
  case (Some c)
  obtain t w1 ts w2 te w3 where t: "sys_now env w = (t, w1)" "sys_now env w1 = (ts, w2)" "sys_now env w2 = (te, w3)"
    by fastforce
  note clock = server_clock [OF assms(1)]
  have q: "quiet time dl w w3" using quiet_trans [OF quiet_trans [OF clock [OF t(1)] clock [OF t(2)]] clock [OF t(3)]] .
  note s = in_step_quiet [OF assms(2) q]
  have c: "cache_wf c" "fst ` set (lru_view c) \<subseteq> fst ` U"
    using s by (simp_all add: in_step_def Some del: lru_view_sel)
  from c(1) show ?thesis
  proof (cases rule: lc.look_cases [where t = t and ts = ts and te = te and m = mid])
    case (hit c')
    with c have "fst ` set (lru_view c') \<subseteq> fst ` U" "mid \<in> fst ` U" by (auto simp del: lru_view_sel)
    with in_step_cached [OF s, of c'] hit that [of R_DUPLICATE "d\<lparr>dd_cache := Some c'\<rparr>" w3] q show ?thesis
      by (simp add: checkWithCache_def Some t)
  next
    case (miss c')
    with c have "fst ` set (lru_view c') \<subseteq> fst ` U" by (auto simp del: lru_view_sel)
    with in_step_cached [OF s, of c'] miss q that [of R_CACHE_MISS
        "d\<lparr>dd_cache := Some c', dd_cacheMisses := dd_cacheMisses d + 1\<rparr>" w3] show ?thesis
      by (simp add: checkWithCache_def Some t in_step_frame)
  qed
qed

lemma updateLocalCache_in_step:
  assumes "redis_server env time dl" "in_step time dl W U d w" "mid \<in> fst ` U"
  obtains d' w' where "updateLocalCache env mid (d, w) = Some (d', w')" "in_step time dl W U d' w'"
    "quiet time dl w w'" "dd_fallback d' = dd_fallback d"
proof (cases "dd_fallback d \<and> dd_cache d \<noteq> None")
  case False
  then have "updateLocalCache env mid (d, w) = Some (d, w)" by (auto simp: updateLocalCache_def)
  with assms(2) that [of d w] show ?thesis by (simp add: quiet_def key_kept_def)
next
  case True
  then obtain c where on: "dd_fallback d" "dd_cache d = Some c" by auto
  obtain t0 w1 t w2 ts w3 tn w4 where t: "sys_now env w = (t0, w1)" "sys_now env w1 = (t, w2)"
      "sys_now env w2 = (ts, w3)" "sys_now env w3 = (tn, w4)"
    by fastforce
  note clock = server_clock [OF assms(1)]
  have q: "quiet time dl w w4"
    using quiet_trans [OF quiet_trans [OF quiet_trans [OF clock [OF t(1)] clock [OF t(2)]] clock [OF t(3)]] clock [OF t(4)]] .
  note s = in_step_quiet [OF assms(2) q]
  have c: "cache_wf c" "fst ` set (lru_view c) \<subseteq> fst ` U"
    using s by (simp_all add: in_step_def on del: lru_view_sel)
  from lc.seen_add [OF c assms(3)] obtain c' where
    c': "insert_until t ts tn mid (t0 + ms (lc_ttl c)) c = Some (True, c')" "cache_wf c'"
      "fst ` set (lru_view c') \<subseteq> fst ` U" .
  from that [OF _ in_step_cached [OF s c'(2,3)] q] c'(1) show ?thesis
    by (simp add: updateLocalCache_def on t insert_now_def)
qed

lemma set_answered_in_step:
  assumes "in_step time dl W U d w" "isValidMessageId mid"
    "set_answered time dl (generateRedisKey d mid) W w r w'"
  shows "if r = Some (Reply_Status ''OK'')
    then in_step time dl W (insert (mid, time w, time w') U) d w' \<and>
      (\<forall>u0 u1. (mid, u0, u1) \<in> U \<longrightarrow> u0 + W \<le> time w')
    else in_step time dl W U d w' \<and> (\<exists>u0 u1. (mid, u0, u1) \<in> U \<and> time w \<le> u1 + W)"
proof -
  let ?k = "generateRedisKey d mid"
  have t: "time w \<le> time w'" using set_answered_time [OF assms(3)] .
  have other: "key_kept time dl k w w'" if "k \<noteq> ?k" for k
    using assms(3) that by (simp add: set_answered_def)
  have upper: "\<exists>u0 u1. (m, u0, u1) \<in> U \<and> e \<le> u1 + W"
    if "isValidMessageId m" "dl w (generateRedisKey d m) = Some e" for m e
    using assms(1) that unfolding in_step_def by blast
  have lower: "(\<exists>e. dl w (generateRedisKey d m) = Some e \<and> u0 + W \<le> e) \<or> u0 + W \<le> time w"
    if "isValidMessageId m" "(m, u0, u1) \<in> U" for m u0 u1
    using assms(1) that unfolding in_step_def by blast
  obtain n where n: "time w \<le> n" "n \<le> time w'"
      "r = Some Reply_Nil \<and> (\<exists>e. dl w ?k = Some e \<and> n \<le> e) \<and> key_kept time dl ?k w w' \<or>
       r = Some (Reply_Status ''OK'') \<and> (\<forall>e. dl w ?k = Some e \<longrightarrow> e \<le> n) \<and>
         (dl w' ?k = Some (n + W) \<or> dl w' ?k = None \<and> n + W \<le> time w')"
    using assms(3) by (auto simp: set_answered_def)
  show ?thesis
  proof (cases "r = Some (Reply_Status ''OK'')")
    case False
    then have h: "\<exists>e. dl w ?k = Some e \<and> n \<le> e" "key_kept time dl ?k w w'" using n(3) by auto
    have "quiet time dl w w'" using other h(2) t by (metis quiet_def)
    with in_step_quiet [OF assms(1)] h(1) upper [OF assms(2)] n(1) False show ?thesis by fastforce
  next
    case True
    then have h: "\<forall>e. dl w ?k = Some e \<longrightarrow> e \<le> n"
        "dl w' ?k = Some (n + W) \<or> dl w' ?k = None \<and> n + W \<le> time w'" using n(3) by auto
    have inj: "generateRedisKey d m = ?k \<longleftrightarrow> m = mid" for m by (simp add: generateRedisKey_def)
    have "u0 + W \<le> time w'" if "(mid, u0, u1) \<in> U" for u0 u1
      using lower [OF assms(2) that] h(1) n(1,2) t by auto
    moreover have "\<exists>u0 u1. (m, u0, u1) \<in> insert (mid, time w, time w') U \<and> e \<le> u1 + W"
      if m: "isValidMessageId m" "dl w' (generateRedisKey d m) = Some e" for m e
    proof (cases "m = mid")
      case True
      with h(2) m(2) n(2) show ?thesis by auto
    next
      case False
      then have "dl w (generateRedisKey d m) = Some e"
        using m(2) other [of "generateRedisKey d m"] by (auto simp: inj key_kept_def)
      with upper [OF m(1)] show ?thesis by blast
    qed
    moreover have "(\<exists>e. dl w' (generateRedisKey d m) = Some e \<and> u0 + W \<le> e) \<or> u0 + W \<le> time w'"
      if m: "isValidMessageId m" "(m, u0, u1) \<in> insert (mid, time w, time w') U" for m u0 u1
    proof (cases "m = mid")
      case True
      have "u0 = time w \<or> u0 + W \<le> time w'" using m(2) True calculation(1) by auto
      with h(2) n(1) True show ?thesis by auto
    next
      case False
      with m have "(m, u0, u1) \<in> U" by auto
      from lower [OF m(1) this] other [of "generateRedisKey d m"] False t show ?thesis
        by (auto simp: inj key_kept_def)
    qed
    moreover have "fst ` U \<subseteq> fst ` insert (mid, time w, time w') U" by auto
    ultimately show ?thesis
      using assms(1) True unfolding in_step_def
      by (simp add: generateRedisKey_def del: lru_view_sel split: option.splits) blast
  qed
qed

text \<open>What one check answers and leaves behind.\<close>

definition answered ::
    "('w \<Rightarrow> int) \<Rightarrow> ('w \<Rightarrow> string \<Rightarrow> int option) \<Rightarrow> int \<Rightarrow> bool \<Rightarrow> (message_id \<times> int \<times> int) set \<Rightarrow>
      message_id \<Rightarrow> 'w \<Rightarrow> dedup_result \<Rightarrow> deduplicator \<Rightarrow> 'w \<Rightarrow> bool" where
  "answered time dl W cached U mid w r d' w' \<longleftrightarrow>
     time w \<le> time w' \<and>
     (r = R_UNIQUE \<and> (\<forall>u0 u1. (mid, u0, u1) \<in> U \<longrightarrow> u0 + W \<le> time w') \<and>
        in_step time dl W (insert (mid, time w, time w') U) d' w' \<or>
      r = R_DUPLICATE \<and> (\<exists>u0 u1. (mid, u0, u1) \<in> U \<and> (cached \<or> time w \<le> u1 + W)) \<and>
        in_step time dl W U d' w')"

lemma answered_frame:
  "answered time dl W b U m w r (d\<lparr>dd_cacheHits := a\<rparr>) w' \<longleftrightarrow> answered time dl W b U m w r d w'"
  "answered time dl W b U m w r (updateLatencyStats l d) w' \<longleftrightarrow> answered time dl W b U m w r d w'"
  "answered time dl W b U m w r (count_result q d) w' \<longleftrightarrow> answered time dl W b U m w r d w'"
  by (simp_all add: answered_def in_step_frame)

lemma answered_quiet:
  assumes "quiet time dl u v" "answered time dl W b U m v r d w" "quiet time dl w x"
  shows "answered time dl W b U m u r d x"
proof -
  have t: "time u \<le> time v" "time w \<le> time x" using assms(1,3) by (simp_all add: quiet_def)
  have "in_step time dl W (insert (m, time u, time x) U) d x"
    if "in_step time dl W (insert (m, time v, time w) U) d w"
    using in_step_later [OF in_step_quiet [OF that assms(3)] t] .
  with assms(2) in_step_quiet [OF _ assms(3), of W U d] t show ?thesis
    unfolding answered_def by (meson order_trans)
qed

lemma checkWithRedis_in_step:
  assumes "redis_server env time dl" "in_step time dl W U d w" "isValidMessageId mid"
  obtains r d' w' where "checkWithRedis env mid (d, w) = Some (r, d', w')"
    "answered time dl W False U mid w r d' w'" "dd_fallback d' = dd_fallback d"
proof -
  obtain p where p: "dd_pool d = Some p" "pool_live p"
    using assms(2) by (auto simp: in_step_def split: option.splits)
  have s: "CHR 0x00 \<notin> set (keyPrefix (dd_config d))" "deduplicationWindow (dd_config d) = W" "0 < W" "W < 2 ^ 62"
    using assms(2) by (simp_all add: in_step_def)
  obtain q p' w' where c: "checkWithRedis env mid (d, w) =
        Some (if q = Some (Reply_Status ''OK'') then R_UNIQUE else R_DUPLICATE, d\<lparr>dd_pool := Some p'\<rparr>, w')"
      "pool_live p'" "set_answered time dl (generateRedisKey d mid) W w q w'"
    using checkWithRedis_live [OF assms(1) p s(2-4), where mid = mid] unfolding clean_key [OF assms(3) s(1)] .
  have "in_step time dl W V (d\<lparr>dd_pool := Some p'\<rparr>) w'" if "in_step time dl W V d w'" for V
    using that c(2) by (simp add: in_step_def generateRedisKey_def)
  with set_answered_in_step [OF assms(2,3) c(3)] set_answered_time [OF c(3)]
  have "answered time dl W False U mid w (if q = Some (Reply_Status ''OK'') then R_UNIQUE else R_DUPLICATE)
      (d\<lparr>dd_pool := Some p'\<rparr>) w'"
    unfolding answered_def by (simp split: if_splits)
  from that [OF c(1) this] show thesis by simp
qed

lemma check_and_cache_in_step:
  assumes "redis_server env time dl" "in_step time dl W U d w" "isValidMessageId mid"
  obtains r d' w' where "check_and_cache env mid (d, w) = Some (r, d', w')"
    "answered time dl W False U mid w r d' w'" "dd_fallback d' = dd_fallback d"
proof -
  obtain r d1 w1 where c: "checkWithRedis env mid (d, w) = Some (r, d1, w1)"
      "answered time dl W False U mid w r d1 w1" "dd_fallback d1 = dd_fallback d"
    by (rule checkWithRedis_in_step [OF assms])
  define V where "V = (if r = R_UNIQUE then insert (mid, time w, time w1) U else U)"
  have v: "in_step time dl W V d1 w1" "mid \<in> fst ` V" "r \<noteq> R_ERROR"
    using c(2) by (force simp: answered_def V_def)+
  obtain d2 w2 where u: "updateLocalCache env mid (d1, w1) = Some (d2, w2)" "in_step time dl W V d2 w2"
      "quiet time dl w1 w2" "dd_fallback d2 = dd_fallback d1"
    by (rule updateLocalCache_in_step [OF assms(1) v(1,2)])
  have "time w1 \<le> time w2" using u(3) by (simp add: quiet_def)
  then have "answered time dl W False U mid w r d2 w2"
    using c(2) u(2) in_step_later [of time dl W mid "time w" "time w1" U d2 w2 "time w" "time w2"]
    unfolding answered_def V_def by (auto split: if_splits)
  moreover have "check_and_cache env mid (d, w) = Some (r, count_result r (if dd_fallback d then d2 else d1),
      if dd_fallback d then w2 else w1)"
    using c(1,3) u(1) v(3) by (simp add: check_and_cache_def)
  ultimately show thesis using that c u(4) by (auto simp: answered_frame split: if_splits)
qed

lemma answered_cached: "answered time dl W False U m w r d w' \<Longrightarrow> answered time dl W b U m w r d w'"
  by (auto simp: answered_def)

lemma isDuplicate_in_step:
  assumes "redis_server env time dl" "in_step time dl W U d w" "isValidMessageId mid"
  obtains r d' w' where "isDuplicate env mid (d, w) = Some (r, d', w')"
    "answered time dl W (dd_fallback d) U mid w r d' w'" "dd_fallback d' = dd_fallback d"
proof -
  note clock = server_clock [OF assms(1)]
  obtain start w1 where t: "sys_now env w = (start, w1)" by fastforce
  let ?d = "d\<lparr>dd_totalChecks := dd_totalChecks d + 1\<rparr>"
  have s: "in_step time dl W U ?d w1" using in_step_quiet [OF assms(2) clock [OF t]] by (simp add: in_step_frame)
  have run: "dd_initialized d" "\<not> dd_shuttingDown d" using assms(2) by (simp_all add: in_step_def)
  obtain r d2 w2 where r: "(if dd_fallback ?d then checkWithCache env mid (?d, w1) else Some (R_ERROR, ?d, w1))
        = Some (r, d2, w2)" "in_step time dl W U d2 w2" "quiet time dl w1 w2"
      "r = R_DUPLICATE \<longrightarrow> dd_fallback d \<and> mid \<in> fst ` U" "dd_fallback d2 = dd_fallback d"
  proof (cases "dd_fallback d")
    case True
    with that show thesis
      by (rule_tac checkWithCache_in_step [OF assms(1) s, of mid]) simp_all
  next
    case False
    with that [of R_ERROR ?d w1] s show thesis by (simp add: quiet_def key_kept_def)
  qed
  note q = quiet_trans [OF clock [OF t] r(3)]
  show thesis
  proof (cases "r = R_DUPLICATE")
    case True
    obtain stop w3 where e: "sys_now env w2 = (stop, w3)" by fastforce
    have "answered time dl W (dd_fallback d) U mid w2 R_DUPLICATE d2 w2"
      using r(2,4) True by (fastforce simp: answered_def)
    then have "answered time dl W (dd_fallback d) U mid w R_DUPLICATE
        (updateLatencyStats (to_micros (stop - start)) (d2\<lparr>dd_cacheHits := dd_cacheHits d2 + 1\<rparr>)) w3"
      unfolding answered_frame using answered_quiet [OF q _ clock [OF e]] by blast
    with that True r t e run assms(3) show ?thesis
      by (simp add: isDuplicate_def)
  next
    case False
    obtain r' d3 w3 where k: "check_and_cache env mid (d2, w2) = Some (r', d3, w3)"
        "answered time dl W False U mid w2 r' d3 w3" "dd_fallback d3 = dd_fallback d2"
      by (rule check_and_cache_in_step [OF assms(1) r(2) assms(3)])
    obtain stop w4 where e: "sys_now env w3 = (stop, w4)" by fastforce
    have "isDuplicate env mid (d, w) = Some (r', updateLatencyStats (to_micros (stop - start)) d3, w4)"
      using False r(1) t e run assms(3) k(1) by (simp add: isDuplicate_def)
    from that [OF this] answered_cached [OF answered_quiet [OF q k(2) clock [OF e]]] k(3) r(5)
    show ?thesis by (simp add: answered_frame)
  qed
qed

fun check_all ::
    "'w redis_env \<Rightarrow> message_id list \<Rightarrow> deduplicator \<times> 'w \<Rightarrow> (dedup_result list \<times> deduplicator \<times> 'w) option" where
  "check_all env [] s = Some ([], s)"
| "check_all env (m # mids) s =
     (case isDuplicate env m s of
        None \<Rightarrow> None
      | Some (r, s) \<Rightarrow>
          (case check_all env mids s of None \<Rightarrow> None | Some (rs, s) \<Rightarrow> Some (r # rs, s)))"

text \<open>
  Checks with a log: each is made after a pause, and recorded with the server's time before it,
  its answer, and the server's time after it.
\<close>

fun check_log ::
    "'w redis_env \<Rightarrow> ('w \<Rightarrow> int) \<Rightarrow> (('w \<Rightarrow> 'w) \<times> message_id) list \<Rightarrow> deduplicator \<times> 'w \<Rightarrow>
      ((message_id \<times> int \<times> dedup_result \<times> int) list \<times> deduplicator \<times> 'w) option" where
  "check_log env time [] s = Some ([], s)"
| "check_log env time ((pause, m) # checks) (d, w) =
     (case isDuplicate env m (d, pause w) of
        None \<Rightarrow> None
      | Some (r, d', w') \<Rightarrow>
          (case check_log env time checks (d', w') of
             None \<Rightarrow> None
           | Some (entries, s) \<Rightarrow> Some ((m, time (pause w), r, time w') # entries, s)))"

text \<open>
  What a log must look like, the answers unique before it being in \<open>U\<close>: a message is answered unique
  only when the window after each earlier unique answer of it is over, and duplicate only when it was
  answered unique before, and no longer ago than the window if no cache is in use. There is no
  other answer.
\<close>

fun once_per_window ::
    "int \<Rightarrow> bool \<Rightarrow> (message_id \<times> int \<times> int) set \<Rightarrow> (message_id \<times> int \<times> dedup_result \<times> int) list \<Rightarrow> bool" where
  "once_per_window W cached U [] \<longleftrightarrow> True"
| "once_per_window W cached U ((m, t0, r, t1) # entries) \<longleftrightarrow>
     (if r = R_UNIQUE
      then (\<forall>(n, u0, u1) \<in> U. n = m \<longrightarrow> u0 + W \<le> t1) \<and>
        once_per_window W cached (insert (m, t0, t1) U) entries
      else r = R_DUPLICATE \<and> (\<exists>(n, u0, u1) \<in> U. n = m \<and> (cached \<or> t0 \<le> u1 + W)) \<and>
        once_per_window W cached U entries)"

fun first_occurrences :: "message_id set \<Rightarrow> message_id list \<Rightarrow> dedup_result list" where
  "first_occurrences seen [] = []"
| "first_occurrences seen (m # mids) =
     (if m \<in> seen then R_DUPLICATE else R_UNIQUE) # first_occurrences (insert m seen) mids"

lemma check_log_in_step:
  assumes "redis_server env time dl" "in_step time dl W U d w"
    "list_all (\<lambda>(pause, m). (\<forall>w. quiet time dl w (pause w)) \<and> isValidMessageId m) checks"
  shows "\<exists>entries s. check_log env time checks (d, w) = Some (entries, s) \<and>
    once_per_window W (dd_fallback d) U entries \<and> map fst entries = map snd checks \<and>
    time w \<le> time (snd s) \<and>
    list_all (\<lambda>(m, t0, r, t1). time w \<le> t0 \<and> t0 \<le> t1 \<and> t1 \<le> time (snd s)) entries"
  using assms(2,3)
proof (induction checks arbitrary: U d w)
  case (Cons c checks)
  obtain pause m where c: "c = (pause, m)" by fastforce
  have q: "quiet time dl w (pause w)" and v: "isValidMessageId m" using Cons.prems(2) c by simp_all
  have tq: "time w \<le> time (pause w)" using q by (simp add: quiet_def)
  obtain r d1 w1 where k: "isDuplicate env m (d, pause w) = Some (r, d1, w1)"
      "answered time dl W (dd_fallback d) U m (pause w) r d1 w1" "dd_fallback d1 = dd_fallback d"
    by (rule isDuplicate_in_step [OF assms(1) in_step_quiet [OF Cons.prems(1) q] v])
  have t1: "time (pause w) \<le> time w1" using k(2) by (simp add: answered_def)
  define V where "V = (if r = R_UNIQUE then insert (m, time (pause w), time w1) U else U)"
  have "in_step time dl W V d1 w1" using k(2) by (auto simp: answered_def V_def)
  from Cons.IH [OF this] Cons.prems(2) k(3) obtain entries s where
    e: "check_log env time checks (d1, w1) = Some (entries, s)" "once_per_window W (dd_fallback d) V entries"
      "map fst entries = map snd checks" "time w1 \<le> time (snd s)"
      "list_all (\<lambda>(m, t0, r, t1). time w1 \<le> t0 \<and> t0 \<le> t1 \<and> t1 \<le> time (snd s)) entries"
    by auto
  have "once_per_window W (dd_fallback d) U ((m, time (pause w), r, time w1) # entries)"
    using k(2) e(2) by (auto simp: answered_def V_def)
  moreover have "list_all (\<lambda>(m, t0, r, t1). time w \<le> t0 \<and> t0 \<le> t1 \<and> t1 \<le> time (snd s)) entries"
    using e(5) tq t1 by (auto simp: list_all_iff)
  ultimately show ?case using k(1) e(1,3,4) tq t1 by (simp add: c)
qed simp

text \<open>Within one window the answers are those of the first occurrences.\<close>

lemma once_within_window:
  assumes "once_per_window W cached U entries"
    "list_all (\<lambda>(m, t0, r, t1). T \<le> t0 \<and> t1 < T + W) entries" "\<forall>(n, u0, u1) \<in> U. T \<le> u0"
  shows "map (\<lambda>(m, t0, r, t1). r) entries = first_occurrences (fst ` U) (map fst entries)"
  using assms
proof (induction entries arbitrary: U)
  case (Cons e entries)
  obtain m t0 r t1 where e: "e = (m, t0, r, t1)" by (metis prod_cases4)
  show ?case
  proof (cases "r = R_UNIQUE")
    case True
    have "m \<notin> fst ` U"
    proof
      assume "m \<in> fst ` U"
      then obtain u0 u1 where "(m, u0, u1) \<in> U" by force
      with Cons.prems True e have "u0 + W \<le> t1" "T \<le> u0" "t1 < T + W" by fastforce+
      then show False by simp
    qed
    with Cons.IH [of "insert (m, t0, t1) U"] Cons.prems True e show ?thesis by auto
  next
    case False
    with Cons.prems(1) e have "r = R_DUPLICATE" "m \<in> fst ` U" by force+
    with Cons.IH [of U] Cons.prems False e show ?thesis by (auto simp: insert_absorb)
  qed
qed simp

text \<open>
  C2. Exactly once per window: with a deduplicator whose pool holds live connections to a server
  that behaves as documented, its keys expiring with its clock, and with a fresh cache of any size and
  any life time, used or not, whatever the clock of the gateway shows and however much time
  passes between the checks, every sequence of valid messages is answered, unique or duplicate each:
  a message is unique only when a deduplication window has passed since every earlier unique answer
  of it, and duplicate only after a unique answer, which is at most the window ago when
  the cache is not in use. Within one window the first occurrence of each message is unique and
  every later one a duplicate.
\<close>

theorem exactly_once:
  assumes "redis_server env time dl" "\<forall>k. dl w k = None"
    "list_all (\<lambda>(pause, m). (\<forall>w. quiet time dl w (pause w)) \<and> isValidMessageId m) checks"
    "dd_initialized d" "\<not> dd_shuttingDown d" "CHR 0x00 \<notin> set (keyPrefix (dd_config d))"
    "deduplicationWindow (dd_config d) = W" "0 < W" "W < 2 ^ 62"
    "dd_pool d = Some p" "pool_live p" "dd_cache d = Some c" "new_cache sz ttl t = Inr c"
  shows "\<exists>entries d' w'. check_log env time checks (d, w) = Some (entries, d', w') \<and>
    map fst entries = map snd checks \<and>
    once_per_window W (dd_fallback d) {} entries \<and>
    (time w' < time w + W \<longrightarrow>
       map (\<lambda>(m, t0, r, t1). r) entries = first_occurrences {} (map snd checks))"
proof -
  have "in_step time dl W {} d w"
    using assms(2,4-12) new_cache_wf [OF assms(13)] by (simp add: in_step_def del: lru_view_sel)
  from check_log_in_step [OF assms(1) this assms(3)] obtain entries d' w' where
    e: "check_log env time checks (d, w) = Some (entries, d', w')" "once_per_window W (dd_fallback d) {} entries"
      "map fst entries = map snd checks"
      "list_all (\<lambda>(m, t0, r, t1). time w \<le> t0 \<and> t0 \<le> t1 \<and> t1 \<le> time w') entries"
    by auto
  have "map (\<lambda>(m, t0, r, t1). r) entries = first_occurrences {} (map snd checks)" if "time w' < time w + W"
  proof -
    have "list_all (\<lambda>(m, t0, r, t1). time w \<le> t0 \<and> t1 < time w + W) entries"
      using e(4) that by (auto simp: list_all_iff)
    from once_within_window [OF e(2) this] e(3) show ?thesis by simp
  qed
  with e show ?thesis by blast
qed

text \<open>
  A server with a clock in milliseconds and a table of keys with the times they expire at; a command
  takes one millisecond.
\<close>

definition clock_server :: "(int \<times> (string \<times> int) list) redis_env" where
  "clock_server =
     \<lparr>hi_connect = (\<lambda>h p t w. (Some 0, w)), hi_err = (\<lambda>x w. None),
      hi_command = (\<lambda>x args (now, keys).
        if args = [''PING''] then (Some (Reply_Status ''PONG''), (now, keys))
        else (case map_of keys (args ! 1) of
                Some e \<Rightarrow> if now < e then (Some Reply_Nil, (now + 1, keys))
                          else (Some (Reply_Status ''OK''), (now + 1, (args ! 1, now + the (strto 10 (args ! 5))) # keys))
              | None \<Rightarrow> (Some (Reply_Status ''OK''), (now + 1, (args ! 1, now + the (strto 10 (args ! 5))) # keys)))),
      hi_raw_command = (\<lambda>x s w. (Some (Reply_Integer 0), w)), hi_append = (\<lambda>x args w. w),
      hi_get_reply = (\<lambda>x w. (Some (Some (Reply_Status ''OK'')), w)),
      hi_set_timeout = (\<lambda>x t w. (True, w)), hi_free = (\<lambda>x w. w), sys_now = (\<lambda>w. (ms (fst w), w))\<rparr>"

definition live_dedup :: "local_cache \<Rightarrow> deduplicator" where
  "live_dedup c =
     (new_deduplicator createDefaultConfig)
       \<lparr>dd_pool := Some live_pool, dd_cache := Some c, dd_initialized := True\<rparr>"

lemma live_setup: "pool_live live_pool" "redis_server clock_server fst (\<lambda>w. map_of (snd w))"
proof -
  show "pool_live live_pool"
    by (simp add: pool_live_def live_def live_pool_def live_client_def new_pool_def new_client_def)
  show "redis_server clock_server fst (\<lambda>w. map_of (snd w))"
    by (auto simp: redis_server_def clock_server_def set_answered_def quiet_def key_kept_def
        split: option.splits if_splits)
qed

text \<open>A deduplicator that asks the server every time.\<close>

definition direct_dedup :: "deduplicator \<Rightarrow> bool" where
  "direct_dedup d \<longleftrightarrow> dd_initialized d \<and> \<not> dd_shuttingDown d \<and> \<not> dd_fallback d \<and>
     dd_pool d = Some live_pool \<and> dd_config d = createDefaultConfig"

lemma clock_check:
  fixes now :: int and keys :: "(string \<times> int) list"
  assumes "direct_dedup d" "isValidMessageId m"
  defines "k \<equiv> generateRedisKey d m"
  defines "held \<equiv> (case map_of keys k of Some e \<Rightarrow> now < e | None \<Rightarrow> False)"
  shows "\<exists>d'. isDuplicate clock_server m (d, now, keys) =
      Some (if held then R_DUPLICATE else R_UNIQUE, d', now + 1,
        if held then keys else (k, now + 3600000) # keys) \<and> direct_dedup d'"
proof -
  have k: "c_str k = k" unfolding k_def
    by (rule clean_key [OF assms(2)]) (use assms(1) in \<open>simp add: direct_dedup_def createDefaultConfig_def\<close>)
  have h: "isConnectionHealthy clock_server (live_client, w) = (True, w)" for w
    by (cases w) (simp add: isConnectionHealthy_def ping_def live_client_def new_client_def clock_server_def)
  have s: "setNX clock_server k 3600000 (live_client, now, keys) =
      (\<not> held, live_client, now + 1, if held then keys else (k, now + 3600000) # keys)"
    by (simp add: setNX_def connected_def live_client_def new_client_def set_command_def k clock_server_def
        held_def split: option.splits)
  have p: "cp_initialized live_pool" "\<not> cp_shuttingDown live_pool" "cp_available live_pool = [live_client]"
      "live_pool\<lparr>cp_available := [live_client]\<rparr> = live_pool"
    by (simp_all add: live_pool_def new_pool_def)
  have c: "checkWithRedis clock_server m (e, now, keys) =
      Some (if held then R_DUPLICATE else R_UNIQUE, e, now + 1, if held then keys else (k, now + 3600000) # keys)"
    if "direct_dedup e" "generateRedisKey e m = k" for e
    using that p h s by (simp add: checkWithRedis_def getConnection_def returnConnection_def direct_dedup_def
        createDefaultConfig_def)
  have t: "sys_now clock_server w = (ms (fst w), w)" for w by (simp add: clock_server_def)
  let ?d = "d\<lparr>dd_totalChecks := dd_totalChecks d + 1\<rparr>"
  have e: "direct_dedup ?d" "generateRedisKey ?d m = k"
    using assms(1) by (simp_all add: direct_dedup_def k_def generateRedisKey_def)
  show ?thesis
    using c [OF e] assms(1,2) by (auto simp: isDuplicate_def t check_and_cache_def direct_dedup_def)
qed


text \<open>Four checks, the last one an hour later, and the log they give.\<close>

abbreviation other_id :: message_id where
  "other_id \<equiv> Message_Id ''123456789012345'' 8"

definition hour_of_checks ::
    "((int \<times> (string \<times> int) list \<Rightarrow> int \<times> (string \<times> int) list) \<times> message_id) list" where
  "hour_of_checks =
     [(id, sample_id), (id, other_id), (id, sample_id),
      (\<lambda>(now, keys). (now + 3600000, keys), sample_id)]"

definition hour_log :: "(message_id \<times> int \<times> dedup_result \<times> int) list" where
  "hour_log =
     [(sample_id, 0, R_UNIQUE, 1), (other_id, 1, R_UNIQUE, 2), (sample_id, 2, R_DUPLICATE, 3),
      (sample_id, 3600003, R_UNIQUE, 3600004)]"

lemma sample_valid: "isValidMessageId sample_id" "isValidMessageId other_id"
  by (simp_all add: isValidMessageId_def sample_id_def is_digit_def)

lemma clock_hour:
  assumes "direct_dedup d"
  shows "\<exists>d' w'. check_log clock_server fst hour_of_checks (d, 0, []) = Some (hour_log, d', w')"
    and "\<exists>d' w'. check_log clock_server fst (take 3 hour_of_checks) (d, 0, []) = Some (take 3 hour_log, d', w') \<and>
      fst w' = 3"
proof -
  have same: "generateRedisKey a m = generateRedisKey d m" if "direct_dedup a" for a m
    using that assms by (simp add: generateRedisKey_def direct_dedup_def)
  define k l where "k = generateRedisKey d sample_id" and "l = generateRedisKey d other_id"
  have kl: "k \<noteq> l" by (simp add: k_def l_def generateRedisKey_def sample_id_def)
  obtain d1 where d1: "isDuplicate clock_server sample_id (d, 0, []) = Some (R_UNIQUE, d1, 1, [(k, 3600000)])"
      "direct_dedup d1"
    using clock_check [OF assms sample_valid(1), where keys = "[]" and now = 0] by (auto simp: k_def)
  obtain d2 where d2: "isDuplicate clock_server other_id (d1, 1, [(k, 3600000)]) =
        Some (R_UNIQUE, d2, 2, [(l, 3600001), (k, 3600000)])" "direct_dedup d2"
    using clock_check [OF d1(2) sample_valid(2), where keys = "[(k, 3600000)]" and now = 1] kl
    by (auto simp: same [OF d1(2)] l_def)
  obtain d3 where d3: "isDuplicate clock_server sample_id (d2, 2, [(l, 3600001), (k, 3600000)]) =
        Some (R_DUPLICATE, d3, 3, [(l, 3600001), (k, 3600000)])" "direct_dedup d3"
    using clock_check [OF d2(2) sample_valid(1), where keys = "[(l, 3600001), (k, 3600000)]" and now = 2] kl
    by (auto simp: same [OF d2(2)] k_def)
  obtain d4 where d4: "isDuplicate clock_server sample_id (d3, 3600003, [(l, 3600001), (k, 3600000)]) =
        Some (R_UNIQUE, d4, 3600004, [(k, 7200003), (l, 3600001), (k, 3600000)])"
    using clock_check [OF d3(2) sample_valid(1), where keys = "[(l, 3600001), (k, 3600000)]" and now = 3600003] kl
    by (auto simp: same [OF d3(2)] k_def)
  show "\<exists>d' w'. check_log clock_server fst hour_of_checks (d, 0, []) = Some (hour_log, d', w')"
    by (simp add: hour_of_checks_def hour_log_def d1 d2 d3 d4)
  show "\<exists>d' w'. check_log clock_server fst (take 3 hour_of_checks) (d, 0, []) = Some (take 3 hour_log, d', w') \<and>
      fst w' = 3"
    by (simp add: hour_of_checks_def hour_log_def d1 d2 d3)
qed

theorem exactly_once_witness:
  "\<exists>c d d' w'. new_cache 1 1 0 = Inr c \<and> d = setLocalCacheFallbackEnabled False (live_dedup c) \<and>
     check_log clock_server fst hour_of_checks (d, 0, []) = Some (hour_log, d', w') \<and>
     once_per_window 3600000 False {} hour_log \<and>
     map (\<lambda>(m, t0, r, t1). r) (take 3 hour_log) = first_occurrences {} [sample_id, other_id, sample_id]"
proof -
  obtain c where c: "new_cache 1 1 0 = Inr c" by (simp add: new_cache_def)
  let ?d = "setLocalCacheFallbackEnabled False (live_dedup c)"
  have d: "dd_initialized ?d" "\<not> dd_shuttingDown ?d" "CHR 0x00 \<notin> set (keyPrefix (dd_config ?d))"
      "deduplicationWindow (dd_config ?d) = 3600000" "dd_pool ?d = Some live_pool" "dd_cache ?d = Some c"
      "\<not> dd_fallback ?d" "direct_dedup ?d"
    by (simp_all add: direct_dedup_def live_dedup_def setLocalCacheFallbackEnabled_def new_deduplicator_def
        createDefaultConfig_def)
  have q: "list_all (\<lambda>(pause, m). (\<forall>w. quiet fst (\<lambda>w. map_of (snd w)) w (pause w)) \<and> isValidMessageId m) cs"
    if "set cs \<subseteq> set hour_of_checks" for cs
    using that sample_valid by (fastforce simp: hour_of_checks_def list_all_iff quiet_def key_kept_def)
  note once = exactly_once [OF live_setup(2) _ q d(1-4) _ _ d(5) live_setup(1) d(6) c, where w = "(0, [])"]
  from clock_hour(1) [OF d(8)] obtain d' w' where
    r: "check_log clock_server fst hour_of_checks (?d, 0, []) = Some (hour_log, d', w')" by blast
  then have "once_per_window 3600000 False {} hour_log" using once [of hour_of_checks] d(7) by auto
  moreover have "map (\<lambda>(m, t0, r, t1). r) (take 3 hour_log) = first_occurrences {} (map snd (take 3 hour_of_checks))"
    using clock_hour(2) [OF d(8)] once [of "take 3 hour_of_checks", OF _ set_take_subset] by auto
  ultimately show ?thesis using c r by (auto simp: hour_of_checks_def)
qed

section \<open>When the server fails\<close>

text \<open>
  C32. A failing server looks like a duplicate: when a healthy connection is checked out and the
  SET command gets any answer but OK, be it an error reply or no reply at all, the message is
  reported as a duplicate, and no Redis failure is counted.
\<close>

theorem redis_failure_is_duplicate:
  assumes "dd_pool d = Some p" "cp_initialized p" "\<not> cp_shuttingDown p" "cp_available p = c # rest"
    "isConnectionHealthy env (c, w) = (True, w1)" "connected c = Some x"
    "fst (hi_command env x (set_command (generateRedisKey d mid) (deduplicationWindow (dd_config d))) w1)
       \<noteq> Some (Reply_Status ''OK'')"
  shows "\<exists>d' w'. checkWithRedis env mid (d, w) = Some (R_DUPLICATE, d', w') \<and>
    dd_redisFailures d' = dd_redisFailures d"
proof -
  obtain c' w2 where "setNX env (generateRedisKey d mid) (deduplicationWindow (dd_config d)) (c, w1) = (False, c', w2)"
  proof -
    let ?r = "setNX env (generateRedisKey d mid) (deduplicationWindow (dd_config d)) (c, w1)"
    have "\<not> fst ?r"
      using assms(6,7) by (auto simp: setNX_def split: prod.splits option.splits redis_reply.splits)
    with that [of "fst (snd ?r)" "snd (snd ?r)"] show thesis by (cases ?r) auto
  qed
  with assms(1-5) show ?thesis
    by (auto simp: checkWithRedis_def getConnection_def split: prod.splits)
qed

definition error_server :: "unit redis_env" where
  "error_server =
     happy_env\<lparr>hi_command := (\<lambda>x args w.
       (Some (if args = [''PING''] then Reply_Status ''PONG'' else Reply_Error (Some ''READONLY'')), w))\<rparr>"

theorem redis_failure_is_duplicate_witness:
  "\<exists>d' w'. checkWithRedis error_server sample_id
      ((new_deduplicator createDefaultConfig)\<lparr>dd_pool := Some live_pool\<rparr>, ()) = Some (R_DUPLICATE, d', w') \<and>
    dd_redisFailures d' = 0"
proof -
  let ?d = "(new_deduplicator createDefaultConfig)\<lparr>dd_pool := Some live_pool\<rparr>"
  have p: "dd_pool ?d = Some live_pool" "cp_initialized live_pool" "\<not> cp_shuttingDown live_pool"
      "cp_available live_pool = live_client # []" "connected live_client = Some 0"
    by (simp_all add: live_pool_def new_pool_def live_client_def new_client_def connected_def)
  have h: "isConnectionHealthy error_server (live_client, ()) = (True, ())"
    by (simp add: isConnectionHealthy_def ping_def live_client_def new_client_def error_server_def)
  have s: "fst (hi_command error_server 0 (set_command k t) ()) \<noteq> Some (Reply_Status ''OK'')" for k t
    by (simp add: error_server_def set_command_def)
  from redis_failure_is_duplicate [OF p(1-4) h p(5) s] show ?thesis by (simp add: new_deduplicator_def)
qed

section \<open>Within the life time of a cache entry\<close>

lemma contains_ttl: "contains t ts te mid c = Some (b, c') \<Longrightarrow> lc_ttl c' = lc_ttl c"
  using settings_frame(1) [of t ts te mid c b c']
  by (simp add: same_settings_def checkAndRunCleanup_def split: if_splits)

lemma checkWithCache_miss:
  assumes "checkWithCache env mid (d, w) = Some (r, d', w')" "dd_cache d = Some c" "cache_wf c"
    "r \<noteq> R_DUPLICATE"
  obtains c' where "dd_cache d' = Some c'" "cache_wf c'" "lc_ttl c' = lc_ttl c"
    "dd_initialized d' = dd_initialized d" "dd_shuttingDown d' = dd_shuttingDown d"
    "dd_fallback d' = dd_fallback d"
proof -
  obtain t w1 ts w2 te w3 where t: "sys_now env w = (t, w1)" "sys_now env w1 = (ts, w2)" "sys_now env w2 = (te, w3)"
    by fastforce
  obtain b c' where c: "contains t ts te mid c = Some (b, c')" "cache_wf c'"
    using lc.look_total [OF assms(3)] lc.look_sound [OF assms(3)] by blast
  from assms(1,2,4) t c contains_ttl [OF c(1)] that [of c'] show thesis
    by (cases b) (auto simp: checkWithCache_def)
qed

lemma checkWithRedis_frame:
  assumes "checkWithRedis env mid (d, w) = Some (r, d', w')"
  shows "dd_cache d' = dd_cache d \<and> dd_initialized d' = dd_initialized d \<and>
    dd_shuttingDown d' = dd_shuttingDown d \<and> dd_fallback d' = dd_fallback d \<and>
    dd_totalChecks d' = dd_totalChecks d \<and> dd_duplicatesFound d' = dd_duplicatesFound d \<and>
    dd_uniqueMessages d' = dd_uniqueMessages d \<and> dd_cacheHits d' = dd_cacheHits d \<and> r \<noteq> R_CACHE_MISS"
  using assms
  by (auto simp: checkWithRedis_def handleRedisFailure_def Let_def split: prod.splits option.splits if_splits)

lemma isDuplicate_unique:
  assumes "isDuplicate env mid (d, w) = Some (R_UNIQUE, d1, w1)"
    "dd_fallback d" "dd_cache d = Some c" "cache_wf c"
  obtains t0 t ts tn c0 c1 b w0 where "fst (sys_now env w0) = t0" "cache_wf c0" "lc_ttl c0 = lc_ttl c"
    "insert_now t0 t ts tn mid c0 = Some (b, c1)" "dd_cache d1 = Some c1" "isValidMessageId mid"
    "dd_initialized d1" "\<not> dd_shuttingDown d1" "dd_fallback d1"
proof -
  from assms(1) have v: "dd_initialized d" "\<not> dd_shuttingDown d" "isValidMessageId mid"
    by (auto simp: isDuplicate_def split: if_splits)
  obtain start w2 where t: "sys_now env w = (start, w2)" by fastforce
  let ?d = "d\<lparr>dd_totalChecks := dd_totalChecks d + 1\<rparr>"
  obtain r d2 w3 where r: "checkWithCache env mid (?d, w2) = Some (r, d2, w3)"
    using assms(1,2) v t by (cases "checkWithCache env mid (?d, w2)") (auto simp: isDuplicate_def)
  have hit: "r \<noteq> R_DUPLICATE"
    using assms(1,2) v t r by (auto simp: isDuplicate_def split: prod.splits)
  have eq: "isDuplicate env mid (d, w) = (case check_and_cache env mid (d2, w3) of None \<Rightarrow> None
      | Some (r, d, w) \<Rightarrow> let (stop, w) = sys_now env w
                         in Some (r, updateLatencyStats (to_micros (stop - start)) d, w))"
    by (simp add: isDuplicate_def v t r hit assms(2))
  obtain d3 w4 l where k: "check_and_cache env mid (d2, w3) = Some (R_UNIQUE, d3, w4)"
      "d1 = updateLatencyStats l d3"
    using assms(1) unfolding eq by (auto split: option.splits prod.splits)
  obtain c0 where c0: "dd_cache d2 = Some c0" "cache_wf c0" "lc_ttl c0 = lc_ttl c"
      "dd_initialized d2 = dd_initialized d" "dd_shuttingDown d2 = dd_shuttingDown d" "dd_fallback d2 = dd_fallback d"
    using checkWithCache_miss [OF r _ assms(4) hit] assms(3) by auto
  obtain r' d4 w5 where x: "checkWithRedis env mid (d2, w3) = Some (r', d4, w5)"
    using k(1) by (auto simp: check_and_cache_def split: option.splits)
  note f = checkWithRedis_frame [OF x]
  obtain t0 v1 t v2 ts v3 tn v4 where c: "sys_now env w5 = (t0, v1)" "sys_now env v1 = (t, v2)"
      "sys_now env v2 = (ts, v3)" "sys_now env v3 = (tn, v4)"
    by fastforce
  have fb: "dd_fallback d4" "dd_cache d4 = Some c0" using f c0 assms(2) by simp_all
  obtain b c1 where i: "insert_now t0 t ts tn mid c0 = Some (b, c1)"
    using k(1) x fb c by (auto simp: check_and_cache_def updateLocalCache_def split: option.splits if_splits)
  have "d3 = count_result R_UNIQUE (d4\<lparr>dd_cache := Some c1\<rparr>)"
    using k(1) x fb c i by (auto simp: check_and_cache_def updateLocalCache_def split: if_splits)
  then have d1: "dd_cache d1 = Some c1" "dd_initialized d1" "\<not> dd_shuttingDown d1" "dd_fallback d1"
    using k(2) f c0 v assms(2) by simp_all
  have "fst (sys_now env w5) = t0" by (simp add: c(1))
  from that [OF this c0(2,3) i d1(1) v(3) d1(2-4)] show thesis .
qed

text \<open>
  The local cache outlives the server: after a message was found unique, a second check of
  it is answered duplicate by the cache, whatever has become of the Redis server and the pool
  behind it, as long as all clock readings fall within one cache life time.
\<close>

lemma cached_duplicate:
  assumes "isDuplicate env mid (d, w) = Some (R_UNIQUE, d1, w1)"
    "dd_fallback d" "dd_cache d = Some c" "cache_wf c"
    "\<And>w. t0 \<le> fst (sys_now env w)"
    "\<And>w. fst (sys_now env' w) \<le> t0 + ms (lc_ttl c)"
  shows "\<exists>d2 w2. isDuplicate env' mid (d1\<lparr>dd_pool := p'\<rparr>, w') = Some (R_DUPLICATE, d2, w2)"
proof -
  obtain s t ts tn c0 c1 b w0 where i: "fst (sys_now env w0) = s" "cache_wf c0" "lc_ttl c0 = lc_ttl c"
      "insert_now s t ts tn mid c0 = Some (b, c1)" "dd_cache d1 = Some c1" "isValidMessageId mid"
      "dd_initialized d1" "\<not> dd_shuttingDown d1" "dd_fallback d1"
    by (rule isDuplicate_unique [OF assms(1-4)])
  obtain q v0 a v1 b' v2 e v3 where k: "sys_now env' w' = (q, v0)" "sys_now env' v0 = (a, v1)"
      "sys_now env' v1 = (b', v2)" "sys_now env' v2 = (e, v3)"
    by fastforce
  have "b' \<le> s + ms (lc_ttl c)" "e \<le> s + ms (lc_ttl c)"
    using assms(5) [of w0] assms(6) [of v1] assms(6) [of v2] unfolding k i(1) by simp_all
  moreover have "insert_until t ts tn mid (s + ms (lc_ttl c)) c0 = Some (b, c1)"
    using i(4) by (simp add: insert_now_def i(3))
  ultimately obtain c2 where c2: "contains a b' e mid c1 = Some (True, c2)"
    using lc.look_after_add [OF i(2)] by blast
  obtain stop v4 where "sys_now env' v3 = (stop, v4)" by fastforce
  with i(5-9) k c2 show ?thesis
    by (simp add: isDuplicate_def checkWithCache_def)
qed

section \<open>Statistics\<close>

definition settled :: "deduplicator \<Rightarrow> u64" where
  "settled d = dd_duplicatesFound d + dd_uniqueMessages d + dd_cacheHits d"

lemma count_result_settled:
  "settled (count_result r d) = settled d + (if r = R_DUPLICATE \<or> r = R_UNIQUE then 1 else 0)"
  by (simp add: count_result_def settled_def)

lemma checkWithCache_counts:
  assumes "checkWithCache env mid (d, w) = Some (r, d', w')"
  shows "dd_initialized d' = dd_initialized d \<and> dd_shuttingDown d' = dd_shuttingDown d \<and>
    dd_totalChecks d' = dd_totalChecks d \<and> settled d' = settled d"
  using assms
  by (auto simp: checkWithCache_def settled_def split: prod.splits option.splits bool.splits)

lemma updateLocalCache_counts:
  assumes "updateLocalCache env mid (d, w) = Some (d', w')"
  shows "dd_initialized d' = dd_initialized d \<and> dd_shuttingDown d' = dd_shuttingDown d \<and>
    dd_totalChecks d' = dd_totalChecks d \<and> settled d' = settled d"
  using assms
  by (auto simp: updateLocalCache_def settled_def split: prod.splits option.splits if_splits)

lemma check_and_cache_counts:
  assumes "check_and_cache env mid (d, w) = Some (r, d', w')"
  shows "dd_initialized d' = dd_initialized d \<and> dd_shuttingDown d' = dd_shuttingDown d \<and>
    dd_totalChecks d' = dd_totalChecks d \<and> settled d' = settled d + (if r = R_ERROR then 0 else 1)"
proof -
  obtain d1 w1 where x: "checkWithRedis env mid (d, w) = Some (r, d1, w1)"
    using assms by (auto simp: check_and_cache_def split: option.splits)
  note f = checkWithRedis_frame [OF x]
  obtain d2 w2 where u: "(if dd_fallback d1 \<and> r \<noteq> R_ERROR then updateLocalCache env mid (d1, w1)
      else Some (d1, w1)) = Some (d2, w2)" "d' = count_result r d2"
    using assms x by (auto simp: check_and_cache_def split: option.splits)
  have "dd_initialized d2 = dd_initialized d1 \<and> dd_shuttingDown d2 = dd_shuttingDown d1 \<and>
    dd_totalChecks d2 = dd_totalChecks d1 \<and> settled d2 = settled d1"
    using u(1) updateLocalCache_counts [of env mid d1 w1 d2 w2] by (auto split: if_splits)
  moreover have "settled d1 = settled d" using f by (simp add: settled_def)
  ultimately show ?thesis using f u(2) by (cases r) (auto simp: count_result_settled)
qed

lemma isDuplicate_counts:
  assumes "isDuplicate env mid (d, w) = Some (r, d', w')" "dd_initialized d" "\<not> dd_shuttingDown d"
  shows "dd_initialized d' \<and> \<not> dd_shuttingDown d' \<and>
    dd_totalChecks d' = dd_totalChecks d + (if isValidMessageId mid then 1 else 0) \<and>
    settled d' = settled d + (if r = R_ERROR then 0 else 1)"
proof (cases "isValidMessageId mid")
  case False
  with assms show ?thesis by (simp add: isDuplicate_def)
next
  case True
  have l: "settled (updateLatencyStats k e) = settled e" for k e by (simp add: settled_def)
  obtain start w1 where t: "sys_now env w = (start, w1)" by fastforce
  let ?d = "d\<lparr>dd_totalChecks := dd_totalChecks d + 1\<rparr>"
  from assms True t obtain q d2 w2 where
    q: "(if dd_fallback ?d then checkWithCache env mid (?d, w1) else Some (R_ERROR, ?d, w1)) = Some (q, d2, w2)"
    by (auto simp: isDuplicate_def Let_def split: option.splits)
  then have c: "dd_initialized d2 \<and> \<not> dd_shuttingDown d2 \<and> dd_totalChecks d2 = dd_totalChecks d + 1 \<and>
      settled d2 = settled d"
    using checkWithCache_counts [of env mid ?d w1 q d2 w2] assms(2,3)
    by (auto simp: settled_def split: if_splits)
  show ?thesis
  proof (cases "q = R_DUPLICATE")
    case hit: True
    from assms True t q c hit show ?thesis
      by (auto simp: isDuplicate_def Let_def l split: prod.splits) (simp_all add: settled_def add.assoc)
  next
    case False
    with assms True t q obtain d3 w3 k where "check_and_cache env mid (d2, w2) = Some (r, d3, w3)"
        "d' = updateLatencyStats k d3"
      by (auto simp: isDuplicate_def Let_def split: option.splits prod.splits)
    with check_and_cache_counts [of env mid d2 w2 r d3 w3] c True show ?thesis by (auto simp: l)
  qed
qed

text \<open>
  C33. The counters account for every check: over any sequence of checks on an initialised
  deduplicator, whatever the server does, the total grows by one for each valid message, and
  duplicates found, unique messages and cache hits together grow by one for each answer that
  is not an error.
\<close>

theorem check_statistics:
  assumes "check_all env mids (d, w) = Some (rs, d', w')" "dd_initialized d" "\<not> dd_shuttingDown d"
  shows "dd_totalChecks d' = dd_totalChecks d + of_nat (length (filter isValidMessageId mids)) \<and>
    dd_duplicatesFound d' + dd_uniqueMessages d' + dd_cacheHits d' =
      dd_duplicatesFound d + dd_uniqueMessages d + dd_cacheHits d
        + of_nat (length (filter (\<lambda>r. r \<noteq> R_ERROR) rs))"
  unfolding settled_def [symmetric] using assms
proof (induction mids arbitrary: d w rs)
  case (Cons m mids)
  obtain r d1 w1 rs1 where r: "isDuplicate env m (d, w) = Some (r, d1, w1)"
      "check_all env mids (d1, w1) = Some (rs1, d', w')" "rs = r # rs1"
    using Cons.prems(1) by (auto split: option.splits)
  note c = isDuplicate_counts [OF r(1) Cons.prems(2,3)]
  from Cons.IH [OF r(2)] c r(3) show ?case by (auto simp: algebra_simps)
qed simp

theorem check_statistics_witness:
  "\<exists>d rs d' w'. check_all clock_server [sample_id, sample_id] (d, 0, []) = Some (rs, d', w') \<and>
     dd_totalChecks d = 0 \<and> dd_totalChecks d' = 2 \<and>
     dd_duplicatesFound d' + dd_uniqueMessages d' + dd_cacheHits d' = of_nat (length rs)"
proof -
  obtain c where c: "new_cache 1 1 0 = Inr c" by (simp add: new_cache_def)
  let ?d = "setLocalCacheFallbackEnabled False (live_dedup c)"
  have d: "direct_dedup ?d" "dd_initialized ?d" "\<not> dd_shuttingDown ?d" "dd_totalChecks ?d = 0"
      "dd_duplicatesFound ?d = 0" "dd_uniqueMessages ?d = 0" "dd_cacheHits ?d = 0"
    by (simp_all add: direct_dedup_def live_dedup_def setLocalCacheFallbackEnabled_def new_deduplicator_def)
  obtain r d1 n ks where 1: "isDuplicate clock_server sample_id (?d, 0, []) = Some (r, d1, n, ks)" "r \<noteq> R_ERROR"
      "direct_dedup d1"
    using clock_check [OF d(1) sample_valid(1), where keys = "[]" and now = 0] by auto
  obtain q d2 w2 where 2: "isDuplicate clock_server sample_id (d1, n, ks) = Some (q, d2, w2)" "q \<noteq> R_ERROR"
    using clock_check [OF 1(3) sample_valid(1), where keys = ks and now = n] by fastforce
  have r: "check_all clock_server [sample_id, sample_id] (?d, 0, []) = Some ([r, q], d2, w2)"
    by (simp add: 1 2)
  from check_statistics [OF r d(2,3)] have "dd_totalChecks d2 = 2"
      "dd_duplicatesFound d2 + dd_uniqueMessages d2 + dd_cacheHits d2 = of_nat (length [r, q])"
    using d(4-7) sample_valid(1) 1(2) 2(2) by simp_all
  with d(4) r show ?thesis by blast
qed


end
