(* ===== verification/Gw_Types.thy ===== *)
theory Gw_Types
  imports Ieee_Float "HOL-Library.Char_ord"
begin

text \<open>
  \<open>udp_gateway/types.hpp\<close>: priorities with their order, device states, queue types, messages,
  commands, error codes, metrics and the \<open>Result\<close> template.
\<close>

section \<open>Enumerations\<close>

datatype priority = LOW | NORMAL | HIGH | CRITICAL

fun priority_index :: "priority \<Rightarrow> nat" where
  "priority_index LOW = 0"
| "priority_index NORMAL = 1"
| "priority_index HIGH = 2"
| "priority_index CRITICAL = 3"

lemma priority_index_inject: "priority_index p = priority_index q \<Longrightarrow> p = q"
  by (cases p; cases q) simp_all

instantiation priority :: linorder
begin

definition less_priority :: "priority \<Rightarrow> priority \<Rightarrow> bool" where
  "less_priority p q = (priority_index p < priority_index q)"

definition less_eq_priority :: "priority \<Rightarrow> priority \<Rightarrow> bool" where
  "less_eq_priority p q = (priority_index p \<le> priority_index q)"

instance
  by standard (auto simp: less_priority_def less_eq_priority_def intro: priority_index_inject)

end

datatype device_state = UNKNOWN | CONNECTED | DISCONNECTED | SUSPENDED

datatype queue_type = INBOUND | DEBUG | DISCARD | OUTBOUND

datatype error_code =
    SUCCESS
  | INVALID_MESSAGE
  | AUTHENTICATION_FAILURE
  | RATE_LIMITED
  | DUPLICATE_MESSAGE
  | DEVICE_SUSPENDED
  | INTERNAL_ERROR
  | DEPENDENCY_FAILURE
  | INVALID_CONFIGURATION

fun errorCodeToString :: "error_code \<Rightarrow> string" where
  "errorCodeToString SUCCESS = ''SUCCESS''"
| "errorCodeToString INVALID_MESSAGE = ''INVALID_MESSAGE''"
| "errorCodeToString AUTHENTICATION_FAILURE = ''AUTHENTICATION_FAILURE''"
| "errorCodeToString RATE_LIMITED = ''RATE_LIMITED''"
| "errorCodeToString DUPLICATE_MESSAGE = ''DUPLICATE_MESSAGE''"
| "errorCodeToString DEVICE_SUSPENDED = ''DEVICE_SUSPENDED''"
| "errorCodeToString INTERNAL_ERROR = ''INTERNAL_ERROR''"
| "errorCodeToString DEPENDENCY_FAILURE = ''DEPENDENCY_FAILURE''"
| "errorCodeToString INVALID_CONFIGURATION = ''INVALID_CONFIGURATION''"

lemma errorCodeToString_inject: "errorCodeToString a = errorCodeToString b \<longleftrightarrow> a = b"
  by (cases a; cases b) simp_all

section \<open>Structures\<close>

record gateway_metrics =
  gm_received :: u64
  gm_processed :: u64
  gm_rejected :: u64
  gm_duplicated :: u64
  gm_bytes :: u64
  gm_active :: u64
  gm_peak :: u64
  gm_perRegion :: "(string \<times> u64) list"
  gm_perError :: "(string \<times> u64) list"
  gm_averageTime :: int
  gm_lastUpdated :: ticks

definition empty_metrics :: "ticks \<Rightarrow> gateway_metrics" where
  "empty_metrics now =
     \<lparr>gm_received = 0, gm_processed = 0, gm_rejected = 0, gm_duplicated = 0, gm_bytes = 0,
      gm_active = 0, gm_peak = 0, gm_perRegion = [], gm_perError = [], gm_averageTime = 0,
      gm_lastUpdated = now\<rparr>"

text \<open>\<open>m[key]++\<close> on an \<open>unordered_map\<close> creates a missing entry with value zero.\<close>

definition bump :: "string \<Rightarrow> (string \<times> u64) list \<Rightarrow> (string \<times> u64) list" where
  "bump k m = al_set k ((case map_of m k of None \<Rightarrow> 0 | Some v \<Rightarrow> v) + 1) m"

record device_message =
  dm_device :: string
  dm_region :: string
  dm_payload :: "u8 list"
  dm_sequence :: u32
  dm_id :: string
  dm_priority :: priority
  dm_timestamp :: ticks
  dm_requiresAck :: bool

record message_ack =
  ack_device :: string
  ack_message :: string
  ack_success :: bool
  ack_reason :: string

record device_command =
  dc_device :: string
  dc_region :: string
  dc_payload :: "u8 list"
  dc_id :: string
  dc_priority :: priority
  dc_timestamp :: ticks
  dc_expiresAt :: ticks
  dc_delivered :: bool
  dc_acknowledged :: bool

section \<open>Results\<close>

text \<open>
  \<open>Result<T>\<close>: a success carries a value and the code \<open>SUCCESS\<close>, an error a code and a text;
  the value of an error result is never read.
\<close>

datatype 'a result = Ok_Result 'a | Error_Result error_code string

fun result_success :: "'a result \<Rightarrow> bool" where
  "result_success (Ok_Result v) = True"
| "result_success (Error_Result c s) = False"

fun result_code :: "'a result \<Rightarrow> error_code" where
  "result_code (Ok_Result v) = SUCCESS"
| "result_code (Error_Result c s) = c"

type_synonym void_result = "bool result"

definition makeSuccessResult :: void_result where
  "makeSuccessResult = Ok_Result True"

definition makeErrorResult :: "error_code \<Rightarrow> string \<Rightarrow> void_result" where
  "makeErrorResult c s = Error_Result c s"

end
