(* ===== verification/Io_Calls.thy ===== *)
theory Io_Calls
  imports Main
begin

text \<open>
  Calls that change a state and may throw: the shape of every operation of the gateway that
  calls another component. An exception derived from \<open>std::exception\<close> carries its text and is
  caught by the handlers of the code; a call through a null pointer is caught by none. The state
  changes made before an exception stay.
\<close>

datatype exc = Std_Exception string | Null_Deref

type_synonym ('s, 'a) io = "'s \<Rightarrow> (exc + 'a) \<times> 's"

definition io_return :: "'a \<Rightarrow> ('s, 'a) io" where
  "io_return x = (\<lambda>s. (Inr x, s))"

definition io_throw :: "exc \<Rightarrow> ('s, 'a) io" where
  "io_throw e = (\<lambda>s. (Inl e, s))"

definition io_bind :: "('s, 'a) io \<Rightarrow> ('a \<Rightarrow> ('s, 'b) io) \<Rightarrow> ('s, 'b) io" where
  "io_bind m f = (\<lambda>s. case m s of (Inl e, s') \<Rightarrow> (Inl e, s') | (Inr x, s') \<Rightarrow> f x s')"

definition io_then :: "('s, 'a) io \<Rightarrow> ('s, 'b) io \<Rightarrow> ('s, 'b) io" where
  "io_then m k = io_bind m (\<lambda>_. k)"

definition io_when :: "bool \<Rightarrow> ('s, unit) io \<Rightarrow> ('s, unit) io" where
  "io_when b m = (if b then m else io_return ())"

text \<open>\<open>try { m } catch (const std::exception& e) { h(e.what()) }\<close>\<close>

definition io_catch :: "('s, 'a) io \<Rightarrow> (string \<Rightarrow> ('s, 'a) io) \<Rightarrow> ('s, 'a) io" where
  "io_catch m h = (\<lambda>s. case m s of (Inl (Std_Exception e), s') \<Rightarrow> h e s' | r \<Rightarrow> r)"

fun io_each :: "('a \<Rightarrow> ('s, unit) io) \<Rightarrow> 'a list \<Rightarrow> ('s, unit) io" where
  "io_each f [] = io_return ()"
| "io_each f (x # xs) = io_then (f x) (io_each f xs)"

text \<open>
  An operation of another component returns or throws a \<open>std::exception\<close>. A call of an operation
  of the component \<open>i\<close> works on the part of the state that \<open>get\<close> reads and \<open>put\<close> writes;
  \<open>None\<close> is the null pointer.
\<close>

type_synonym ('s, 'a) operation = "'s \<Rightarrow> (string + 'a) \<times> 's"

fun io_result :: "string + 'a \<Rightarrow> exc + 'a" where
  "io_result (Inl e) = Inl (Std_Exception e)"
| "io_result (Inr x) = Inr x"

definition io_call ::
    "('w \<Rightarrow> 's) \<Rightarrow> ('s \<Rightarrow> 'w \<Rightarrow> 'w) \<Rightarrow> 'i option \<Rightarrow> ('i \<Rightarrow> ('s, 'a) operation) \<Rightarrow> ('w, 'a) io" where
  "io_call get put i f = (\<lambda>w. case i of
     None \<Rightarrow> (Inl Null_Deref, w)
   | Some c \<Rightarrow> (case f c (get w) of (r, s) \<Rightarrow> (io_result r, put s w)))"

section \<open>Running\<close>

lemma io_simps [simp]:
  "io_return x s = (Inr x, s)"
  "io_throw e s = (Inl e, s)"
  "io_when True m = m"
  "io_when False m = io_return ()"
  by (simp_all add: io_return_def io_throw_def io_when_def)

lemma io_bind_cases:
  "io_bind m f s = (case m s of (Inl e, s') \<Rightarrow> (Inl e, s') | (Inr x, s') \<Rightarrow> f x s')"
  by (simp add: io_bind_def)

lemma io_bind_run [simp]:
  "m s = (Inl e, s') \<Longrightarrow> io_bind m f s = (Inl e, s')"
  "m s = (Inr x, s') \<Longrightarrow> io_bind m f s = f x s'"
  "m s = (Inl e, s') \<Longrightarrow> io_then m k s = (Inl e, s')"
  "m s = (Inr x, s') \<Longrightarrow> io_then m k s = k s'"
  by (simp_all add: io_bind_def io_then_def)

lemma io_catch_run [simp]:
  "m s = (Inr x, s') \<Longrightarrow> io_catch m h s = (Inr x, s')"
  "m s = (Inl (Std_Exception e), s') \<Longrightarrow> io_catch m h s = h e s'"
  "m s = (Inl Null_Deref, s') \<Longrightarrow> io_catch m h s = (Inl Null_Deref, s')"
  by (simp_all add: io_catch_def)

lemma io_bind_InrE:
  assumes "io_bind m f s = (Inr y, s')"
  obtains x t where "m s = (Inr x, t)" "f x t = (Inr y, s')"
  using assms by (auto simp: io_bind_def split: prod.splits sum.splits)

lemma io_then_InrE:
  assumes "io_then m k s = (Inr y, s')"
  obtains x t where "m s = (Inr x, t)" "k t = (Inr y, s')"
  using assms unfolding io_then_def by (rule io_bind_InrE)

section \<open>What a call keeps\<close>

text \<open>\<open>io_keeps P m\<close>: every run of \<open>m\<close> relates the state before and the state after by \<open>P\<close>.\<close>

definition io_keeps :: "('s \<Rightarrow> 's \<Rightarrow> bool) \<Rightarrow> ('s, 'a) io \<Rightarrow> bool" where
  "io_keeps P m \<longleftrightarrow> (\<forall>s. P s (snd (m s)))"

named_theorems keeps "preservation by state-changing calls"

lemma io_keepsD: "io_keeps P m \<Longrightarrow> m s = (r, s') \<Longrightarrow> P s s'"
  by (metis io_keeps_def snd_conv)

lemma keeps_return [keeps]: "reflp P \<Longrightarrow> io_keeps P (io_return x)"
  by (simp add: io_keeps_def reflpD)

lemma keeps_throw [keeps]: "reflp P \<Longrightarrow> io_keeps P (io_throw e)"
  by (simp add: io_keeps_def reflpD)

lemma keeps_bind [keeps]:
  assumes "transp P" "io_keeps P m" "\<And>x. io_keeps P (f x)"
  shows "io_keeps P (io_bind m f)"
  unfolding io_keeps_def
proof
  fix s
  obtain r s' where m: "m s = (r, s')" by fastforce
  show "P s (snd (io_bind m f s))"
  proof (cases r)
    case (Inl e)
    with m io_keepsD [OF assms(2) m] show ?thesis by (simp add: io_bind_def)
  next
    case (Inr x)
    obtain t s'' where f: "f x s' = (t, s'')" by fastforce
    have "P s' s''" by (rule io_keepsD [OF assms(3) f])
    with m Inr f io_keepsD [OF assms(2) m] show ?thesis
      using transpD [OF assms(1)] by (simp add: io_bind_def)
  qed
qed

lemma keeps_then [keeps]:
  "transp P \<Longrightarrow> io_keeps P m \<Longrightarrow> io_keeps P k \<Longrightarrow> io_keeps P (io_then m k)"
  by (simp add: io_then_def keeps_bind)

lemma keeps_when [keeps]: "reflp P \<Longrightarrow> io_keeps P m \<Longrightarrow> io_keeps P (io_when b m)"
  unfolding io_when_def by (cases b) (simp_all only: if_True if_False keeps_return)

lemma keeps_catch [keeps]:
  assumes "transp P" "io_keeps P m" "\<And>e. io_keeps P (h e)"
  shows "io_keeps P (io_catch m h)"
  unfolding io_keeps_def
proof
  fix s
  obtain r s' where m: "m s = (r, s')" by fastforce
  note P = io_keepsD [OF assms(2) m]
  show "P s (snd (io_catch m h s))"
  proof (cases r)
    case (Inr x)
    with m P show ?thesis by simp
  next
    case (Inl e)
    show ?thesis
    proof (cases e)
      case (Std_Exception t)
      obtain u s'' where h: "h t s' = (u, s'')" by fastforce
      have "P s' s''" by (rule io_keepsD [OF assms(3) h])
      with m Inl Std_Exception h P show ?thesis using transpD [OF assms(1)] by simp
    qed (use m Inl P in simp)
  qed
qed

lemma keeps_each [keeps]:
  assumes "reflp P" "transp P" "\<And>x. io_keeps P (f x)"
  shows "io_keeps P (io_each f xs)"
  by (induction xs) (simp_all only: io_each.simps assms keeps_return keeps_then)

lemma keeps_call [keeps]:
  "reflp P \<Longrightarrow> (\<And>w s. P w (put s w)) \<Longrightarrow> io_keeps P (io_call get put i f)"
  by (auto simp: io_keeps_def io_call_def reflpD split: option.splits prod.splits)

lemma keeps_if [keeps]: "io_keeps P m \<Longrightarrow> io_keeps P k \<Longrightarrow> io_keeps P (if b then m else k)"
  by simp

lemma keeps_mono: "io_keeps P m \<Longrightarrow> (\<And>s t. P s t \<Longrightarrow> Q s t) \<Longrightarrow> io_keeps Q m"
  by (auto simp: io_keeps_def)

text \<open>The relation used most: a part of the state is unchanged.\<close>

definition same :: "('s \<Rightarrow> 'a) \<Rightarrow> 's \<Rightarrow> 's \<Rightarrow> bool" where
  "same f s t \<longleftrightarrow> f t = f s"

lemma same_refl [simp, keeps]: "reflp (same f)" "transp (same f)" "same f s s"
  by (auto simp: same_def intro!: reflpI transpI)

section \<open>No null pointer\<close>

definition io_safe :: "('s, 'a) io \<Rightarrow> bool" where
  "io_safe m \<longleftrightarrow> (\<forall>s. fst (m s) \<noteq> Inl Null_Deref)"

named_theorems safe "calls that reach no null pointer"

lemma io_safeD: "io_safe m \<Longrightarrow> m s = (Inl Null_Deref, s') \<Longrightarrow> False"
  by (metis fst_conv io_safe_def)

lemma safe_return [safe]: "io_safe (io_return x)"
  by (simp add: io_safe_def)

lemma safe_bind [safe]: "io_safe m \<Longrightarrow> (\<And>x. io_safe (f x)) \<Longrightarrow> io_safe (io_bind m f)"
  by (auto simp: io_safe_def io_bind_def split: prod.splits sum.splits) (metis fst_conv)+

lemma safe_then [safe]: "io_safe m \<Longrightarrow> io_safe k \<Longrightarrow> io_safe (io_then m k)"
  by (simp add: io_then_def safe_bind)

lemma safe_when [safe]: "(b \<Longrightarrow> io_safe m) \<Longrightarrow> io_safe (io_when b m)"
  by (cases b) (simp_all only: io_when_def if_True if_False safe_return)

lemma safe_if [safe]: "(b \<Longrightarrow> io_safe m) \<Longrightarrow> (\<not> b \<Longrightarrow> io_safe k) \<Longrightarrow> io_safe (if b then m else k)"
  by simp

lemma safe_each [safe]: "(\<And>x. io_safe (f x)) \<Longrightarrow> io_safe (io_each f xs)"
  by (induction xs) (simp_all only: io_each.simps safe_return safe_then)

lemma safe_call [safe]: "i \<noteq> None \<Longrightarrow> io_safe (io_call get put i f)"
  by (auto simp: io_safe_def io_call_def split: prod.splits elim: io_result.elims)

lemma safe_catch [safe]: "io_safe m \<Longrightarrow> (\<And>e. io_safe (h e)) \<Longrightarrow> io_safe (io_catch m h)"
  by (auto simp: io_safe_def io_catch_def split: prod.splits sum.splits exc.splits) (metis fst_conv)+

end
