(* ===== verification/Session.thy ===== *)
theory Session
  imports Gw_Types Io_Calls Proto_Message
begin

text \<open>
  \<open>udp-gateway\<close>: \<open>session.hpp\<close> and \<open>session.cpp\<close>. A session receives datagrams, parses and checks
  them, hands accepted messages to its handler and answers the sender. The components it calls are
  the interfaces declared at the top of \<open>session.cpp\<close>: records of operations on a state of their
  own, with \<open>None\<close> for a null pointer. The world of a session is the states of these components
  and the list of datagrams sent; a handler may extend it with a state of its own.
\<close>

section \<open>Components\<close>

record 'q protocol_parser =
  parseMessage :: "u8 list \<Rightarrow> ('q, device_message result) operation"
  createAcknowledgment :: "message_ack \<Rightarrow> ('q, u8 list) operation"
  createCommandPacket :: "device_command list \<Rightarrow> ('q, u8 list) operation"

record 'd dedup_service =
  svc_isDuplicate :: "string \<Rightarrow> u32 \<Rightarrow> string \<Rightarrow> ('d, bool) operation"
  svc_recordMessage :: "string \<Rightarrow> u32 \<Rightarrow> string \<Rightarrow> ('d, unit) operation"

record 'p message_publisher =
  publishMessage :: "string \<Rightarrow> u8 list \<Rightarrow> ('p, bool) operation"

record 'm device_manager =
  isAuthenticated :: "string \<Rightarrow> ('m, bool) operation"
  getDeviceState :: "string \<Rightarrow> ('m, device_state) operation"
  updateDeviceStatus :: "string \<Rightarrow> device_state \<Rightarrow> ('m, unit) operation"
  dm_getPendingCommands :: "string \<Rightarrow> ('m, device_command list) operation"
  markCommandDelivered :: "string \<Rightarrow> ('m, unit) operation"

record 'l rate_limiter_if =
  if_checkLimit :: "string \<Rightarrow> priority \<Rightarrow> ('l, bool) operation"
  if_recordMessage :: "string \<Rightarrow> priority \<Rightarrow> nat \<Rightarrow> ('l, unit) operation"

record 'x metrics_collector =
  incrementCounter :: "string \<Rightarrow> u64 \<Rightarrow> ('x, unit) operation"
  recordGauge :: "string \<Rightarrow> fp \<Rightarrow> ('x, unit) operation"
  recordError :: "string \<Rightarrow> ('x, unit) operation"

record ('q, 'd, 'p, 'm, 'l, 'x) deps =
  protocolParser :: "'q protocol_parser option"
  deduplicationService :: "'d dedup_service option"
  messagePublisher :: "'p message_publisher option"
  deviceManager :: "'m device_manager option"
  rateLimiter :: "'l rate_limiter_if option"
  metricsCollector :: "'x metrics_collector option"

datatype endpoint = Endpoint string u16

record ('q, 'd, 'p, 'm, 'l, 'x) world =
  w_parser :: 'q
  w_dedup :: 'd
  w_publisher :: 'p
  w_devices :: 'm
  w_limiter :: 'l
  w_collector :: 'x
  w_sent :: "(u8 list \<times> endpoint) list"

record 'w session_handler =
  sh_handleMessage :: "device_message \<Rightarrow> ('w, void_result) io"
  sh_handleError :: "string \<Rightarrow> error_code \<Rightarrow> string \<Rightarrow> ('w, unit) io"
  sh_getPendingCommands :: "string \<Rightarrow> ('w, device_command list) io"

text \<open>Calls of the components.\<close>

definition on_parser where
  "on_parser d f = io_call w_parser (\<lambda>s w. w\<lparr>w_parser := s\<rparr>) (protocolParser d) f"

definition on_dedup where
  "on_dedup d f = io_call w_dedup (\<lambda>s w. w\<lparr>w_dedup := s\<rparr>) (deduplicationService d) f"

definition on_publisher where
  "on_publisher d f = io_call w_publisher (\<lambda>s w. w\<lparr>w_publisher := s\<rparr>) (messagePublisher d) f"

definition on_devices where
  "on_devices d f = io_call w_devices (\<lambda>s w. w\<lparr>w_devices := s\<rparr>) (deviceManager d) f"

definition on_limiter where
  "on_limiter d f = io_call w_limiter (\<lambda>s w. w\<lparr>w_limiter := s\<rparr>) (rateLimiter d) f"

text \<open>Every use of the metrics collector is guarded by \<open>if (metricsCollector_)\<close>.\<close>

definition on_collector where
  "on_collector d f =
     io_when (metricsCollector d \<noteq> None)
       (io_call w_collector (\<lambda>s w. w\<lparr>w_collector := s\<rparr>) (metricsCollector d) f)"

definition send_to :: "u8 list \<Rightarrow> endpoint \<Rightarrow> (('q, 'd, 'p, 'm, 'l, 'x, 'z) world_scheme, unit) io" where
  "send_to bytes ep = (\<lambda>w. (Inr (), w\<lparr>w_sent := w_sent w @ [(bytes, ep)]\<rparr>))"

section \<open>Processing a packet\<close>

record session_config =
  sc_regionCode :: string
  sc_maxMessageSize :: nat
  sc_enableDebugging :: bool
  sc_enableAcknowledgments :: bool
  sc_processingTimeout :: int

definition updateMetrics where
  "updateMetrics d success errorType =
     (if success then on_collector d (\<lambda>c. incrementCounter c ''packets_processed'' 1)
      else io_then (on_collector d (\<lambda>c. incrementCounter c ''packets_rejected'' 1))
             (io_when (errorType \<noteq> []) (on_collector d (\<lambda>c. recordError c errorType))))"

definition sendAcknowledgment where
  "sendAcknowledgment d m code sender =
     (let ack = \<lparr>ack_device = dm_device m, ack_message = dm_id m, ack_success = (code = SUCCESS),
                 ack_reason = (if code = SUCCESS then [] else errorCodeToString code)\<rparr>
      in io_bind (on_parser d (\<lambda>p. createAcknowledgment p ack)) (\<lambda>packet.
         io_then (send_to packet sender)
           (on_collector d (\<lambda>c. incrementCounter c ''acknowledgments_sent'' 1))))"

definition sendCommands where
  "sendCommands d h dev sender =
     io_bind (sh_getPendingCommands h dev) (\<lambda>commands.
       io_when (commands \<noteq> [])
         (io_bind (on_parser d (\<lambda>p. createCommandPacket p commands)) (\<lambda>packet.
          io_then (send_to packet sender)
          (io_then (io_each (\<lambda>c. on_devices d (\<lambda>dm. markCommandDelivered dm (dc_id c))) commands)
            (on_collector d (\<lambda>c. incrementCounter c ''commands_sent'' (word_of_nat (length commands))))))))"

text \<open>
  The steps of \<open>parseAndValidate\<close>, the last one first: recording, the rate limit, the duplicate
  check, and the checks of the device.
\<close>

definition record_accepted where
  "record_accepted d len m =
     io_then (on_dedup d (\<lambda>s. svc_recordMessage s (dm_device m) (dm_sequence m) (dm_id m)))
     (io_then (on_limiter d (\<lambda>l. if_recordMessage l (dm_device m) (dm_priority m) len))
     (io_then (on_devices d (\<lambda>dm. updateDeviceStatus dm (dm_device m) CONNECTED))
       (io_return (Ok_Result m))))"

definition check_rate where
  "check_rate d len m =
     io_bind (on_limiter d (\<lambda>l. if_checkLimit l (dm_device m) (dm_priority m))) (\<lambda>allowed.
       if \<not> allowed
       then io_return (Error_Result RATE_LIMITED (''Device exceeded rate limit: '' @ dm_device m))
       else record_accepted d len m)"

definition check_duplicate where
  "check_duplicate d len m =
     io_bind (on_dedup d (\<lambda>s. svc_isDuplicate s (dm_device m) (dm_sequence m) (dm_id m))) (\<lambda>dup.
       if dup
       then io_return (Error_Result DUPLICATE_MESSAGE (''Duplicate message detected: '' @ dm_id m))
       else check_rate d len m)"

definition validate where
  "validate d len m =
     io_bind (on_devices d (\<lambda>dm. isAuthenticated dm (dm_device m))) (\<lambda>auth.
       if \<not> auth
       then io_return
              (Error_Result AUTHENTICATION_FAILURE (''Device is not authenticated: '' @ dm_device m))
       else io_bind (on_devices d (\<lambda>dm. getDeviceState dm (dm_device m))) (\<lambda>st.
         if st = SUSPENDED
         then io_return (Error_Result DEVICE_SUSPENDED (''Device is suspended: '' @ dm_device m))
         else check_duplicate d len m))"

definition parseAndValidate where
  "parseAndValidate d cfg data =
     io_bind (on_parser d (\<lambda>p. parseMessage p data)) (\<lambda>r.
       case r of
         Error_Result c e \<Rightarrow>
           io_return (Error_Result INVALID_MESSAGE (''Failed to parse message: '' @ e))
       | Ok_Result m \<Rightarrow> validate d (length data) (m\<lparr>dm_region := sc_regionCode cfg\<rparr>))"

definition device_of_packet :: "u8 list \<Rightarrow> string" where
  "device_of_packet data =
     (if 15 \<le> length data then map char_of_byte (take 15 data) else ''unknown'')"

definition handle_accepted where
  "handle_accepted d h cfg sender m =
     io_then (updateMetrics d True [])
     (io_bind (sh_handleMessage h m) (\<lambda>r.
      io_then
        (io_when (dm_requiresAck m \<and> sc_enableAcknowledgments cfg)
           (sendAcknowledgment d m (if result_success r then SUCCESS else result_code r) sender))
        (io_when (result_success r) (sendCommands d h (dm_device m) sender))))"

definition handle_rejected where
  "handle_rejected d h data code msg =
     io_then (updateMetrics d False (errorCodeToString code))
       (sh_handleError h (device_of_packet data) code msg)"

definition processPacket where
  "processPacket d h cfg data sender =
     io_bind (parseAndValidate d cfg data) (\<lambda>r.
       case r of
         Ok_Result m \<Rightarrow> handle_accepted d h cfg sender m
       | Error_Result c e \<Rightarrow> handle_rejected d h data c e)"

section \<open>The receive loop\<close>

record session =
  sn_config :: session_config
  sn_buffer :: "u8 list"
  sn_sender :: endpoint
  sn_active :: bool
  sn_receiving :: bool
  sn_packetsReceived :: u64
  sn_packetsProcessed :: u64
  sn_packetsRejected :: u64
  sn_bytesReceived :: u64

definition new_session :: "session_config \<Rightarrow> session" where
  "new_session cfg =
     \<lparr>sn_config = cfg, sn_buffer = replicate (sc_maxMessageSize cfg) 0, sn_sender = Endpoint [] 0,
      sn_active = False, sn_receiving = False, sn_packetsReceived = 0, sn_packetsProcessed = 0,
      sn_packetsRejected = 0, sn_bytesReceived = 0\<rparr>"

text \<open>\<open>sn_receiving\<close>: an asynchronous receive is pending on the socket.\<close>

definition doReceive :: "session \<Rightarrow> session" where
  "doReceive s = (if sn_active s then s\<lparr>sn_receiving := True\<rparr> else s)"

definition session_start :: "session \<Rightarrow> session" where
  "session_start s = doReceive (s\<lparr>sn_active := True\<rparr>)"

definition session_stop :: "session \<Rightarrow> session" where
  "session_stop s = s\<lparr>sn_active := False, sn_receiving := False\<rparr>"

datatype socket_error = Operation_Aborted | Socket_Error string

text \<open>
  The completion handler of the receive. An exception that leaves it leaves the receive loop too:
  \<open>doReceive\<close> is not reached.
\<close>

definition handlePacket where
  "handlePacket d h err n = (\<lambda>(s, w).
     if \<not> sn_active s then (Inr (), s, w)
     else
       let (r, s, w) =
         (case err of
            None \<Rightarrow>
              if 0 < n then
                let s = s\<lparr>sn_packetsReceived := sn_packetsReceived s + 1,
                          sn_bytesReceived := sn_bytesReceived s + word_of_nat n\<rparr>
                in (case processPacket d h (sn_config s) (take n (sn_buffer s)) (sn_sender s) w of
                      (Inr _, w) \<Rightarrow> (Inr (), s\<lparr>sn_packetsProcessed := sn_packetsProcessed s + 1\<rparr>, w)
                    | (Inl (Std_Exception e), w) \<Rightarrow>
                        (case on_collector d (\<lambda>c. recordError c ''packet_processing_exception'') w of
                           (r, w) \<Rightarrow> (r, s\<lparr>sn_packetsRejected := sn_packetsRejected s + 1\<rparr>, w))
                    | (Inl Null_Deref, w) \<Rightarrow> (Inl Null_Deref, s, w))
              else (Inr (), s, w)
          | Some Operation_Aborted \<Rightarrow> (Inr (), s, w)
          | Some (Socket_Error e) \<Rightarrow>
              (case on_collector d (\<lambda>c. recordError c ''socket_error'') w of (r, w) \<Rightarrow> (r, s, w)))
       in (case r of Inl x \<Rightarrow> (Inl x, s, w) | Inr _ \<Rightarrow> (Inr (), doReceive s, w)))"

text \<open>
  The completion of a pending receive: the socket layer writes the datagram, cut to the size of
  the buffer, and the sender into the session and calls \<open>handlePacket\<close>. Without a pending receive
  a datagram is not read.
\<close>

definition receive_datagram where
  "receive_datagram d h data sender = (\<lambda>(s, w).
     if \<not> sn_receiving s then (Inr (), s, w)
     else
       let n = min (length data) (length (sn_buffer s))
       in handlePacket d h None n
            (s\<lparr>sn_receiving := False, sn_buffer := take n data @ drop n (sn_buffer s),
               sn_sender := sender\<rparr>, w))"

definition receive_error where
  "receive_error d h e = (\<lambda>(s, w).
     if \<not> sn_receiving s then (Inr (), s, w)
     else handlePacket d h (Some e) 0 (s\<lparr>sn_receiving := False\<rparr>, w))"

section \<open>Runs of a session\<close>

datatype session_event = Datagram "u8 list" endpoint | Failure socket_error | Start | Stop

definition session_step where
  "session_step d h ev = (\<lambda>(s, w). case ev of
     Datagram data sender \<Rightarrow> receive_datagram d h data sender (s, w)
   | Failure e \<Rightarrow> receive_error d h e (s, w)
   | Start \<Rightarrow> (Inr (), session_start s, w)
   | Stop \<Rightarrow> (Inr (), session_stop s, w))"

text \<open>An exception that leaves a completion handler ends the run of the worker thread.\<close>

fun session_run where
  "session_run d h [] c = (Inr (), c)"
| "session_run d h (ev # evs) c = io_then (session_step d h ev) (session_run d h evs) c"

text \<open>The message that a packet is accepted as in a given world, and those of a run.\<close>

definition accepted where
  "accepted d cfg data w =
     (case parseAndValidate d cfg data w of (Inr (Ok_Result m), w') \<Rightarrow> Some m | _ \<Rightarrow> None)"

definition event_accepted where
  "event_accepted d ev = (\<lambda>(s, w). case ev of
     Datagram data sender \<Rightarrow>
       let packet = take (length (sn_buffer s)) data
       in if sn_receiving s \<and> sn_active s \<and> packet \<noteq> []
          then (case accepted d (sn_config s) packet w of None \<Rightarrow> [] | Some m \<Rightarrow> [m]) else []
   | _ \<Rightarrow> [])"

fun run_accepted where
  "run_accepted d h [] c = []"
| "run_accepted d h (ev # evs) c =
     event_accepted d ev c @
     (case session_step d h ev c of (Inr _, c') \<Rightarrow> run_accepted d h evs c' | _ \<Rightarrow> [])"

definition message_key :: "device_message \<Rightarrow> string \<times> u32 \<times> string" where
  "message_key m = (dm_device m, dm_sequence m, dm_id m)"

section \<open>What the session relies on in the deduplication service\<close>

text \<open>
  \<open>seen\<close> is the set of recorded keys: \<open>isDuplicate\<close> answers whether a key was recorded,
  \<open>recordMessage\<close> records it; either may throw. It is an assumption on the implementation of the
  interface that no key is forgotten, so it speaks of runs shorter than a deduplication window.
\<close>

definition dedup_contract where
  "dedup_contract svc seen \<longleftrightarrow>
     (\<forall>dev n i s r s'. svc_isDuplicate svc dev n i s = (r, s') \<longrightarrow>
        seen s' = seen s \<and> (\<forall>b. r = Inr b \<longrightarrow> b = ((dev, n, i) \<in> seen s))) \<and>
     (\<forall>dev n i s r s'. svc_recordMessage svc dev n i s = (r, s') \<longrightarrow>
        seen s \<subseteq> seen s' \<and> seen s' \<subseteq> insert (dev, n, i) (seen s) \<and>
        (\<forall>u. r = Inr u \<longrightarrow> (dev, n, i) \<in> seen s'))"

lemma dedup_contract_isDuplicate:
  "dedup_contract svc seen \<Longrightarrow> svc_isDuplicate svc dev n i s = (r, s') \<Longrightarrow>
    seen s' = seen s \<and> (\<forall>b. r = Inr b \<longrightarrow> b = ((dev, n, i) \<in> seen s))"
  unfolding dedup_contract_def by (drule conjunct1, drule spec, drule spec, drule spec, drule spec, drule spec, drule spec, erule mp)

lemma dedup_contract_record:
  "dedup_contract svc seen \<Longrightarrow> svc_recordMessage svc dev n i s = (r, s') \<Longrightarrow>
    seen s \<subseteq> seen s' \<and> seen s' \<subseteq> insert (dev, n, i) (seen s) \<and>
    (\<forall>u. r = Inr u \<longrightarrow> (dev, n, i) \<in> seen s')"
  unfolding dedup_contract_def by (drule conjunct2, drule spec, drule spec, drule spec, drule spec, drule spec, drule spec, erule mp)

section \<open>What the calls of a session keep\<close>

text \<open>Each call of a component changes the part of that component only.\<close>

lemma calls_keep [keeps]:
  "io_keeps (same w_dedup) (on_parser d f)" "io_keeps (same w_dedup) (on_publisher d g)"
  "io_keeps (same w_dedup) (on_devices d i)" "io_keeps (same w_dedup) (on_limiter d j)"
  "io_keeps (same w_dedup) (on_collector d k)" "io_keeps (same w_dedup) (send_to b ep)"
  "io_keeps (same w_sent) (on_parser d f)" "io_keeps (same w_sent) (on_publisher d g)"
  "io_keeps (same w_sent) (on_devices d i)" "io_keeps (same w_sent) (on_limiter d j)"
  "io_keeps (same w_sent) (on_collector d k)" "io_keeps (same w_sent) (on_dedup d l)"
  "io_keeps (same w_publisher) (on_parser d f)" "io_keeps (same w_publisher) (on_dedup d l)"
  "io_keeps (same w_publisher) (on_devices d i)" "io_keeps (same w_publisher) (on_limiter d j)"
  "io_keeps (same w_publisher) (on_collector d k)" "io_keeps (same w_publisher) (send_to b ep)"
  by (auto simp: on_parser_def on_publisher_def on_devices_def on_limiter_def on_collector_def
      on_dedup_def send_to_def io_keeps_def io_call_def io_when_def same_def split: option.splits prod.splits)

lemma limiter_keeps [keeps]:
  "io_keeps (same w_limiter) (on_parser d f)" "io_keeps (same w_limiter) (on_publisher d g)"
  "io_keeps (same w_limiter) (on_devices d i)" "io_keeps (same w_limiter) (on_dedup d l)"
  "io_keeps (same w_limiter) (on_collector d k)" "io_keeps (same w_limiter) (send_to b ep)"
  by (auto simp: on_parser_def on_publisher_def on_devices_def on_collector_def
      on_dedup_def send_to_def io_keeps_def io_call_def io_when_def same_def split: option.splits prod.splits)

lemma validate_keeps [keeps]:
  "io_keeps (same w_sent) (validate d n m)" "io_keeps (same w_publisher) (validate d n m)"
  unfolding validate_def check_duplicate_def check_rate_def record_accepted_def by (intro keeps)+

lemma parseAndValidate_keeps [keeps]:
  "io_keeps (same w_sent) (parseAndValidate d cfg data)"
  "io_keeps (same w_publisher) (parseAndValidate d cfg data)"
  unfolding parseAndValidate_def
  by (intro keeps; simp split: result.split add: keeps)+

section \<open>Recording\<close>

definition seen_grows :: "('d \<Rightarrow> 'k set) \<Rightarrow> ('q, 'd, 'p, 'm, 'l, 'x, 'z) world_scheme \<Rightarrow>
    ('q, 'd, 'p, 'm, 'l, 'x, 'z) world_scheme \<Rightarrow> bool" where
  "seen_grows seen w w' \<longleftrightarrow> seen (w_dedup w) \<subseteq> seen (w_dedup w')"

lemma seen_grows_refl [simp, keeps]: "reflp (seen_grows seen)" "transp (seen_grows seen)"
  by (auto simp: seen_grows_def intro!: reflpI transpI)

lemma same_seen_grows: "io_keeps (same w_dedup) m \<Longrightarrow> io_keeps (seen_grows seen) m"
  by (erule keeps_mono) (simp add: same_def seen_grows_def)

lemma dedup_calls_grow [keeps]:
  assumes "deduplicationService d = Some svc" "dedup_contract svc seen"
  shows "io_keeps (seen_grows seen) (on_dedup d (\<lambda>s. svc_isDuplicate s dev n i))"
    "io_keeps (seen_grows seen) (on_dedup d (\<lambda>s. svc_recordMessage s dev n i))"
  using assms(1) dedup_contract_isDuplicate [OF assms(2)] dedup_contract_record [OF assms(2)]
  by (auto simp: io_keeps_def on_dedup_def io_call_def seen_grows_def split: prod.splits)

lemmas other_calls_grow [keeps] = calls_keep(1-6) [THEN same_seen_grows]

lemma validate_grows [keeps]:
  assumes "deduplicationService d = Some svc" "dedup_contract svc seen"
  shows "io_keeps (seen_grows seen) (validate d n m)"
  unfolding validate_def check_duplicate_def check_rate_def record_accepted_def
  by (intro keeps dedup_calls_grow [OF assms])

lemma parseAndValidate_grows [keeps]:
  assumes "deduplicationService d = Some svc" "dedup_contract svc seen"
  shows "io_keeps (seen_grows seen) (parseAndValidate d cfg data)"
  unfolding parseAndValidate_def
  by (intro keeps; simp split: result.split add: keeps validate_grows [OF assms])

lemma on_dedup_InrE:
  assumes "on_dedup d f w = (Inr x, w')" "deduplicationService d = Some svc"
  obtains s where "f svc (w_dedup w) = (Inr x, s)" "w' = w\<lparr>w_dedup := s\<rparr>"
  using assms by (auto simp: on_dedup_def io_call_def split: prod.splits elim!: io_result.elims)

lemma call_keeps_dedup:
  "on_devices d i w = (r, w') \<Longrightarrow> w_dedup w' = w_dedup w"
  "on_limiter d j w = (t, w') \<Longrightarrow> w_dedup w' = w_dedup w"
  using io_keepsD [OF calls_keep(3)] io_keepsD [OF calls_keep(4)] by (fastforce simp: same_def)+

lemma record_accepted_InrE:
  assumes "record_accepted d n m w = (Inr r, w')" "deduplicationService d = Some svc" "dedup_contract svc seen"
  shows "r = Ok_Result m \<and> message_key m \<in> seen (w_dedup w') \<and> seen (w_dedup w) \<subseteq> seen (w_dedup w')"
proof -
  from assms(1) obtain u v x w1 w2 w3 where
    "on_dedup d (\<lambda>s. svc_recordMessage s (dm_device m) (dm_sequence m) (dm_id m)) w = (Inr u, w1)"
    "on_limiter d (\<lambda>l. if_recordMessage l (dm_device m) (dm_priority m) n) w1 = (Inr v, w2)"
    "on_devices d (\<lambda>dm. updateDeviceStatus dm (dm_device m) CONNECTED) w2 = (Inr x, w3)"
    "r = Ok_Result m" "w' = w3"
    unfolding record_accepted_def by (elim io_then_InrE) simp
  moreover from this(1) assms(2) obtain s where
    "svc_recordMessage svc (dm_device m) (dm_sequence m) (dm_id m) (w_dedup w) = (Inr u, s)" "w1 = w\<lparr>w_dedup := s\<rparr>"
    by (rule on_dedup_InrE)
  ultimately show ?thesis
    using dedup_contract_record [OF assms(3)] by (simp add: call_keeps_dedup message_key_def)
qed

lemma validate_InrE:
  assumes ok: "validate d n m w = (Inr (Ok_Result m'), w')"
    and svc: "deduplicationService d = Some svc" "dedup_contract svc seen"
  shows "m' = m \<and> message_key m \<notin> seen (w_dedup w) \<and> message_key m \<in> seen (w_dedup w')"
proof -
  from ok obtain auth st w1 w2 where
    "on_devices d (\<lambda>dm. isAuthenticated dm (dm_device m)) w = (Inr auth, w1)"
    "on_devices d (\<lambda>dm. getDeviceState dm (dm_device m)) w1 = (Inr st, w2)"
    and c: "check_duplicate d n m w2 = (Inr (Ok_Result m'), w')"
    unfolding validate_def by (elim io_bind_InrE) (fastforce split: if_splits elim!: io_bind_InrE)
  then have w2: "w_dedup w2 = w_dedup w" by (simp add: call_keeps_dedup)
  from c obtain dup w3 where
    dup: "on_dedup d (\<lambda>s. svc_isDuplicate s (dm_device m) (dm_sequence m) (dm_id m)) w2 = (Inr dup, w3)"
    and r: "\<not> dup" "check_rate d n m w3 = (Inr (Ok_Result m'), w')"
    unfolding check_duplicate_def by (elim io_bind_InrE) (auto split: if_splits)
  from r obtain ok' w4 where "on_limiter d (\<lambda>l. if_checkLimit l (dm_device m) (dm_priority m)) w3 = (Inr ok', w4)"
    and a: "record_accepted d n m w4 = (Inr (Ok_Result m'), w')"
    unfolding check_rate_def by (elim io_bind_InrE) (auto split: if_splits)
  then have w4: "w_dedup w4 = w_dedup w3" by (simp add: call_keeps_dedup)
  from dup svc(1) obtain s where
    "svc_isDuplicate svc (dm_device m) (dm_sequence m) (dm_id m) (w_dedup w2) = (Inr dup, s)" "w3 = w2\<lparr>w_dedup := s\<rparr>"
    by (rule on_dedup_InrE)
  with dedup_contract_isDuplicate [OF svc(2) this(1)] w2 r(1) have "message_key m \<notin> seen (w_dedup w)"
    by (auto simp: message_key_def)
  with record_accepted_InrE [OF a svc] show ?thesis by simp
qed

lemma accepted_key:
  assumes ok: "parseAndValidate d cfg data w = (Inr (Ok_Result m), w')"
    and svc: "deduplicationService d = Some svc" "dedup_contract svc seen"
  shows "message_key m \<notin> seen (w_dedup w) \<and> message_key m \<in> seen (w_dedup w')"
proof -
  from ok obtain r w1 where p: "on_parser d (\<lambda>p. parseMessage p data) w = (Inr r, w1)"
    and v: "(case r of Error_Result c e \<Rightarrow>
           io_return (Error_Result INVALID_MESSAGE (''Failed to parse message: '' @ e))
       | Ok_Result m \<Rightarrow> validate d (length data) (m\<lparr>dm_region := sc_regionCode cfg\<rparr>)) w1 =
      (Inr (Ok_Result m), w')"
    unfolding parseAndValidate_def by (rule io_bind_InrE)
  have w1: "w_dedup w1 = w_dedup w"
    using io_keepsD [OF calls_keep(1) p] by (simp add: same_def)
  show ?thesis
  proof (cases r)
    case (Ok_Result m0)
    with v have "validate d (length data) (m0\<lparr>dm_region := sc_regionCode cfg\<rparr>) w1 = (Inr (Ok_Result m), w')"
      by simp
    from validate_InrE [OF this svc] w1 show ?thesis by simp
  qed (use v in simp)
qed

section \<open>The session and its handler\<close>

text \<open>
  What a session relies on in its handler: it leaves the deduplication service and the socket
  alone. Then every message is accepted at most once, and packets that are not accepted are not
  answered.
\<close>

locale session_handling =
  fixes h :: "('q, 'd, 'p, 'm, 'l, 'x, 'z) world_scheme session_handler"
  assumes handler_dedup: "io_keeps (same w_dedup) (sh_handleMessage h m)"
      "io_keeps (same w_dedup) (sh_handleError h dev c e)"
      "io_keeps (same w_dedup) (sh_getPendingCommands h dev)"
    and handler_sent: "io_keeps (same w_sent) (sh_handleMessage h m)"
      "io_keeps (same w_sent) (sh_handleError h dev c e)"
      "io_keeps (same w_sent) (sh_getPendingCommands h dev)"
begin

lemma handling_dedup:
  "io_keeps (same w_dedup) (handle_accepted d h cfg sender m)"
  "io_keeps (same w_dedup) (handle_rejected d h data c e)"
  unfolding handle_accepted_def handle_rejected_def updateMetrics_def sendAcknowledgment_def
    sendCommands_def Let_def
  by (intro keeps handler_dedup)+

lemma rejected_sent: "io_keeps (same w_sent) (handle_rejected d h data c e)"
  unfolding handle_rejected_def updateMetrics_def Let_def by (intro keeps handler_sent)

lemma processPacket_seen:
  assumes svc: "deduplicationService d = Some svc" "dedup_contract svc seen"
    and run: "processPacket d h cfg data sender w = (r, w')"
  shows "seen (w_dedup w) \<subseteq> seen (w_dedup w')"
    "accepted d cfg data w = Some m \<Longrightarrow>
       message_key m \<notin> seen (w_dedup w) \<and> message_key m \<in> seen (w_dedup w')"
proof -
  obtain a w1 where pv: "parseAndValidate d cfg data w = (a, w1)" by fastforce
  have g: "seen (w_dedup w) \<subseteq> seen (w_dedup w1)"
    using io_keepsD [OF parseAndValidate_grows [OF svc] pv] by (simp add: seen_grows_def)
  have same: "w_dedup w' = w_dedup w1"
  proof (cases a)
    case (Inl x)
    with pv run show ?thesis by (simp add: processPacket_def)
  next
    case (Inr res)
    with pv run show ?thesis
      using io_keepsD [OF handling_dedup(1)] io_keepsD [OF handling_dedup(2)]
      by (cases res) (simp_all add: processPacket_def same_def)
  qed
  with g show "seen (w_dedup w) \<subseteq> seen (w_dedup w')" by simp
  assume "accepted d cfg data w = Some m"
  with pv have "parseAndValidate d cfg data w = (Inr (Ok_Result m), w1)"
    by (simp add: accepted_def split: sum.splits result.splits)
  from accepted_key [OF this svc] same
  show "message_key m \<notin> seen (w_dedup w) \<and> message_key m \<in> seen (w_dedup w')" by simp
qed

lemma processPacket_unanswered:
  assumes "processPacket d h cfg data sender w = (r, w')" "accepted d cfg data w = None"
  shows "w_sent w' = w_sent w"
proof -
  obtain a w1 where pv: "parseAndValidate d cfg data w = (a, w1)" by fastforce
  have "w_sent w1 = w_sent w"
    using io_keepsD [OF parseAndValidate_keeps(1) pv] by (simp add: same_def)
  moreover have "w_sent w' = w_sent w1"
  proof (cases a)
    case (Inl x)
    with pv assms(1) show ?thesis by (simp add: processPacket_def)
  next
    case (Inr res)
    with pv assms show ?thesis
      using io_keepsD [OF rejected_sent]
      by (cases res) (simp_all add: processPacket_def accepted_def same_def)
  qed
  ultimately show ?thesis by simp
qed

end

section \<open>One event\<close>

lemma take_min_length [simp]: "take (min (length xs) n) xs = take n xs"
  by (cases "length xs \<le> n") (simp_all add: min_def)

lemma collector_same:
  assumes "on_collector d k u = (x, u')"
  shows "w_dedup u' = w_dedup u" "w_sent u' = w_sent u" "w_publisher u' = w_publisher u"
    "w_limiter u' = w_limiter u"
  using io_keepsD [OF calls_keep(5) assms] io_keepsD [OF calls_keep(11) assms]
    io_keepsD [OF calls_keep(17) assms] io_keepsD [OF limiter_keeps(5) assms] by (simp_all add: same_def)

text \<open>A datagram that arrives while a receive is pending, as a run of \<open>processPacket\<close>.\<close>

definition delivered where
  "delivered data s \<longleftrightarrow> sn_receiving s \<and> sn_active s \<and> take (length (sn_buffer s)) data \<noteq> []"

lemma delivered_run:
  assumes "delivered data s"
    and p: "processPacket d h (sn_config s) (take (length (sn_buffer s)) data) sender w = (r1, w1)"
  shows "receive_datagram d h data sender (s, w) =
    (let n = min (length data) (length (sn_buffer s));
         s = s\<lparr>sn_receiving := False, sn_buffer := take n data @ drop n (sn_buffer s), sn_sender := sender,
               sn_packetsReceived := sn_packetsReceived s + 1,
               sn_bytesReceived := sn_bytesReceived s + word_of_nat n\<rparr>
     in case r1 of
          Inr _ \<Rightarrow> (Inr (), s\<lparr>sn_packetsProcessed := sn_packetsProcessed s + 1, sn_receiving := True\<rparr>, w1)
        | Inl Null_Deref \<Rightarrow> (Inl Null_Deref, s, w1)
        | Inl (Std_Exception e) \<Rightarrow>
            (case on_collector d (\<lambda>c. recordError c ''packet_processing_exception'') w1 of
               (Inl x, w2) \<Rightarrow> (Inl x, s\<lparr>sn_packetsRejected := sn_packetsRejected s + 1\<rparr>, w2)
             | (Inr _, w2) \<Rightarrow>
                 (Inr (), s\<lparr>sn_packetsRejected := sn_packetsRejected s + 1, sn_receiving := True\<rparr>, w2)))"
proof -
  have n: "0 < min (length data) (length (sn_buffer s))" "sn_receiving s" "sn_active s"
    using assms(1) by (auto simp: delivered_def)
  show ?thesis
  proof (cases r1)
    case (Inr u)
    with n p show ?thesis by (simp add: receive_datagram_def handlePacket_def Let_def doReceive_def)
  next
    case (Inl x)
    show ?thesis
    proof (cases x)
      case (Std_Exception e)
      with Inl n p show ?thesis
        by (simp add: receive_datagram_def handlePacket_def Let_def doReceive_def split: prod.split sum.split)
    next
      case Null_Deref
      with Inl n p show ?thesis by (simp add: receive_datagram_def handlePacket_def Let_def)
    qed
  qed
qed

lemma not_delivered_run:
  assumes "\<not> delivered data s"
  shows "\<exists>s'. receive_datagram d h data sender (s, w) = (Inr (), s', w) \<and>
    sn_active s' = sn_active s \<and> (sn_active s \<longrightarrow> sn_receiving s' = sn_receiving s) \<and>
    sn_packetsReceived s' = sn_packetsReceived s \<and> sn_packetsProcessed s' = sn_packetsProcessed s \<and>
    sn_packetsRejected s' = sn_packetsRejected s"
  using assms
  by (auto simp: delivered_def receive_datagram_def handlePacket_def Let_def doReceive_def)

lemma datagram_world:
  assumes "receive_datagram d h data sender (s, w) = (r, s', w')"
  shows "if delivered data s
    then \<exists>r1 w1. processPacket d h (sn_config s) (take (length (sn_buffer s)) data) sender w = (r1, w1) \<and>
           w_dedup w' = w_dedup w1 \<and> w_sent w' = w_sent w1 \<and> w_publisher w' = w_publisher w1 \<and>
           w_limiter w' = w_limiter w1
    else w' = w"
proof (cases "delivered data s")
  case True
  obtain r1 w1 where p: "processPacket d h (sn_config s) (take (length (sn_buffer s)) data) sender w = (r1, w1)"
    by fastforce
  obtain r2 w2 where c: "on_collector d (\<lambda>c. recordError c ''packet_processing_exception'') w1 = (r2, w2)"
    by fastforce
  have "w' = w1 \<or> w' = w2"
    using assms delivered_run [OF True p] c
    by (simp add: Let_def split: sum.splits exc.splits)
  with collector_same [OF c] p True show ?thesis by auto
next
  case False
  with not_delivered_run [OF this, of d h sender w] assms show ?thesis by auto
qed

lemma failure_world:
  assumes "receive_error d h e (s, w) = (r, s', w')"
  shows "w' = w \<or> (\<exists>r2. on_collector d (\<lambda>c. recordError c ''socket_error'') w = (r2, w'))"
  using assms
  by (cases e; cases "on_collector d (\<lambda>c. recordError c ''socket_error'') w")
    (auto simp: receive_error_def handlePacket_def Let_def split: if_splits sum.splits)

context session_handling begin

lemma event_seen:
  assumes svc: "deduplicationService d = Some svc" "dedup_contract svc seen"
    and step: "session_step d h ev (s, w) = (r, s', w')"
  shows "seen (w_dedup w) \<subseteq> seen (w_dedup w') \<and> (m \<in> set (event_accepted d ev (s, w)) \<longrightarrow>
      message_key m \<notin> seen (w_dedup w) \<and> message_key m \<in> seen (w_dedup w'))"
proof -
  show ?thesis
  proof (cases ev)
    case (Datagram data sender)
    with step have "receive_datagram d h data sender (s, w) = (r, s', w')" by (simp add: session_step_def)
    note world = datagram_world [OF this]
    show ?thesis
    proof (cases "delivered data s")
      case True
      with world obtain r1 w1 where
        p: "processPacket d h (sn_config s) (take (length (sn_buffer s)) data) sender w = (r1, w1)"
        and "w_dedup w' = w_dedup w1" by auto
      with processPacket_seen [OF svc p] True Datagram show ?thesis
        by (auto simp: event_accepted_def delivered_def Let_def split: option.splits if_splits)
    next
      case False
      with world have "w' = w" by simp
      moreover from False Datagram have "event_accepted d ev (s, w) = []"
        by (auto simp: event_accepted_def delivered_def Let_def)
      ultimately show ?thesis by simp
    qed
  next
    case (Failure e)
    with step have "receive_error d h e (s, w) = (r, s', w')" by (simp add: session_step_def)
    from failure_world [OF this] have "w_dedup w' = w_dedup w" by (auto dest: collector_same(1))
    with Failure show ?thesis by (simp add: event_accepted_def)
  qed (use step in \<open>simp_all add: session_step_def event_accepted_def\<close>)
qed

lemma event_accepted_at_most_one: "distinct (map message_key (event_accepted d ev c))"
  by (auto simp: event_accepted_def Let_def split: session_event.splits prod.splits option.splits)

lemma run_accepted_fresh:
  assumes svc: "deduplicationService d = Some svc" "dedup_contract svc seen"
  shows "distinct (map message_key (run_accepted d h evs (s, w))) \<and>
    message_key ` set (run_accepted d h evs (s, w)) \<inter> seen (w_dedup w) = {}"
proof (induction evs arbitrary: s w)
  case (Cons ev evs)
  obtain r s' w' where step: "session_step d h ev (s, w) = (r, s', w')" by (cases "session_step d h ev (s, w)") auto
  note ev = event_seen [OF svc step]
  have first: "message_key ` set (event_accepted d ev (s, w)) \<inter> seen (w_dedup w) = {}"
    "message_key ` set (event_accepted d ev (s, w)) \<subseteq> seen (w_dedup w')"
    using ev by auto
  show ?case
  proof (cases r)
    case (Inl x)
    with step first(1) event_accepted_at_most_one show ?thesis by simp
  next
    case (Inr u)
    let ?E = "event_accepted d ev (s, w)" and ?R = "run_accepted d h evs (s', w')"
    from Inr step have "run_accepted d h (ev # evs) (s, w) = ?E @ ?R" by simp
    moreover have "distinct (map message_key ?R)" "message_key ` set ?R \<inter> seen (w_dedup w') = {}"
      using Cons.IH [of s' w'] by blast+
    moreover from this(2) first(2) have "message_key ` set ?E \<inter> message_key ` set ?R = {}" by blast
    moreover from calculation(3) ev have "message_key ` set ?R \<inter> seen (w_dedup w) = {}" by blast
    ultimately show ?thesis
      using first(1) event_accepted_at_most_one [of d ev "(s, w)"]
      by (simp only: map_append distinct_append set_append set_map image_Un Int_Un_distrib2) simp
  qed
qed simp

lemma event_unanswered:
  assumes "session_step d h ev (s, w) = (r, s', w')" "event_accepted d ev (s, w) = []"
  shows "w_sent w' = w_sent w"
proof -
  show ?thesis
  proof (cases ev)
    case (Datagram data sender)
    with assms(1) have "receive_datagram d h data sender (s, w) = (r, s', w')" by (simp add: session_step_def)
    note world = datagram_world [OF this]
    show ?thesis
    proof (cases "delivered data s")
      case True
      with world obtain r1 w1 where
        p: "processPacket d h (sn_config s) (take (length (sn_buffer s)) data) sender w = (r1, w1)"
        and w1: "w_sent w' = w_sent w1" by auto
      from True assms(2) Datagram
      have "accepted d (sn_config s) (take (length (sn_buffer s)) data) w = None"
        by (simp add: event_accepted_def delivered_def Let_def split: option.splits)
      from processPacket_unanswered [OF p this] w1 show ?thesis by simp
    qed (use world in simp)
  next
    case (Failure e)
    with assms(1) have "receive_error d h e (s, w) = (r, s', w')" by (simp add: session_step_def)
    from failure_world [OF this] show ?thesis by (auto dest: collector_same(2))
  qed (use assms in \<open>simp_all add: session_step_def\<close>)
qed

end

section \<open>The receive loop goes on\<close>

text \<open>
  Every component but the metrics collector is there; and, an assumption on the collector, if there is
  one its \<open>recordError\<close> does not throw.
\<close>

definition deps_present where
  "deps_present d \<longleftrightarrow> protocolParser d \<noteq> None \<and> deduplicationService d \<noteq> None \<and>
     messagePublisher d \<noteq> None \<and> deviceManager d \<noteq> None \<and> rateLimiter d \<noteq> None"

definition errors_recorded where
  "errors_recorded d \<longleftrightarrow>
     (\<forall>c. metricsCollector d = Some c \<longrightarrow> (\<forall>e s. \<exists>u s'. recordError c e s = (Inr u, s')))"

lemma send_safe [safe]: "io_safe (send_to b ep)"
  by (simp add: io_safe_def send_to_def)

lemma calls_safe [safe]:
  "deps_present d \<Longrightarrow> io_safe (on_parser d f)" "deps_present d \<Longrightarrow> io_safe (on_dedup d g)"
  "deps_present d \<Longrightarrow> io_safe (on_publisher d i)" "deps_present d \<Longrightarrow> io_safe (on_devices d j)"
  "deps_present d \<Longrightarrow> io_safe (on_limiter d k)" "io_safe (on_collector d l)"
  unfolding deps_present_def on_parser_def on_dedup_def on_publisher_def on_devices_def
    on_limiter_def on_collector_def
  by (auto intro!: safe_call safe_when)

definition handler_safe where
  "handler_safe h \<longleftrightarrow> (\<forall>m. io_safe (sh_handleMessage h m)) \<and>
     (\<forall>dev c e. io_safe (sh_handleError h dev c e)) \<and> (\<forall>dev. io_safe (sh_getPendingCommands h dev))"

lemma handler_safeD [safe]:
  "handler_safe h \<Longrightarrow> io_safe (sh_handleMessage h m)"
  "handler_safe h \<Longrightarrow> io_safe (sh_handleError h dev c e)"
  "handler_safe h \<Longrightarrow> io_safe (sh_getPendingCommands h dev)"
  by (simp_all add: handler_safe_def)

lemma processPacket_safe:
  assumes "deps_present d" "handler_safe h"
  shows "io_safe (processPacket d h cfg data sender)"
proof -
  have v: "io_safe (validate d n m)" for n m
    unfolding validate_def check_duplicate_def check_rate_def record_accepted_def
    by (intro safe assms)
  have "io_safe (parseAndValidate d cfg data)"
    unfolding parseAndValidate_def
    by (intro safe assms; simp split: result.split add: v safe_return)
  moreover have "io_safe (handle_accepted d h cfg sender m)" "io_safe (handle_rejected d h data c e)" for m c e
    unfolding handle_accepted_def handle_rejected_def updateMetrics_def sendAcknowledgment_def
      sendCommands_def Let_def
    by (intro safe assms)+
  ultimately show ?thesis
    unfolding processPacket_def by (intro safe_bind) (simp_all split: result.split)
qed

lemma recordError_returns:
  assumes "errors_recorded d"
  obtains w' where "on_collector d (\<lambda>c. recordError c e) w = (Inr (), w')"
proof (cases "metricsCollector d")
  case None
  then show ?thesis using that by (simp add: on_collector_def)
next
  case (Some c)
  then obtain s' where "recordError c e (w_collector w) = (Inr (), s')"
    using assms unfolding errors_recorded_def by (metis (full_types) old.unit.exhaust)
  with Some show ?thesis using that by (simp add: on_collector_def io_call_def)
qed

definition listening :: "session \<Rightarrow> bool" where
  "listening s \<longleftrightarrow> sn_active s \<and> sn_receiving s \<and>
     sn_packetsReceived s = sn_packetsProcessed s + sn_packetsRejected s"

fun is_input :: "session_event \<Rightarrow> bool" where
  "is_input (Datagram data sender) = True"
| "is_input (Failure e) = True"
| "is_input _ = False"

lemma listening_step:
  assumes "deps_present d" "errors_recorded d" "handler_safe h" "listening s" "is_input ev"
  obtains s' w' where "session_step d h ev (s, w) = (Inr (), s', w')" "listening s'"
proof (cases ev)
  case (Datagram data sender)
  obtain r1 w1 where p: "processPacket d h (sn_config s) (take (length (sn_buffer s)) data) sender w = (r1, w1)"
    by fastforce
  have safe: "r1 \<noteq> Inl Null_Deref" using io_safeD [OF processPacket_safe [OF assms(1,3)]] p by blast
  obtain w2 where c: "on_collector d (\<lambda>c. recordError c ''packet_processing_exception'') w1 = (Inr (), w2)"
    using recordError_returns [OF assms(2)] by blast
  show ?thesis
  proof (cases "delivered data s")
    case True
    have "\<exists>s' w'. session_step d h ev (s, w) = (Inr (), s', w') \<and> listening s'"
      using delivered_run [OF True p] safe c assms(4) Datagram
      by (cases r1; cases "projl r1") (auto simp: session_step_def Let_def listening_def)
    then show ?thesis using that by blast
  next
    case False
    from not_delivered_run [OF this, of d h sender w] assms(4) Datagram show ?thesis
      using that by (auto simp: session_step_def listening_def)
  qed
next
  case (Failure e)
  obtain w2 where c: "on_collector d (\<lambda>c. recordError c ''socket_error'') w = (Inr (), w2)"
    using recordError_returns [OF assms(2)] by blast
  have "\<exists>s' w'. session_step d h ev (s, w) = (Inr (), s', w') \<and> listening s'"
    using c assms(4) Failure
    by (cases e) (auto simp: session_step_def receive_error_def handlePacket_def Let_def listening_def doReceive_def)
  then show ?thesis using that by blast
qed (use assms(5) in simp_all)

lemma listening_run:
  assumes "deps_present d" "errors_recorded d" "handler_safe h" "listening s" "list_all is_input evs"
  shows "\<exists>s' w'. session_run d h evs (s, w) = (Inr (), s', w') \<and> listening s'"
  using assms(4,5)
proof (induction evs arbitrary: s w)
  case (Cons ev evs)
  then have "is_input ev" "list_all is_input evs" by simp_all
  from listening_step [OF assms(1,2,3) Cons.prems(1) this(1)] obtain s' w' where
    "session_step d h ev (s, w) = (Inr (), s', w')" "listening s'" by blast
  with Cons.IH \<open>list_all is_input evs\<close> show ?case by simp
qed simp

end
