(* ===== verification/Keyed_State.thy ===== *)
theory Keyed_State
  imports Main
begin

text \<open>
  The contract of a component that keeps one independent part of its state per key: an operation
  on one key leaves the parts of the other keys alone, and what it answers and does to its own
  part depends on that part only. Operations without a key may touch every part. What follows is
  isolation: the answers given to one key are those it would have had without the operations on
  all others.
\<close>

fun run_log :: "('op \<Rightarrow> 's \<Rightarrow> 'a \<times> 's) \<Rightarrow> 'op list \<Rightarrow> 's \<Rightarrow> ('op \<times> 'a) list" where
  "run_log step [] s = []"
| "run_log step (op # ops) s = (case step op s of (a, s') \<Rightarrow> (op, a) # run_log step ops s')"

fun run_state :: "('op \<Rightarrow> 's \<Rightarrow> 'a \<times> 's) \<Rightarrow> 'op list \<Rightarrow> 's \<Rightarrow> 's" where
  "run_state step [] s = s"
| "run_state step (op # ops) s = run_state step ops (snd (step op s))"

lemma run_log_ops [simp]: "map fst (run_log step ops s) = ops"
  by (induction ops arbitrary: s) (simp_all split: prod.splits)

lemma run_state_invariant:
  assumes "\<And>op s. I s \<Longrightarrow> I (snd (step op s))" "I s"
  shows "I (run_state step ops s)"
  using assms(2) by (induction ops arbitrary: s) (simp_all add: assms(1))

lemma run_log_invariant:
  assumes "\<And>op s. I s \<Longrightarrow> I (snd (step op s)) \<and> P op (fst (step op s))" "I s"
  shows "list_all (\<lambda>(op, a). P op a) (run_log step ops s)"
  using assms(2)
proof (induction ops arbitrary: s)
  case (Cons op ops)
  obtain a s' where st: "step op s = (a, s')" by fastforce
  with assms(1) [OF Cons.prems, of op] Cons.IH [of s'] show ?case by simp
qed simp

locale keyed_state =
  fixes step :: "'op \<Rightarrow> 's \<Rightarrow> 'a \<times> 's" and key :: "'op \<Rightarrow> 'k option" and part :: "'k \<Rightarrow> 's \<Rightarrow> 'p"
  assumes foreign: "key op = Some k' \<Longrightarrow> k' \<noteq> k \<Longrightarrow> part k (snd (step op s)) = part k s"
    and own_part: "part k s = part k t \<Longrightarrow> key op = Some k \<or> key op = None \<Longrightarrow>
      part k (snd (step op s)) = part k (snd (step op t))"
    and own_answer: "part k s = part k t \<Longrightarrow> key op = Some k \<Longrightarrow> fst (step op s) = fst (step op t)"
begin

lemma isolated_runs:
  assumes "part k s = part k t"
  shows "filter (\<lambda>(op, a). key op = Some k) (run_log step ops s) =
    filter (\<lambda>(op, a). key op = Some k)
      (run_log step (filter (\<lambda>op. key op = Some k \<or> key op = None) ops) t)"
  using assms
proof (induction ops arbitrary: s t)
  case (Cons op ops)
  obtain a s' where s: "step op s = (a, s')" by fastforce
  obtain b t' where t: "step op t = (b, t')" by fastforce
  consider (own) "key op = Some k" | (all) "key op = None" | (other) k' where "key op = Some k'" "k' \<noteq> k"
    by (cases "key op") auto
  then show ?case
  proof cases
    case own
    then have "a = b" "part k s' = part k t'"
      using own_part [OF Cons.prems, of op] own_answer [OF Cons.prems, of op] s t by simp_all
    with own s t Cons.IH [of s' t'] show ?thesis by simp
  next
    case all
    then have "part k s' = part k t'" using own_part [OF Cons.prems, of op] s t by simp
    with all s t Cons.IH [of s' t'] show ?thesis by simp
  next
    case other
    then have "part k s' = part k t" using foreign [OF other, of s] Cons.prems s by simp
    with other s Cons.IH [of s' t] show ?thesis by simp
  qed
qed simp

lemma isolation:
  "filter (\<lambda>(op, a). key op = Some k) (run_log step ops s) =
    filter (\<lambda>(op, a). key op = Some k)
      (run_log step (filter (\<lambda>op. key op = Some k \<or> key op = None) ops) s)"
  by (rule isolated_runs) simp

end

end
