(* ===== verification/Rate_Limiter.thy ===== *)
theory Rate_Limiter
  imports Gw_Types Keyed_State
begin

text \<open>
  \<open>udp-gateway\<close>: \<open>rate_limiter.hpp\<close> and \<open>rate_limiter.cpp\<close>. Every device has a token bucket of
  doubles that is refilled from the elapsed time whenever it is used. Clock readings are
  arguments of the operations: a call that creates a bucket reads the clock once for the bucket
  and once for the refill.
\<close>

section \<open>Token buckets\<close>

text \<open>\<open>static_cast<double>\<close> of a \<open>size_t\<close> or \<open>uint64_t\<close>.\<close>

definition u64_rat :: "u64 \<Rightarrow> rat" where "u64_rat w = of_int (uint w)"

abbreviation u64_double :: "u64 \<Rightarrow> fp" where "u64_double w \<equiv> f64 (u64_rat w)"

record device_bucket =
  tokensPerSecond :: fp
  bucketSize :: u64
  availableTokens :: fp
  lastUpdated :: ticks
  totalMessages :: u64
  limitedMessages :: u64

definition new_bucket :: "ticks \<Rightarrow> fp \<Rightarrow> u64 \<Rightarrow> device_bucket" where
  "new_bucket now rate burst =
     \<lparr>tokensPerSecond = rate, bucketSize = burst, availableTokens = u64_double burst,
      lastUpdated = now, totalMessages = 0, limitedMessages = 0\<rparr>"

definition elapsed_seconds :: "ticks \<Rightarrow> ticks \<Rightarrow> fp" where
  "elapsed_seconds since now = dbl_div (f64 (of_int (now - since))) 1000000000"

definition refill :: "ticks \<Rightarrow> device_bucket \<Rightarrow> device_bucket" where
  "refill now b =
     (let newTokens = dbl_mul (elapsed_seconds (lastUpdated b) now) (tokensPerSecond b)
      in if fp_lt (Fin 0) newTokens
         then b\<lparr>availableTokens :=
                  dbl_min (u64_double (bucketSize b)) (dbl_add (availableTokens b) newTokens),
                lastUpdated := now\<rparr>
         else b)"

definition consumeToken :: "ticks \<Rightarrow> rat \<Rightarrow> device_bucket \<Rightarrow> bool \<times> device_bucket" where
  "consumeToken now multiplier b =
     (let b = refill now b; needed = dbl_div (Fin 1) multiplier;
          allowed = (if 10 \<le> multiplier
                     then fp_le needed (availableTokens b) \<or> fp_lt (Fin (- 4)) (availableTokens b)
                     else fp_le needed (availableTokens b))
      in if allowed
         then (True, b\<lparr>availableTokens := dbl_sub (availableTokens b) needed,
                       totalMessages := totalMessages b + 1\<rparr>)
         else (False, b\<lparr>totalMessages := totalMessages b + 1,
                        limitedMessages := limitedMessages b + 1\<rparr>))"

section \<open>The limiter\<close>

record rate_config =
  defaultMessagesPerSecond :: fp
  defaultBurstSize :: u64
  enablePriorityBoost :: bool

definition default_rate_config :: rate_config where
  "default_rate_config =
     \<lparr>defaultMessagesPerSecond = Fin 10, defaultBurstSize = 20, enablePriorityBoost = True\<rparr>"

record rate_stats =
  rs_total :: u64
  rs_allowed :: u64
  rs_blocked :: u64
  rs_priority :: "u64 list"

definition empty_rate_stats :: rate_stats where
  "empty_rate_stats = \<lparr>rs_total = 0, rs_allowed = 0, rs_blocked = 0, rs_priority = [0, 0, 0, 0]\<rparr>"

record token_bucket =
  tb_tokens :: fp
  tb_lastRefill :: ticks
  tb_statistics :: rate_stats

record rate_limiter =
  rl_config :: rate_config
  deviceBuckets :: "(string \<times> device_bucket) list"
  testBuckets :: "(string \<times> token_bucket) list"

definition new_rate_limiter :: "rate_config \<Rightarrow> rate_limiter" where
  "new_rate_limiter c = \<lparr>rl_config = c, deviceBuckets = [], testBuckets = []\<rparr>"

definition createDefaultRateLimiter :: rate_limiter where
  "createDefaultRateLimiter = new_rate_limiter default_rate_config"

definition getPriorityMultiplier :: "rate_limiter \<Rightarrow> priority \<Rightarrow> rat" where
  "getPriorityMultiplier rl p =
     (if \<not> enablePriorityBoost (rl_config rl) then 1
      else case p of CRITICAL \<Rightarrow> 10 | HIGH \<Rightarrow> 5 | NORMAL \<Rightarrow> 1 | LOW \<Rightarrow> 1/2)"

definition checkLimit ::
    "ticks \<Rightarrow> ticks \<Rightarrow> string \<Rightarrow> priority \<Rightarrow> rate_limiter \<Rightarrow> bool \<times> rate_limiter" where
  "checkLimit t_new t dev p rl =
     (let b = (case map_of (deviceBuckets rl) dev of
                 None \<Rightarrow> new_bucket t_new (defaultMessagesPerSecond (rl_config rl))
                           (defaultBurstSize (rl_config rl))
               | Some b \<Rightarrow> b);
          (ok, b) = consumeToken t (getPriorityMultiplier rl p) b
      in (ok, rl\<lparr>deviceBuckets := al_set dev b (deviceBuckets rl)\<rparr>))"

definition tryAcquire ::
    "ticks \<Rightarrow> ticks \<Rightarrow> string \<Rightarrow> int \<Rightarrow> rate_limiter \<Rightarrow> bool \<times> rate_limiter" where
  "tryAcquire t_new t dev p rl =
     checkLimit t_new t dev (if p = 0 then NORMAL else if p = 1 then HIGH
                             else if p = 2 then CRITICAL else NORMAL) rl"

text \<open>\<open>recordMessage\<close> ignores its arguments.\<close>

definition rl_recordMessage :: "string \<Rightarrow> priority \<Rightarrow> nat \<Rightarrow> rate_limiter \<Rightarrow> rate_limiter" where
  "rl_recordMessage dev p len rl = rl"

definition setDeviceLimit :: "ticks \<Rightarrow> string \<Rightarrow> fp \<Rightarrow> u64 \<Rightarrow> rate_limiter \<Rightarrow> rate_limiter" where
  "setDeviceLimit t_new dev rate burst rl =
     rl\<lparr>deviceBuckets := al_set dev
          (case map_of (deviceBuckets rl) dev of
             None \<Rightarrow> new_bucket t_new rate burst
           | Some b \<Rightarrow> b\<lparr>tokensPerSecond := rate, bucketSize := burst,
                        availableTokens := dbl_min (availableTokens b) (u64_double burst)\<rparr>)
          (deviceBuckets rl)\<rparr>"

definition setDefaultLimit :: "fp \<Rightarrow> u64 \<Rightarrow> rate_limiter \<Rightarrow> rate_limiter" where
  "setDefaultLimit rate burst rl =
     rl\<lparr>rl_config := (rl_config rl)\<lparr>defaultMessagesPerSecond := rate, defaultBurstSize := burst\<rparr>\<rparr>"

definition resetDevice :: "ticks \<Rightarrow> string \<Rightarrow> rate_limiter \<Rightarrow> rate_limiter" where
  "resetDevice now dev rl =
     (let rl = (case map_of (deviceBuckets rl) dev of
                  None \<Rightarrow> rl
                | Some b \<Rightarrow>
                    rl\<lparr>deviceBuckets := al_set dev
                         (b\<lparr>availableTokens := u64_double (bucketSize b), lastUpdated := now,
                            totalMessages := 0, limitedMessages := 0\<rparr>) (deviceBuckets rl)\<rparr>)
      in rl\<lparr>testBuckets := al_del dev (testBuckets rl)\<rparr>)"

text \<open>Reading the statistics of a device refills its bucket.\<close>

definition bucket_stats :: "device_bucket \<Rightarrow> (string \<times> fp) list" where
  "bucket_stats b =
     [(''tokens_per_second'', tokensPerSecond b), (''bucket_size'', u64_double (bucketSize b)),
      (''available_tokens'', availableTokens b), (''total_messages'', u64_double (totalMessages b)),
      (''limited_messages'', u64_double (limitedMessages b)),
      (''limited_percentage'',
       if 0 < totalMessages b
       then dbl_div (dbl_mul (Fin 100) (u64_double (limitedMessages b)))
              (rnd64 (u64_rat (totalMessages b)))
       else Fin 0)]"

definition getDeviceStatistics ::
    "ticks \<Rightarrow> string \<Rightarrow> rate_limiter \<Rightarrow> (string \<times> fp) list \<times> rate_limiter" where
  "getDeviceStatistics now dev rl =
     (case map_of (deviceBuckets rl) dev of
        Some b \<Rightarrow>
          let b = refill now b
          in (bucket_stats b, rl\<lparr>deviceBuckets := al_set dev b (deviceBuckets rl)\<rparr>)
      | None \<Rightarrow>
          ([(''tokens_per_second'', defaultMessagesPerSecond (rl_config rl)),
            (''bucket_size'', u64_double (defaultBurstSize (rl_config rl))),
            (''available_tokens'', u64_double (defaultBurstSize (rl_config rl))),
            (''total_messages'', Fin 0), (''limited_messages'', Fin 0),
            (''limited_percentage'', Fin 0)], rl))"

section \<open>The test interface\<close>

definition getStatistics :: "string \<Rightarrow> rate_limiter \<Rightarrow> rate_stats" where
  "getStatistics dev rl =
     (case map_of (testBuckets rl) dev of None \<Rightarrow> empty_rate_stats | Some b \<Rightarrow> tb_statistics b)"

definition to_millis :: "ticks \<Rightarrow> int" where
  "to_millis n = (if n < 0 then - ((- n) div 1000000) else n div 1000000)"

definition refillTestBucket :: "ticks \<Rightarrow> token_bucket \<Rightarrow> token_bucket" where
  "refillTestBucket now b =
     (let seconds = dbl_div (f64 (of_int (to_millis (now - tb_lastRefill b)))) 1000
      in if fp_lt (Fin 0) seconds
         then b\<lparr>tb_tokens := dbl_min (dbl_add (tb_tokens b) (dbl_mul seconds (Fin 10))) (Fin 20),
                tb_lastRefill := now\<rparr>
         else b)"

text \<open>The manager of the test buckets has the same function a second time.\<close>

definition manager_refillBucket :: "ticks \<Rightarrow> token_bucket \<Rightarrow> token_bucket" where
  "manager_refillBucket now b =
     (let seconds = dbl_div (f64 (of_int (to_millis (now - tb_lastRefill b)))) 1000
      in if fp_lt (Fin 0) seconds
         then b\<lparr>tb_tokens := dbl_min (dbl_add (tb_tokens b) (dbl_mul seconds (Fin 10))) (Fin 20),
                tb_lastRefill := now\<rparr>
         else b)"

section \<open>Operations and runs\<close>

datatype limiter_op =
    Check string priority ticks ticks
  | Try_Acquire string int ticks ticks
  | Record string priority nat
  | Device_Limit string fp u64 ticks
  | Default_Limit fp u64
  | Reset string ticks
  | Device_Stats string ticks
  | Test_Stats string

datatype limiter_answer = Allowed bool | Values "(string \<times> fp) list" | Counters rate_stats | Done

fun limiter_step :: "limiter_op \<Rightarrow> rate_limiter \<Rightarrow> limiter_answer \<times> rate_limiter" where
  "limiter_step (Check d p t0 t) rl = map_prod Allowed id (checkLimit t0 t d p rl)"
| "limiter_step (Try_Acquire d i t0 t) rl = map_prod Allowed id (tryAcquire t0 t d i rl)"
| "limiter_step (Record d p n) rl = (Done, rl_recordMessage d p n rl)"
| "limiter_step (Device_Limit d r n t) rl = (Done, setDeviceLimit t d r n rl)"
| "limiter_step (Default_Limit r n) rl = (Done, setDefaultLimit r n rl)"
| "limiter_step (Reset d t) rl = (Done, resetDevice t d rl)"
| "limiter_step (Device_Stats d t) rl = map_prod Values id (getDeviceStatistics t d rl)"
| "limiter_step (Test_Stats d) rl = (Counters (getStatistics d rl), rl)"

fun op_device :: "limiter_op \<Rightarrow> string option" where
  "op_device (Check d p t0 t) = Some d"
| "op_device (Try_Acquire d i t0 t) = Some d"
| "op_device (Record d p n) = Some d"
| "op_device (Device_Limit d r n t) = Some d"
| "op_device (Default_Limit r n) = None"
| "op_device (Reset d t) = Some d"
| "op_device (Device_Stats d t) = Some d"
| "op_device (Test_Stats d) = Some d"

text \<open>What the limiter holds for one device: the configuration and its two buckets.\<close>

definition device_part ::
    "string \<Rightarrow> rate_limiter \<Rightarrow> rate_config \<times> device_bucket option \<times> token_bucket option" where
  "device_part d rl = (rl_config rl, map_of (deviceBuckets rl) d, map_of (testBuckets rl) d)"

lemmas limiter_ops = checkLimit_def tryAcquire_def rl_recordMessage_def setDeviceLimit_def
  setDefaultLimit_def resetDevice_def getDeviceStatistics_def getStatistics_def getPriorityMultiplier_def

interpretation rl: keyed_state limiter_step op_device device_part
proof
  fix op k k' s
  assume "op_device op = Some k'" "k' \<noteq> k"
  then show "device_part k (snd (limiter_step op s)) = device_part k s"
    by (cases op) (auto simp: device_part_def limiter_ops Let_def split: prod.splits option.splits)
next
  fix op k s t
  assume "device_part k s = device_part k t" "op_device op = Some k \<or> op_device op = None"
  then show "device_part k (snd (limiter_step op s)) = device_part k (snd (limiter_step op t))"
    by (cases op) (auto simp: device_part_def limiter_ops Let_def split: prod.splits option.splits)
next
  fix op k s t
  assume "device_part k s = device_part k t" "op_device op = Some k"
  then show "fst (limiter_step op s) = fst (limiter_step op t)"
    by (cases op) (auto simp: device_part_def limiter_ops Let_def split: prod.splits option.splits)
qed

text \<open>
  C16. Devices do not influence each other: in every sequence of limiter operations, the answers
  given about one device are those it would have had without the operations on all other devices.
\<close>

theorem device_isolation:
  "filter (\<lambda>(op, a). op_device op = Some d) (run_log limiter_step ops rl) =
   filter (\<lambda>(op, a). op_device op = Some d)
     (run_log limiter_step (filter (\<lambda>op. op_device op = Some d \<or> op_device op = None) ops) rl)"
  by (rule rl.isolation)

section \<open>Buckets stay within bounds\<close>

text \<open>A token count is a finite number between the deepest debt and the size of the bucket.\<close>

definition bucket_wf :: "device_bucket \<Rightarrow> bool" where
  "bucket_wf b =
     (case availableTokens b of
        Fin a \<Rightarrow> - 33/8 \<le> a \<and> a \<le> rnd64 (u64_rat (bucketSize b))
      | _ \<Rightarrow> False)"

definition limiter_wf :: "rate_limiter \<Rightarrow> bool" where
  "limiter_wf rl = list_all (\<lambda>(d, b). bucket_wf b) (deviceBuckets rl)"

lemma bucket_wf_iff: "bucket_wf b \<longleftrightarrow>
    (\<exists>a. availableTokens b = Fin a \<and> - 33/8 \<le> a \<and> a \<le> rnd64 (u64_rat (bucketSize b)))"
  by (auto simp: bucket_wf_def split: fp.splits)

lemma bucket_wf_Fin [simp]:
  "availableTokens b = Fin a \<Longrightarrow> bucket_wf b \<longleftrightarrow> - 33/8 \<le> a \<and> a \<le> rnd64 (u64_rat (bucketSize b))"
  by (simp add: bucket_wf_def)

lemma u64_rat_bounds: "0 \<le> u64_rat w" "u64_rat w \<le> 2 ^ 64"
proof -
  have "0 \<le> uint w" "uint w \<le> 2 ^ 64" using uint_lt2p [of w] by simp_all
  then show "0 \<le> u64_rat w" "u64_rat w \<le> 2 ^ 64"
    using of_int_le_iff [of 0 "uint w", where ?'a = rat]
      of_int_le_iff [of "uint w" "2 ^ 64", where ?'a = rat]
    unfolding u64_rat_def by (simp_all only: of_int_0 of_int_power of_int_numeral)
qed

lemma u64_bounds: "0 \<le> rnd64 (u64_rat w)" "rnd64 (u64_rat w) \<le> 2 ^ 64"
proof -
  show "0 \<le> rnd64 (u64_rat w)" by (rule dbl.rnd_nonneg [OF u64_rat_bounds(1)])
  have "rnd64 (u64_rat w) \<le> rnd64 (of_int 1 * 2 powi 64)"
    using u64_rat_bounds(2) [of w] by (intro dbl.rnd_mono) simp
  also have "\<dots> = of_int 1 * 2 powi 64" by (rule dbl.rnd_dyadic) simp_all
  finally show "rnd64 (u64_rat w) \<le> 2 ^ 64" by simp
qed

lemma f64_bounded:
  assumes "- (2 ^ 65) \<le> x" "x \<le> 2 ^ 65"
  shows "f64 x = Fin (rnd64 x)"
proof -
  have d: "rnd64 (of_int 1 * 2 powi 65) = of_int 1 * 2 powi 65" by (rule dbl.rnd_dyadic) simp_all
  have "rnd64 x \<le> 2 ^ 65" using dbl.rnd_mono [OF assms(2)] d by simp
  moreover have "- (2 ^ 65) \<le> rnd64 x"
    using dbl.rnd_mono [OF assms(1)] d dbl.rnd_neg [of "2 ^ 65"] by simp
  moreover have "(2 :: rat) ^ 65 < 2 powi 1024" by simp
  ultimately show ?thesis by (simp add: f64_eq abs_less_iff)
qed

lemma f64_low: "- (2 ^ 65) \<le> x \<Longrightarrow> f64 x = Fin (rnd64 x) \<or> f64 x = Inf False"
  using f64_bounded [of x] by (cases "x \<le> 2 ^ 65") (auto simp: f64_eq)

lemma u64_double_eq: "u64_double w = Fin (rnd64 (u64_rat w))"
  using u64_rat_bounds [of w] by (intro f64_bounded) simp_all

lemma rnd64_eighths: "\<bar>n\<bar> \<le> 2 ^ 53 - 1 \<Longrightarrow> rnd64 (of_int n / 8) = of_int n / 8"
  using dbl.rnd_dyadic [of n "- 3"] by (simp add: power_int_minus field_simps)

lemma new_bucket_wf [simp]: "bucket_wf (new_bucket t r n)"
  using u64_bounds [of n] by (simp add: bucket_wf_def new_bucket_def u64_double_eq)

lemma refill_wf: "bucket_wf b \<Longrightarrow> bucket_wf (refill t b)"
proof -
  assume "bucket_wf b"
  then obtain a where a: "availableTokens b = Fin a" "- 33/8 \<le> a" "a \<le> rnd64 (u64_rat (bucketSize b))"
    by (auto simp: bucket_wf_iff)
  let ?new = "dbl_mul (elapsed_seconds (lastUpdated b) t) (tokensPerSecond b)"
  have low: "- 33/8 \<le> rnd64 (a + x)" if "0 < x" for x
  proof -
    have "rnd64 (of_int (- 33) / 8) \<le> rnd64 (a + x)" using a(2) that by (intro dbl.rnd_mono) simp
    then show ?thesis using rnd64_eighths [of "- 33"] by simp
  qed
  show "bucket_wf (refill t b)"
  proof (cases ?new)
    case (Fin x)
    then show ?thesis
      using a u64_bounds [of "bucketSize b"] low [of x] f64_low [of "a + x"]
      by (auto simp: refill_def Let_def dbl_min_def u64_double_eq)
  next
    case (Inf n)
    then show ?thesis
      using a u64_bounds [of "bucketSize b"]
      by (auto simp: refill_def Let_def dbl_min_def u64_double_eq)
  next
    case NaN
    with a show ?thesis by (simp add: refill_def Let_def)
  qed
qed

lemma needed_bounds:
  assumes "m \<in> {10, 5, 1, 1/2}"
  shows "\<exists>n. dbl_div (Fin 1) m = Fin n \<and> 0 < n \<and> n \<le> 2 \<and> (10 \<le> m \<longrightarrow> n \<le> 1/8)"
proof -
  have "rnd64 (1/10) \<le> rnd64 (of_int 1 / 8)" by (rule dbl.rnd_mono) simp
  moreover have "rnd64 (of_int 1 * 2 powi - 4) \<le> rnd64 (1/10)"
    by (rule dbl.rnd_mono) (simp add: power_int_minus)
  moreover have "rnd64 (1/5) \<le> rnd64 (of_int 8 / 8)" by (rule dbl.rnd_mono) simp
  moreover have "rnd64 (of_int 1 * 2 powi - 4) \<le> rnd64 (1/5)"
    by (rule dbl.rnd_mono) (simp add: power_int_minus)
  moreover have "rnd64 (of_int 1 * 2 powi - 4) = of_int 1 * 2 powi - 4" by (rule dbl.rnd_dyadic) simp_all
  moreover have "rnd64 (of_int 1) = of_int 1" "rnd64 (of_int 2) = of_int 2" by (rule dbl.rnd_int, simp)+
  moreover have "m = 10 \<or> m = 5 \<or> m = 1 \<or> m = 1/2" using assms by blast
  ultimately show ?thesis
    using rnd64_eighths [of 1] rnd64_eighths [of 8] f64_bounded [of "1/10"] f64_bounded [of "1/5"]
      f64_bounded [of 1] f64_bounded [of 2]
    by (elim disjE; hypsubst) (auto simp: power_int_minus)
qed

lemma multiplier_cases: "getPriorityMultiplier rl p \<in> {10, 5, 1, 1/2}"
  by (simp add: getPriorityMultiplier_def split: priority.splits)

lemma rnd64_at_most: "a \<le> rnd64 s \<Longrightarrow> x \<le> a \<Longrightarrow> rnd64 x \<le> rnd64 s"
  using dbl.rnd_mono [of x "rnd64 s"] by simp

lemma consumeToken_wf:
  assumes "bucket_wf b" "m \<in> {10, 5, 1, 1/2}"
  shows "bucket_wf (snd (consumeToken t m b))"
proof -
  obtain n where n: "dbl_div (Fin 1) m = Fin n" "0 < n" "n \<le> 2" "10 \<le> m \<longrightarrow> n \<le> 1/8"
    using needed_bounds [OF assms(2)] by blast
  let ?b = "refill t b"
  have "bucket_wf ?b" using assms(1) by (rule refill_wf)
  then obtain a where a: "availableTokens ?b = Fin a" "- 33/8 \<le> a" "a \<le> rnd64 (u64_rat (bucketSize ?b))"
    by (auto simp: bucket_wf_iff)
  have "a \<le> 2 ^ 64" using a(3) u64_bounds(2) [of "bucketSize ?b"] by linarith
  with a(2) n have f: "f64 (a - n) = Fin (rnd64 (a - n))" by (intro f64_bounded) simp_all
  have up: "rnd64 (a - n) \<le> rnd64 (u64_rat (bucketSize ?b))" using rnd64_at_most [OF a(3)] n(2) by simp
  have low: "- 33/8 \<le> rnd64 (a - n)" if "n \<le> a \<or> 10 \<le> m \<and> - 4 < a"
  proof -
    have "- 33/8 \<le> a - n" using that n by auto
    then have "rnd64 (of_int (- 33) / 8) \<le> rnd64 (a - n)" by (intro dbl.rnd_mono) simp
    then show ?thesis using rnd64_eighths [of "- 33"] by simp
  qed
  show ?thesis
    using a n up low f by (simp add: consumeToken_def Let_def dbl_sub_def)
qed

lemma limiter_wf_iff: "limiter_wf rl \<longleftrightarrow> (\<forall>e\<in>set (deviceBuckets rl). bucket_wf (snd e))"
  by (auto simp: limiter_wf_def list_all_iff)

lemma limiter_wf_lookup: "limiter_wf rl \<Longrightarrow> map_of (deviceBuckets rl) d = Some b \<Longrightarrow> bucket_wf b"
  by (metis limiter_wf_iff map_of_SomeD snd_conv)

lemma set_al_set: "set (al_set k v xs) \<subseteq> insert (k, v) (set xs)"
  by (induction k v xs rule: al_set.induct) auto

lemma limiter_wf_al_set:
  "limiter_wf rl \<Longrightarrow> bucket_wf b \<Longrightarrow> limiter_wf (rl\<lparr>deviceBuckets := al_set d b (deviceBuckets rl)\<rparr>)"
  using set_al_set [of d b "deviceBuckets rl"] by (auto simp: limiter_wf_iff)

definition bucket_for :: "ticks \<Rightarrow> string \<Rightarrow> rate_limiter \<Rightarrow> device_bucket" where
  "bucket_for t d rl =
     (case map_of (deviceBuckets rl) d of
        None \<Rightarrow> new_bucket t (defaultMessagesPerSecond (rl_config rl)) (defaultBurstSize (rl_config rl))
      | Some b \<Rightarrow> b)"

lemma checkLimit_eq:
  "checkLimit t0 t d p rl =
     (let (ok, b) = consumeToken t (getPriorityMultiplier rl p) (bucket_for t0 d rl)
      in (ok, rl\<lparr>deviceBuckets := al_set d b (deviceBuckets rl)\<rparr>))"
  by (simp add: checkLimit_def bucket_for_def)

lemma bucket_for_wf: "limiter_wf rl \<Longrightarrow> bucket_wf (bucket_for t d rl)"
  by (auto simp: bucket_for_def dest: limiter_wf_lookup split: option.splits)

lemma checkLimit_wf: "limiter_wf rl \<Longrightarrow> limiter_wf (snd (checkLimit t0 t d p rl))"
proof -
  assume wf: "limiter_wf rl"
  have "bucket_wf (snd (consumeToken t (getPriorityMultiplier rl p) (bucket_for t0 d rl)))"
    by (rule consumeToken_wf [OF bucket_for_wf [OF wf] multiplier_cases])
  with wf show ?thesis by (auto simp: checkLimit_eq limiter_wf_al_set split: prod.splits)
qed

lemma setDeviceLimit_wf: "limiter_wf rl \<Longrightarrow> limiter_wf (setDeviceLimit t d r n rl)"
proof -
  assume wf: "limiter_wf rl"
  have "bucket_wf (b\<lparr>tokensPerSecond := r, bucketSize := n,
      availableTokens := dbl_min (availableTokens b) (u64_double n)\<rparr>)" if "bucket_wf b" for b
    using that u64_bounds [of n] by (auto simp: bucket_wf_iff u64_double_eq dbl_min_def)
  with wf show ?thesis
    by (auto simp: setDeviceLimit_def intro!: limiter_wf_al_set dest: limiter_wf_lookup split: option.splits)
qed

lemma resetDevice_wf: "limiter_wf rl \<Longrightarrow> limiter_wf (resetDevice t d rl)"
proof -
  assume wf: "limiter_wf rl"
  have "bucket_wf (b\<lparr>availableTokens := u64_double (bucketSize b), lastUpdated := t,
      totalMessages := 0, limitedMessages := 0\<rparr>)" for b
    using u64_bounds [of "bucketSize b"] by (simp add: bucket_wf_iff u64_double_eq)
  with wf have "limiter_wf (case map_of (deviceBuckets rl) d of None \<Rightarrow> rl | Some b \<Rightarrow>
      rl\<lparr>deviceBuckets := al_set d (b\<lparr>availableTokens := u64_double (bucketSize b), lastUpdated := t,
        totalMessages := 0, limitedMessages := 0\<rparr>) (deviceBuckets rl)\<rparr>)"
    by (auto intro!: limiter_wf_al_set split: option.splits)
  then show ?thesis by (simp add: resetDevice_def Let_def limiter_wf_def)
qed

lemma limiter_step_wf: "limiter_wf rl \<Longrightarrow> limiter_wf (snd (limiter_step op rl))"
proof (cases op)
  case (Device_Stats d t)
  assume "limiter_wf rl"
  with Device_Stats show ?thesis
    by (auto simp: getDeviceStatistics_def Let_def
        intro!: limiter_wf_al_set refill_wf dest: limiter_wf_lookup split: option.splits)
qed (auto simp: tryAcquire_def rl_recordMessage_def checkLimit_wf setDeviceLimit_wf resetDevice_wf
  setDefaultLimit_def limiter_wf_def [of "_\<lparr>rl_config := _\<rparr>"] limiter_wf_def [symmetric])

text \<open>
  C8. In every reachable state of a limiter, whatever configuration, rates (infinite or not a
  number included) and clock readings it was given, each bucket holds a finite number of tokens,
  at least -4.125, the debt critical messages may run up, and at most the size of the bucket.
\<close>

theorem limiter_bounded:
  "list_all (\<lambda>(d, b). \<exists>a. availableTokens b = Fin a \<and> - 33/8 \<le> a \<and> a \<le> rnd64 (u64_rat (bucketSize b)))
     (deviceBuckets (run_state limiter_step ops (new_rate_limiter c)))"
proof -
  have "limiter_wf (run_state limiter_step ops (new_rate_limiter c))"
    by (rule run_state_invariant [where I = limiter_wf, OF limiter_step_wf])
      (simp_all add: limiter_wf_def new_rate_limiter_def)
  then show ?thesis by (simp add: limiter_wf_def bucket_wf_iff [abs_def])
qed

section \<open>A full bucket at one instant\<close>

lemma refill_same_instant: "refill (lastUpdated b) b = b"
proof -
  have "f64 0 = Fin 0" using dbl.rnd_0 f64_bounded [of 0] by simp
  then have "elapsed_seconds (lastUpdated b) (lastUpdated b) = Fin 0" by (simp add: elapsed_seconds_def)
  then show ?thesis
    using \<open>f64 0 = Fin 0\<close> by (cases "tokensPerSecond b") (simp_all add: refill_def Let_def)
qed

lemma consume_normal:
  assumes "availableTokens b = Fin (of_nat k)" "int k \<le> 2 ^ 53 - 1"
  shows "consumeToken (lastUpdated b) 1 b =
    (if 0 < k
     then (True, b\<lparr>availableTokens := Fin (of_nat (k - 1)), totalMessages := totalMessages b + 1\<rparr>)
     else (False, b\<lparr>totalMessages := totalMessages b + 1, limitedMessages := limitedMessages b + 1\<rparr>))"
proof -
  have i: "rnd64 (of_int n) = of_int n" if "\<bar>n\<bar> \<le> 2 ^ 53 - 1" for n
    using that by (rule dbl.rnd_int)
  have one: "f64 1 = Fin 1" using i [of 1] f64_bounded [of 1] by simp
  have "f64 (of_nat k - 1) = Fin (of_nat (k - 1))" if "0 < k"
  proof -
    have "(of_nat k :: rat) = of_int (int k)" by simp
    also have "\<dots> \<le> of_int (2 ^ 53 - 1)" using assms(2) by (simp only: of_int_le_iff)
    finally have "f64 (of_nat k - 1) = Fin (rnd64 (of_nat k - 1))" by (intro f64_bounded) simp_all
    moreover have "rnd64 (of_int (int (k - 1))) = of_int (int (k - 1))" using assms(2) by (intro i) simp
    ultimately show ?thesis using that by (simp add: of_nat_diff)
  qed
  then show ?thesis
    using assms(1) one by (auto simp: consumeToken_def refill_same_instant Let_def dbl_sub_def)
qed

lemma normal_multiplier [simp]: "getPriorityMultiplier rl NORMAL = 1"
  by (simp add: getPriorityMultiplier_def)

lemma burst_from:
  assumes "availableTokens (bucket_for t d rl) = Fin (of_nat k)" "int k \<le> 2 ^ 53 - 1"
    "lastUpdated (bucket_for t d rl) = t"
  shows "map snd (run_log limiter_step (replicate m (Check d NORMAL t t)) rl) =
    replicate (min k m) (Allowed True) @ replicate (m - k) (Allowed False)"
  using assms
proof (induction m arbitrary: k rl)
  case (Suc m)
  note step = consume_normal [OF Suc.prems(1,2), unfolded Suc.prems(3)]
  show ?case
  proof (cases k)
    case 0
    define rl' where "rl' = snd (checkLimit t t d NORMAL rl)"
    have c: "checkLimit t t d NORMAL rl = (False, rl')"
      using step 0 by (simp add: rl'_def checkLimit_eq)
    have "map snd (run_log limiter_step (replicate m (Check d NORMAL t t)) rl') =
        replicate (min 0 m) (Allowed True) @ replicate (m - 0) (Allowed False)"
      using step 0 Suc.prems by (intro Suc.IH) (simp_all add: rl'_def checkLimit_eq bucket_for_def)
    with c 0 show ?thesis by simp
  next
    case (Suc j)
    define rl' where "rl' = snd (checkLimit t t d NORMAL rl)"
    have c: "checkLimit t t d NORMAL rl = (True, rl')"
      using step Suc by (simp add: rl'_def checkLimit_eq)
    have "map snd (run_log limiter_step (replicate m (Check d NORMAL t t)) rl') =
        replicate (min j m) (Allowed True) @ replicate (m - j) (Allowed False)"
      using step Suc Suc.prems by (intro Suc.IH) (simp_all add: rl'_def checkLimit_eq bucket_for_def)
    with c Suc show ?thesis by simp
  qed
qed simp

text \<open>
  C34. Messages of normal priority that a new device sends within one clock tick are accepted up
  to the burst size of the configuration and refused from then on, whatever the configured rate.
\<close>

theorem burst_exact:
  assumes "unat (defaultBurstSize c) \<le> 2 ^ 53 - 1"
  shows "map snd (run_log limiter_step (replicate m (Check d NORMAL t t)) (new_rate_limiter c)) =
    replicate (min (unat (defaultBurstSize c)) m) (Allowed True) @
    replicate (m - unat (defaultBurstSize c)) (Allowed False)"
proof (rule burst_from)
  let ?b = "bucket_for t d (new_rate_limiter c)" and ?n = "defaultBurstSize c"
  have b: "?b = new_bucket t (defaultMessagesPerSecond c) ?n"
    by (simp add: bucket_for_def new_rate_limiter_def)
  then show "lastUpdated ?b = t" by (simp add: new_bucket_def)
  from assms have n: "int (unat ?n) \<le> 2 ^ 53 - 1" by (simp add: of_nat_le_iff [where 'a = int, symmetric])
  then show "int (unat ?n) \<le> 2 ^ 53 - 1" .
  have u: "u64_rat ?n = of_int (int (unat ?n))" by (simp add: u64_rat_def)
  from n have "rnd64 (of_int (int (unat ?n))) = of_int (int (unat ?n))"
    by (intro dbl.rnd_int) simp
  with u have "rnd64 (u64_rat ?n) = of_nat (unat ?n)" by (simp only: of_int_of_nat_eq)
  then have "u64_double ?n = Fin (of_nat (unat ?n))" using u64_double_eq [of ?n] by (simp only:)
  then show "availableTokens ?b = Fin (of_nat (unat ?n))" by (simp add: b new_bucket_def)
qed

theorem burst_exact_witness:
  "map snd (run_log limiter_step (replicate 25 (Check ''1'' NORMAL 7 7)) createDefaultRateLimiter) =
   replicate 20 (Allowed True) @ replicate 5 (Allowed False)"
  using burst_exact [of default_rate_config 25 "''1''" 7]
  by (simp add: createDefaultRateLimiter_def default_rate_config_def)

section \<open>Priorities\<close>

lemma multiplier_ge: "1/2 \<le> getPriorityMultiplier rl p"
  by (cases p) (simp_all add: getPriorityMultiplier_def)

lemma multiplier_pos: "0 < getPriorityMultiplier rl p"
  using multiplier_ge [of rl p] by linarith

lemma needed_eq: "dbl_div (Fin 1) (getPriorityMultiplier rl p) = Fin (rnd64 (1 / getPriorityMultiplier rl p))"
proof -
  let ?m = "getPriorityMultiplier rl p"
  have "1 / ?m \<le> 1 / (1/2)" by (rule divide_left_mono [OF multiplier_ge]) (simp_all add: multiplier_pos)
  then have le: "1 / ?m \<le> 2" by simp
  have "f64 (1 / ?m) = Fin (rnd64 (1 / ?m))"
  proof (rule f64_bounded)
    have "0 \<le> 1 / ?m" using multiplier_pos [of rl p] by simp
    then show "- (2 ^ 65) \<le> 1 / ?m" by (rule order_trans [rotated]) simp
    show "1 / ?m \<le> 2 ^ 65" by (rule order_trans [OF le]) simp
  qed
  then show ?thesis by simp
qed

lemma multiplier_mono: "p \<le> q \<Longrightarrow> getPriorityMultiplier rl p \<le> getPriorityMultiplier rl q"
  by (cases p; cases q) (simp_all add: getPriorityMultiplier_def less_eq_priority_def)

lemma needed_antimono:
  assumes "p \<le> q"
  obtains n m where "dbl_div (Fin 1) (getPriorityMultiplier rl p) = Fin n"
    "dbl_div (Fin 1) (getPriorityMultiplier rl q) = Fin m" "m \<le> n"
    "10 \<le> getPriorityMultiplier rl p \<longrightarrow> 10 \<le> getPriorityMultiplier rl q"
proof (rule that [OF needed_eq needed_eq])
  show "rnd64 (1 / getPriorityMultiplier rl q) \<le> rnd64 (1 / getPriorityMultiplier rl p)"
    using multiplier_pos multiplier_mono [OF assms]
    by (intro dbl.rnd_mono divide_left_mono) (simp_all add: mult_pos_pos)
qed (use multiplier_mono [OF assms, of rl] in linarith)

text \<open>
  In every state of the limiter, a message that would be accepted is also accepted with any
  higher priority.
\<close>

lemma priority_monotone:
  assumes "p \<le> q" "fst (checkLimit t0 t d p rl)"
  shows "fst (checkLimit t0 t d q rl)"
proof -
  obtain n m where "dbl_div (Fin 1) (getPriorityMultiplier rl p) = Fin n"
    "dbl_div (Fin 1) (getPriorityMultiplier rl q) = Fin m" "m \<le> n"
    "10 \<le> getPriorityMultiplier rl p \<longrightarrow> 10 \<le> getPriorityMultiplier rl q"
    by (rule needed_antimono [OF assms(1)])
  then show ?thesis
    using assms(2)
    by (cases "availableTokens (refill t (bucket_for t0 d rl))")
      (auto simp: checkLimit_eq consumeToken_def Let_def split: if_splits)
qed

lemma priority_monotone_witness:
  "fst (checkLimit 0 0 ''1'' HIGH createDefaultRateLimiter)"
proof -
  have "map snd (run_log limiter_step (replicate 1 (Check ''1'' NORMAL 0 0)) createDefaultRateLimiter) =
      [Allowed True]"
    using burst_from [of 0 "''1''" createDefaultRateLimiter 20 1] f64_bounded [of 20]
      dbl.rnd_int [of 20]
    by (simp add: createDefaultRateLimiter_def new_rate_limiter_def bucket_for_def new_bucket_def
        default_rate_config_def u64_rat_def)
  then have "fst (checkLimit 0 0 ''1'' NORMAL createDefaultRateLimiter)"
    by (cases "checkLimit 0 0 ''1'' NORMAL createDefaultRateLimiter") simp
  then show ?thesis by (rule priority_monotone [rotated]) (simp add: less_eq_priority_def)
qed

section \<open>Refused devices recover\<close>

lemma f64_ge_int:
  assumes "of_int n \<le> x" "0 \<le> n" "n \<le> 2 ^ 53 - 1"
  shows "fp_le (Fin (of_int n)) (f64 x)"
proof -
  have "of_int n \<le> rnd64 x" using assms by (intro dbl.rnd_ge_int) simp_all
  moreover have "0 \<le> x" using assms(1,2) order_trans [of 0 "of_int n :: rat" x] by simp
  ultimately show ?thesis by (simp add: f64_eq)
qed

lemma elapsed_at_least:
  assumes "int s * 1000000000 \<le> now - since" "s \<le> 9000000"
  shows "fp_le (Fin (of_nat s)) (elapsed_seconds since now)"
proof -
  have "fp_le (Fin (of_int (int s * 1000000000))) (f64 (of_int (now - since)))"
    using assms by (intro f64_ge_int) (simp_all only: of_int_le_iff, simp_all)
  then show ?thesis
  proof (cases "f64 (of_int (now - since))")
    case (Fin y)
    moreover assume "fp_le (Fin (of_int (int s * 1000000000))) (f64 (of_int (now - since)))"
    ultimately have "of_int (int s) \<le> y / 1000000000" by (simp add: pos_le_divide_eq)
    then have "fp_le (Fin (of_int (int s))) (f64 (y / 1000000000))"
      using assms(2) by (intro f64_ge_int) simp_all
    with Fin show ?thesis by (simp add: elapsed_seconds_def)
  qed (simp_all add: elapsed_seconds_def)
qed

lemma refill_at_least:
  assumes wf: "bucket_wf b" and rate: "tokensPerSecond b = Fin r" "6 \<le> of_nat s * r"
    and time: "int s * 1000000000 \<le> now - lastUpdated b" "s \<le> 9000000"
    and size: "bucketSize b \<noteq> 0"
  shows "fp_le (Fin 1) (availableTokens (refill now b))"
proof -
  obtain a where a: "availableTokens b = Fin a" "- 33/8 \<le> a"
    using wf by (auto simp: bucket_wf_iff)
  have r: "0 < r" using rate(2) by (metis mult_nonneg_nonpos not_le of_nat_0_le_iff order_trans zero_less_numeral less_le_trans)
  have sz: "1 \<le> rnd64 (u64_rat (bucketSize b))"
  proof -
    have "uint (bucketSize b) \<noteq> 0" using size by (simp add: unsigned_eq_0_iff)
    moreover have "0 \<le> uint (bucketSize b)" by simp
    ultimately have "1 \<le> uint (bucketSize b)" by linarith
    then have "of_int 1 \<le> u64_rat (bucketSize b)" by (simp only: u64_rat_def of_int_le_iff)
    then have "of_int 1 \<le> rnd64 (u64_rat (bucketSize b))" by (rule dbl.rnd_ge_int) simp
    then show ?thesis by simp
  qed
  let ?new = "dbl_mul (elapsed_seconds (lastUpdated b) now) (tokensPerSecond b)"
  have new: "fp_le (Fin 6) ?new"
  proof (cases "elapsed_seconds (lastUpdated b) now")
    case (Fin x)
    with elapsed_at_least [OF time] have "of_nat s \<le> x" by simp
    then have "of_nat s * r \<le> x * r" using r by (intro mult_right_mono) simp_all
    with rate(2) have "of_int 6 \<le> x * r" by simp
    then have "fp_le (Fin (of_int 6)) (f64 (x * r))" by (rule f64_ge_int) simp_all
    with Fin rate(1) show ?thesis by simp
  qed (use elapsed_at_least [OF time] rate(1) r in simp_all)
  then show ?thesis
  proof (cases ?new)
    case (Fin x)
    with new have "6 \<le> x" by simp
    with a(2) have "of_int 1 \<le> a + x" by simp
    then have "fp_le (Fin (of_int 1)) (f64 (a + x))" by (rule f64_ge_int) simp_all
    with Fin a \<open>6 \<le> x\<close> sz show ?thesis
      by (auto simp: refill_def Let_def dbl_min_def u64_double_eq)
  qed (use a new sz in \<open>auto simp: refill_def Let_def dbl_min_def u64_double_eq\<close>)
qed

text \<open>
  C35. Refused devices recover: once the clock has advanced by enough seconds for six tokens at
  the configured rate since the bucket was last refilled, a message of normal priority is accepted,
  however deep the device was in debt and however long it was silent.
\<close>

theorem silence_restores_service:
  assumes "limiter_wf rl" "map_of (deviceBuckets rl) d = Some b"
    "tokensPerSecond b = Fin r" "6 \<le> of_nat s * r" "bucketSize b \<noteq> 0"
    "int s * 1000000000 \<le> t - lastUpdated b" "s \<le> 9000000"
  shows "fst (checkLimit t0 t d NORMAL rl)"
proof -
  have wf: "bucket_wf b" using assms(1,2) by (rule limiter_wf_lookup)
  have "f64 1 = Fin 1" using dbl.rnd_int [of 1] f64_bounded [of 1] by simp
  with refill_at_least [OF wf assms(3,4,6,7,5)] assms(2) show ?thesis
    by (simp add: checkLimit_eq bucket_for_def consumeToken_def Let_def)
qed

theorem silence_restores_service_witness:
  "fst (checkLimit 0 1000000000 ''1'' NORMAL
     (new_rate_limiter default_rate_config
        \<lparr>deviceBuckets := [(''1'', (new_bucket 0 (Fin 10) 20)\<lparr>availableTokens := Fin (- 4)\<rparr>)]\<rparr>))"
proof (rule silence_restores_service [where b = "(new_bucket 0 (Fin 10) 20)\<lparr>availableTokens := Fin (- 4)\<rparr>"
      and r = 10 and s = 1])
  have "rnd64 (u64_rat 20) = 20" using dbl.rnd_int [of 20] by (simp add: u64_rat_def)
  then show "limiter_wf (new_rate_limiter default_rate_config
        \<lparr>deviceBuckets := [(''1'', (new_bucket 0 (Fin 10) 20)\<lparr>availableTokens := Fin (- 4)\<rparr>)]\<rparr>)"
    by (simp add: limiter_wf_def bucket_wf_def new_bucket_def)
  show "6 \<le> of_nat 1 * (10 :: rat)" by simp
qed (simp_all add: new_bucket_def)

text \<open>
  The counters of the test interface are never fed: \<open>getStatistics\<close> reports zeros after every run.
\<close>

lemma testBuckets_empty: "testBuckets (run_state limiter_step ops (new_rate_limiter c)) = []"
proof (rule run_state_invariant [where I = "\<lambda>rl. testBuckets rl = []"])
  fix op and rl :: rate_limiter
  assume "testBuckets rl = []"
  then show "testBuckets (snd (limiter_step op rl)) = []"
    by (cases op) (auto simp: limiter_ops Let_def split: option.splits prod.splits)
qed (simp add: new_rate_limiter_def)

end
