(* ===== verification/Gateway.thy ===== *)
theory Gateway
  imports Session Rate_Limiter
begin

text \<open>
  \<open>udp-gateway\<close>: \<open>gateway.hpp\<close> and \<open>gateway.cpp\<close>. The gateway is the handler of its sessions: it
  publishes accepted messages, reports errors and looks up commands. Around that it has a life
  cycle: socket, worker threads, metrics timer and sessions. The world of a session is extended by
  the gateway's own state; what the operating system answers during a call is an argument of the
  call.
\<close>

section \<open>State\<close>

record gateway_config =
  gc_listenAddress :: string
  gc_listenPort :: u16
  gc_enableIPv6 :: bool
  gc_maxMessageSize :: nat
  gc_numWorkerThreads :: nat
  gc_regionCode :: string
  gc_enableDebugging :: bool
  gc_enableAcknowledgments :: bool
  gc_processingTimeout :: int
  gc_defaultMessagesPerSecond :: fp
  gc_defaultBurstSize :: u64
  gc_queuePrefix :: string
  gc_enableMetrics :: bool
  gc_metricsInterval :: int

definition default_gateway_config :: gateway_config where
  "default_gateway_config =
     \<lparr>gc_listenAddress = ''0.0.0.0'', gc_listenPort = 8125, gc_enableIPv6 = False,
      gc_maxMessageSize = 8192, gc_numWorkerThreads = 0, gc_regionCode = ''na'',
      gc_enableDebugging = False, gc_enableAcknowledgments = True, gc_processingTimeout = 500,
      gc_defaultMessagesPerSecond = Fin 10, gc_defaultBurstSize = 20, gc_queuePrefix = [],
      gc_enableMetrics = True, gc_metricsInterval = 10\<rparr>"

text \<open>
  \<open>gw_socket\<close> is \<open>None\<close> while the socket is closed and holds the bound endpoint, if any, once it is
  open. \<open>gw_workers\<close> counts the threads in \<open>workerThreads_\<close>; \<open>gw_timer\<close> is \<open>None\<close> before the metrics
  timer is created and tells whether a wait is pending afterwards.
\<close>

record gateway =
  gw_config :: gateway_config
  gw_running :: bool
  gw_workGuard :: bool
  gw_ioStopped :: bool
  gw_socket :: "endpoint option option"
  gw_workers :: nat
  gw_sessions :: "(endpoint \<times> session) list"
  gw_metrics :: gateway_metrics
  gw_timer :: "bool option"

definition new_gateway :: "ticks \<Rightarrow> gateway_config \<Rightarrow> gateway" where
  "new_gateway now cfg =
     \<lparr>gw_config = cfg, gw_running = False, gw_workGuard = False, gw_ioStopped = False,
      gw_socket = None, gw_workers = 0, gw_sessions = [], gw_metrics = empty_metrics now,
      gw_timer = None\<rparr>"

text \<open>\<open>initialize\<close>, called by the first constructor only; \<open>hw\<close> is \<open>hardware_concurrency()\<close>.\<close>

definition initialize_config :: "nat \<Rightarrow> gateway_config \<Rightarrow> gateway_config" where
  "initialize_config hw cfg =
     (if gc_numWorkerThreads cfg = 0
      then cfg\<lparr>gc_numWorkerThreads := (if hw = 0 then 4 else hw)\<rparr> else cfg)"

definition new_gateway_default :: "ticks \<Rightarrow> nat \<Rightarrow> gateway_config \<Rightarrow> gateway" where
  "new_gateway_default now hw cfg = new_gateway now (initialize_config hw cfg)"

text \<open>The token bucket limiter behind its interface, with the readings of the clock to come.\<close>

definition token_bucket_if :: "(rate_limiter \<times> (nat \<Rightarrow> ticks)) rate_limiter_if" where
  "token_bucket_if =
     \<lparr>if_checkLimit = (\<lambda>dev p (rl, clock).
        let fresh = (map_of (deviceBuckets rl) dev = None); k = (if fresh then 1 else 0);
            (ok, rl) = checkLimit (clock 0) (clock k) dev p rl
        in (Inr ok, rl, \<lambda>i. clock (i + k + 1))),
      if_recordMessage = (\<lambda>dev p len (rl, clock). (Inr (), rl_recordMessage dev p len rl, clock))\<rparr>"

definition default_deps where
  "default_deps =
     \<lparr>protocolParser = None, deduplicationService = None, messagePublisher = None,
      deviceManager = None, rateLimiter = Some token_bucket_if, metricsCollector = None\<rparr>"

record ('q, 'd, 'p, 'm, 'l, 'x) gw_world = "('q, 'd, 'p, 'm, 'l, 'x) world" +
  gw_state :: gateway

definition modify_gateway where
  "modify_gateway f = (\<lambda>w. (Inr (), w\<lparr>gw_state := f (gw_state w)\<rparr>))"

definition read_gateway where
  "read_gateway f = (\<lambda>w. f (gw_state w) w)"

definition update_gateway_metrics where
  "update_gateway_metrics f = modify_gateway (\<lambda>g. g\<lparr>gw_metrics := f (gw_metrics g)\<rparr>)"

section \<open>Queue names\<close>

fun queue_suffix :: "queue_type \<Rightarrow> string" where
  "queue_suffix INBOUND = ''inbound''"
| "queue_suffix DEBUG = ''debug''"
| "queue_suffix DISCARD = ''discard''"
| "queue_suffix OUTBOUND = ''outbound''"

definition createQueueName :: "gateway_config \<Rightarrow> string \<Rightarrow> queue_type \<Rightarrow> string" where
  "createQueueName cfg imei t =
     (if gc_queuePrefix cfg \<noteq> [] then gc_queuePrefix cfg @ ''.'' else []) @
     gc_regionCode cfg @ ''.'' @ imei @ ''_'' @ queue_suffix t"

section \<open>The session handler\<close>

definition publish_to where
  "publish_to d dev t payload =
     read_gateway (\<lambda>g. on_publisher d (\<lambda>p. publishMessage p (createQueueName (gw_config g) dev t) payload))"

definition count_published where
  "count_published d region =
     io_when (metricsCollector d \<noteq> None)
       (io_then (on_collector d (\<lambda>c. incrementCounter c ''messages_published'' 1))
         (update_gateway_metrics
            (\<lambda>g. g\<lparr>gm_processed := gm_processed g + 1, gm_perRegion := bump region (gm_perRegion g)\<rparr>)))"

definition handleMessage where
  "handleMessage d m =
     io_catch
       (io_bind (publish_to d (dm_device m) INBOUND (dm_payload m)) (\<lambda>published.
          if \<not> published
          then read_gateway (\<lambda>g. io_return (makeErrorResult DEPENDENCY_FAILURE
                 (''Failed to publish message to queue: '' @
                  createQueueName (gw_config g) (dm_device m) INBOUND)))
          else
            io_then (read_gateway (\<lambda>g. io_when (gc_enableDebugging (gw_config g))
              (io_bind (publish_to d (dm_device m) DEBUG (dm_payload m)) (\<lambda>_. io_return ()))))
            (io_then (count_published d (dm_region m))
              (io_return makeSuccessResult))))
       (\<lambda>e. io_return (makeErrorResult INTERNAL_ERROR (''Error handling message: '' @ e)))"

definition count_error where
  "count_error d code =
     io_when (metricsCollector d \<noteq> None)
       (io_then (on_collector d (\<lambda>c. recordError c (errorCodeToString code)))
         (update_gateway_metrics
            (\<lambda>g. g\<lparr>gm_rejected := gm_rejected g + 1,
                   gm_perError := bump (errorCodeToString code) (gm_perError g)\<rparr>)))"

definition error_payload :: "error_code \<Rightarrow> string \<Rightarrow> u8 list" where
  "error_payload code msg = map byte_of_char (''Error: '' @ errorCodeToString code @ '' - '' @ msg)"

definition handleError where
  "handleError d dev code msg =
     io_catch
       (io_then
          (io_when (code = INVALID_MESSAGE \<or> code = AUTHENTICATION_FAILURE)
             (io_bind (publish_to d dev DISCARD (error_payload code msg)) (\<lambda>_. io_return ())))
          (count_error d code))
       (\<lambda>e. io_return ())"

definition getPendingCommands where
  "getPendingCommands d dev =
     io_catch (on_devices d (\<lambda>dm. dm_getPendingCommands dm dev)) (\<lambda>e. io_return [])"

definition gateway_handler where
  "gateway_handler d =
     \<lparr>sh_handleMessage = handleMessage d, sh_handleError = handleError d,
      sh_getPendingCommands = getPendingCommands d\<rparr>"

section \<open>Life cycle\<close>

text \<open>
  What the operating system and the socket library answer during one call: the text of the
  exception a step throws, or \<open>None\<close>. \<open>ue_alreadyOpen\<close> is the text of the exception that opening an
  open socket throws; \<open>ue_thread i\<close> concerns the \<open>i\<close>-th thread of the loop.
\<close>

record udp_env =
  ue_address :: "string option"
  ue_alreadyOpen :: string
  ue_open :: "string option"
  ue_option :: "string option"
  ue_bind :: "string option"
  ue_thread :: "nat \<Rightarrow> string option"
  ue_session :: "string option"
  ue_schedule :: "string option"
  ue_join :: "string option"
  ue_now :: ticks

definition os_step :: "string option \<Rightarrow> ('w, unit) io" where
  "os_step r = (case r of None \<Rightarrow> io_return () | Some e \<Rightarrow> io_throw (Std_Exception e))"

definition setupSocket where
  "setupSocket env =
     io_then (os_step (ue_address env))
     (io_then (read_gateway (\<lambda>g. os_step (if gw_socket g \<noteq> None then Some (ue_alreadyOpen env)
                                            else ue_open env)))
     (io_then (modify_gateway (\<lambda>g. g\<lparr>gw_socket := Some None\<rparr>))
     (io_then (os_step (ue_option env))
     (io_then (os_step (ue_bind env))
       (modify_gateway (\<lambda>g. g\<lparr>gw_socket :=
          Some (Some (Endpoint (gc_listenAddress (gw_config g)) (gc_listenPort (gw_config g))))\<rparr>))))))"

fun start_threads where
  "start_threads env i 0 = io_return ()"
| "start_threads env i (Suc n) =
     io_then (os_step (ue_thread env i))
     (io_then (modify_gateway (\<lambda>g. g\<lparr>gw_workers := gw_workers g + 1\<rparr>))
       (start_threads env (Suc i) n))"

definition gateway_session_config :: "gateway_config \<Rightarrow> session_config" where
  "gateway_session_config cfg =
     \<lparr>sc_regionCode = gc_regionCode cfg, sc_maxMessageSize = gc_maxMessageSize cfg,
      sc_enableDebugging = gc_enableDebugging cfg,
      sc_enableAcknowledgments = gc_enableAcknowledgments cfg,
      sc_processingTimeout = gc_processingTimeout cfg\<rparr>"

definition startAccept where
  "startAccept env = read_gateway (\<lambda>g.
     if \<not> gw_running g then io_return ()
     else io_catch
       (io_then (os_step (ue_session env))
         (case gw_socket g of
            Some (Some ep) \<Rightarrow>
              modify_gateway (\<lambda>g. g\<lparr>gw_sessions :=
                al_set ep (session_start (new_session (gateway_session_config (gw_config g)))) (gw_sessions g)\<rparr>)
          | _ \<Rightarrow> io_throw (Std_Exception [])))
       (\<lambda>e. io_return ()))"

definition handleAccept where
  "handleAccept env (failed :: bool) =
     read_gateway (\<lambda>g. if \<not> gw_running g then io_return () else startAccept env)"

definition gateway_updateMetrics where
  "gateway_updateMetrics env d = read_gateway (\<lambda>g.
     if \<not> gc_enableMetrics (gw_config g) \<or> metricsCollector d = None \<or> \<not> gw_running g then io_return ()
     else io_catch
       (io_then
          (update_gateway_metrics (\<lambda>x.
             let active = word_of_nat (length (gw_sessions g))
             in x\<lparr>gm_lastUpdated := ue_now env, gm_active := active, gm_peak := max (gm_peak x) active\<rparr>))
          (read_gateway (\<lambda>g.
             io_then (on_collector d (\<lambda>c. recordGauge c ''active_connections'' (u64_double (gm_active (gw_metrics g)))))
             (io_then (on_collector d (\<lambda>c. recordGauge c ''peak_connections'' (u64_double (gm_peak (gw_metrics g)))))
             (if gw_timer g = None then io_throw Null_Deref
              else io_then (os_step (ue_schedule env))
                     (modify_gateway (\<lambda>g. g\<lparr>gw_timer := Some True\<rparr>)))))))
       (\<lambda>e. io_return ()))"

text \<open>\<open>start\<close> up to the point where the gateway is marked as running.\<close>

definition bring_up where
  "bring_up env d = read_gateway (\<lambda>g.
     io_then (setupSocket env)
     (io_then (modify_gateway (\<lambda>g. g\<lparr>gw_workGuard := True\<rparr>))
     (io_then (start_threads env 0 (gc_numWorkerThreads (gw_config g)))
     (io_then (io_when (gc_enableMetrics (gw_config g) \<and> metricsCollector d \<noteq> None)
        (io_then (modify_gateway (\<lambda>g. g\<lparr>gw_timer := Some False\<rparr>)) (gateway_updateMetrics env d)))
       (startAccept env)))))"

definition gateway_start where
  "gateway_start env d = read_gateway (\<lambda>g.
     if gw_running g
     then io_return (makeErrorResult INVALID_CONFIGURATION ''Gateway is already running'')
     else io_catch
       (io_then (bring_up env d)
       (io_then (modify_gateway (\<lambda>g. g\<lparr>gw_running := True\<rparr>))
         (io_return makeSuccessResult)))
       (\<lambda>e. io_return (makeErrorResult INTERNAL_ERROR (''Failed to start gateway: '' @ e))))"

definition gateway_stop where
  "gateway_stop env = read_gateway (\<lambda>g.
     if \<not> gw_running g then io_return ()
     else
       io_then (modify_gateway (\<lambda>g. g\<lparr>gw_running := False, gw_workGuard := False,
                                       gw_timer := map_option (\<lambda>_. False) (gw_timer g)\<rparr>))
       (io_catch
          (io_then (modify_gateway (\<lambda>g. g\<lparr>gw_sessions := [], gw_ioStopped := True\<rparr>))
          (io_then (os_step (ue_join env))
            (modify_gateway (\<lambda>g. g\<lparr>gw_workers := 0\<rparr>))))
          (\<lambda>e. io_return ())))"

text \<open>
  The destructor stops the gateway and then destroys the members; destroying a vector with a
  joinable thread terminates the program.
\<close>

definition gateway_destroy where
  "gateway_destroy env w = (gw_workers (gw_state (snd (gateway_stop env w))) = 0)"

definition isRunning where "isRunning w = gw_running (gw_state w)"

definition getMetrics where "getMetrics w = gw_metrics (gw_state w)"

definition getActiveConnectionCount where
  "getActiveConnectionCount w = length (gw_sessions (gw_state w))"

section \<open>Queue names are distinct\<close>

lemma split_at_last:
  "c \<notin> set u \<Longrightarrow> c \<notin> set v \<Longrightarrow> a @ c # u = b @ c # v \<Longrightarrow> a = b \<and> u = v"
proof (induction a arbitrary: b)
  case Nil
  then show ?case by (cases b) auto
next
  case (Cons x a)
  then show ?case by (cases b) auto
qed

lemma queue_suffix_split:
  "a @ CHR ''_'' # queue_suffix s = b @ CHR ''_'' # queue_suffix t \<longleftrightarrow> a = b \<and> s = t"
proof
  assume eq: "a @ CHR ''_'' # queue_suffix s = b @ CHR ''_'' # queue_suffix t"
  have no: "CHR ''_'' \<notin> set (queue_suffix u)" for u by (cases u) simp_all
  from split_at_last [OF no no eq] have "a = b \<and> queue_suffix s = queue_suffix t" .
  moreover have "queue_suffix s = queue_suffix t \<Longrightarrow> s = t" by (cases s; cases t) simp_all
  ultimately show "a = b \<and> s = t" by simp
qed simp

text \<open>
  Under one configuration, whatever prefix and region it has, different devices or different
  purposes never share a queue, for any strings as device identifiers.
\<close>

lemma queue_names_distinct:
  "createQueueName cfg a s = createQueueName cfg b t \<longleftrightarrow> a = b \<and> s = t"
  by (simp add: createQueueName_def queue_suffix_split)

text \<open>Across configurations names can coincide: a prefix and a region split differently.\<close>

lemma queue_names_collide:
  "createQueueName (default_gateway_config\<lparr>gc_queuePrefix := ''eu'', gc_regionCode := ''x''\<rparr>) a t =
   createQueueName (default_gateway_config\<lparr>gc_regionCode := ''eu.x''\<rparr>) a t"
  by (simp add: createQueueName_def default_gateway_config_def)

section \<open>The handler keeps its distance\<close>

lemma modify_keeps [keeps]:
  "io_keeps (same w_dedup) (modify_gateway f)" "io_keeps (same w_sent) (modify_gateway f)"
  "io_keeps (same w_publisher) (modify_gateway f)"
  by (simp_all add: io_keeps_def modify_gateway_def same_def)

lemma read_keeps [keeps]: "(\<And>g. io_keeps P (f g)) \<Longrightarrow> io_keeps P (read_gateway f)"
  by (simp add: io_keeps_def read_gateway_def)

lemma handler_keeps [keeps]:
  "io_keeps (same w_dedup) (handleMessage d m)" "io_keeps (same w_dedup) (handleError d dev c e)"
  "io_keeps (same w_dedup) (getPendingCommands d dev)"
  "io_keeps (same w_sent) (handleMessage d m)" "io_keeps (same w_sent) (handleError d dev c e)"
  "io_keeps (same w_sent) (getPendingCommands d dev)"
  unfolding handleMessage_def handleError_def getPendingCommands_def publish_to_def
    count_published_def count_error_def update_gateway_metrics_def
  by (intro keeps)+

interpretation gh: session_handling "gateway_handler d" for d
  by unfold_locales (simp_all add: gateway_handler_def keeps)

lemma read_safe [safe]: "(\<And>g. io_safe (f g)) \<Longrightarrow> io_safe (read_gateway f)"
  by (simp add: io_safe_def read_gateway_def)

lemma modify_safe [safe]: "io_safe (modify_gateway f)"
  by (simp add: io_safe_def modify_gateway_def)

lemma gateway_handler_safe: "deps_present d \<Longrightarrow> handler_safe (gateway_handler d)"
  unfolding handler_safe_def gateway_handler_def handleMessage_def handleError_def
    getPendingCommands_def publish_to_def count_published_def count_error_def update_gateway_metrics_def
  by (simp, intro conjI allI safe; assumption?)


section \<open>What reaches the inbound queues\<close>

text \<open>
  A publisher that records every call and answers it as \<open>ans\<close> says: the client's view of a broker.
\<close>

definition recording_publisher :: "(nat \<Rightarrow> string + bool) \<Rightarrow> (string \<times> u8 list) list message_publisher" where
  "recording_publisher ans = \<lparr>publishMessage = (\<lambda>q data calls. (ans (length calls), calls @ [(q, data)]))\<rparr>"

definition is_inbound :: "string \<Rightarrow> bool" where
  "is_inbound q = (take 8 (rev q) = rev ''_inbound'')"

abbreviation inbound :: "(string \<times> u8 list) list \<Rightarrow> (string \<times> u8 list) list" where
  "inbound calls \<equiv> filter (\<lambda>e. is_inbound (fst e)) calls"

lemma is_inbound_name [simp]: "is_inbound (createQueueName cfg dev t) \<longleftrightarrow> t = INBOUND"
  by (cases t) (simp_all add: is_inbound_def createQueueName_def)

text \<open>\<open>publishes xs\<close>: the entries \<open>xs\<close> were added to the inbound part of the log.\<close>

definition publishes where
  "publishes xs w w' \<longleftrightarrow> inbound (w_publisher w') = inbound (w_publisher w) @ xs \<and>
     gw_config (gw_state w') = gw_config (gw_state w)"

lemma publishes_refl [simp, keeps]: "reflp (publishes [])" "transp (publishes [])"
  by (auto simp: publishes_def intro!: reflpI transpI)

lemma publishes_trans: "publishes xs u v \<Longrightarrow> publishes ys v w \<Longrightarrow> publishes (xs @ ys) u w"
  by (simp add: publishes_def)

lemma quiet_calls [keeps]:
  "io_keeps (publishes []) (on_parser d f)" "io_keeps (publishes []) (on_dedup d g)"
  "io_keeps (publishes []) (on_devices d i)" "io_keeps (publishes []) (on_limiter d j)"
  "io_keeps (publishes []) (on_collector d k)" "io_keeps (publishes []) (send_to b ep)"
  by (auto simp: on_parser_def on_dedup_def on_devices_def on_limiter_def on_collector_def send_to_def
      io_keeps_def io_call_def io_when_def publishes_def split: option.splits prod.splits)

lemma quiet_metrics [keeps]: "io_keeps (publishes []) (update_gateway_metrics f)"
  by (simp add: update_gateway_metrics_def modify_gateway_def io_keeps_def publishes_def)

lemma quiet_validate [keeps]: "io_keeps (publishes []) (validate d n m)"
  unfolding validate_def check_duplicate_def check_rate_def record_accepted_def by (intro keeps)+

lemma quiet_parse [keeps]: "io_keeps (publishes []) (parseAndValidate d cfg data)"
  unfolding parseAndValidate_def by (intro keeps; simp split: result.split add: keeps)+

lemma publish_to_run:
  assumes "messagePublisher d = Some (recording_publisher ans)"
  shows "publish_to d dev t payload w =
    (io_result (ans (length (w_publisher w))),
     w\<lparr>w_publisher := w_publisher w @ [(createQueueName (gw_config (gw_state w)) dev t, payload)]\<rparr>)"
  using assms
  by (simp add: publish_to_def read_gateway_def on_publisher_def io_call_def recording_publisher_def)

lemma publish_to_quiet:
  assumes "messagePublisher d = Some (recording_publisher ans)" "t \<noteq> INBOUND"
  shows "io_keeps (publishes []) (publish_to d dev t payload)"
  using assms(2) by (simp add: io_keeps_def publish_to_run [OF assms(1)] publishes_def)

lemma handleMessage_publishes:
  assumes p: "messagePublisher d = Some (recording_publisher ans)"
    and run: "handleMessage d m w = (r, w')"
  shows "publishes [(createQueueName (gw_config (gw_state w)) (dm_device m) INBOUND, dm_payload m)] w w'"
proof -
  let ?q = "createQueueName (gw_config (gw_state w)) (dm_device m) INBOUND"
  let ?w1 = "w\<lparr>w_publisher := w_publisher w @ [(?q, dm_payload m)]\<rparr>"
  have first: "publishes [(?q, dm_payload m)] w ?w1" by (simp add: publishes_def)
  have rest: "io_keeps (publishes [])
      (if \<not> b then read_gateway (\<lambda>g. io_return (makeErrorResult DEPENDENCY_FAILURE
                 (''Failed to publish message to queue: '' @
                  createQueueName (gw_config g) (dm_device m) INBOUND)))
          else
            io_then (read_gateway (\<lambda>g. io_when (gc_enableDebugging (gw_config g))
              (io_bind (publish_to d (dm_device m) DEBUG (dm_payload m)) (\<lambda>_. io_return ()))))
            (io_then (count_published d (dm_region m))
              (io_return makeSuccessResult)))" for b
    unfolding count_published_def by (intro keeps publish_to_quiet [OF p]) simp_all
  have "publishes [] ?w1 w'"
  proof (cases "ans (length (w_publisher w))")
    case (Inl e)
    with run show ?thesis
      by (simp add: handleMessage_def publish_to_run [OF p] io_catch_def io_bind_def publishes_def)
  next
    case (Inr b)
    obtain t w2 where k: "(if \<not> b then read_gateway (\<lambda>g. io_return (makeErrorResult DEPENDENCY_FAILURE
                 (''Failed to publish message to queue: '' @
                  createQueueName (gw_config g) (dm_device m) INBOUND)))
          else
            io_then (read_gateway (\<lambda>g. io_when (gc_enableDebugging (gw_config g))
              (io_bind (publish_to d (dm_device m) DEBUG (dm_payload m)) (\<lambda>_. io_return ()))))
            (io_then (count_published d (dm_region m))
              (io_return makeSuccessResult))) ?w1 = (t, w2)" by fastforce
    have "w' = w2"
      using run Inr k
      by (auto simp: handleMessage_def publish_to_run [OF p] io_catch_def io_bind_def
          split: sum.splits exc.splits)
    with io_keepsD [OF rest k] show ?thesis by simp
  qed
  with publishes_trans [OF first this] show ?thesis by simp
qed

lemma handler_quiet [keeps]:
  assumes "messagePublisher d = Some (recording_publisher ans)"
  shows "io_keeps (publishes []) (handleError d dev c e)" "io_keeps (publishes []) (getPendingCommands d dev)"
  unfolding handleError_def getPendingCommands_def count_error_def
  by (intro keeps publish_to_quiet [OF assms]; simp)+

text \<open>An assumption on the metrics collector: it may be absent, but counting does not throw.\<close>

definition counters_accepted where
  "counters_accepted d \<longleftrightarrow>
     (\<forall>c. metricsCollector d = Some c \<longrightarrow> (\<forall>e n s. \<exists>s'. incrementCounter c e n s = (Inr (), s')))"

lemma processPacket_publishes:
  assumes p: "messagePublisher d = Some (recording_publisher ans)"
    and c: "counters_accepted d"
    and run: "processPacket d (gateway_handler d) cfg data sender w = (r, w')"
  shows "publishes (case accepted d cfg data w of None \<Rightarrow> []
    | Some m \<Rightarrow> [(createQueueName (gw_config (gw_state w)) (dm_device m) INBOUND, dm_payload m)]) w w'"
proof -
  obtain a w1 where pv: "parseAndValidate d cfg data w = (a, w1)" by fastforce
  note q = io_keepsD [OF quiet_parse pv]
  show ?thesis
  proof (cases a)
    case (Inl x)
    with pv run q show ?thesis by (simp add: processPacket_def accepted_def)
  next
    case (Inr res)
    show ?thesis
    proof (cases res)
      case (Error_Result code e)
      have "io_keeps (publishes []) (handle_rejected d (gateway_handler d) data code e)"
        unfolding handle_rejected_def updateMetrics_def gateway_handler_def
        by (simp, intro keeps handler_quiet [OF p])
      moreover from Inr Error_Result pv run
      have "handle_rejected d (gateway_handler d) data code e w1 = (r, w')"
        by (simp add: processPacket_def)
      ultimately have "publishes [] w1 w'" by (rule io_keepsD)
      from publishes_trans [OF q this] Inr Error_Result pv show ?thesis by (simp add: accepted_def)
    next
      case (Ok_Result m)
      have "\<exists>w2. updateMetrics d True [] w1 = (Inr (), w2)"
      proof (cases "metricsCollector d")
        case (Some k)
        with c obtain s' where "incrementCounter k ''packets_processed'' 1 (w_collector w1) = (Inr (), s')"
          unfolding counters_accepted_def by blast
        with Some show ?thesis by (simp add: updateMetrics_def on_collector_def io_call_def)
      qed (simp add: updateMetrics_def on_collector_def)
      then obtain w2 where um: "updateMetrics d True [] w1 = (Inr (), w2)" ..
      have "io_keeps (publishes []) (updateMetrics d True [])"
        unfolding updateMetrics_def by (simp, intro keeps)
      from io_keepsD [OF this um] q have q2: "publishes [] w w2"
        using publishes_trans [of "[]" w w1 "[]" w2] by simp
      obtain rm w3 where hm: "handleMessage d m w2 = (rm, w3)" by fastforce
      note pub = handleMessage_publishes [OF p hm]
      have rest: "io_keeps (publishes [])
          (io_then (io_when (dm_requiresAck m \<and> sc_enableAcknowledgments cfg)
             (sendAcknowledgment d m (if result_success x then SUCCESS else result_code x) sender))
           (io_when (result_success x) (sendCommands d (gateway_handler d) (dm_device m) sender)))" for x
        unfolding sendAcknowledgment_def sendCommands_def gateway_handler_def Let_def
          session_handler.select_convs
        by (intro keeps handler_quiet [OF p])
      have "publishes [] w3 w'"
        using Inr Ok_Result pv run um hm io_keepsD [OF rest]
        by (cases rm)
          (auto simp: processPacket_def handle_accepted_def gateway_handler_def publishes_def)
      with q2 pub Inr Ok_Result pv show ?thesis by (simp add: accepted_def publishes_def)
    qed
  qed
qed

lemma event_publishes:
  assumes p: "messagePublisher d = Some (recording_publisher ans)"
    and c: "counters_accepted d"
    and run: "session_step d (gateway_handler d) ev (s, w) = (r, s', w')"
  shows "publishes (map (\<lambda>m. (createQueueName (gw_config (gw_state w)) (dm_device m) INBOUND, dm_payload m))
    (event_accepted d ev (s, w))) w w'"
proof (cases ev)
  case (Datagram data sender)
  with run have "receive_datagram d (gateway_handler d) data sender (s, w) = (r, s', w')"
    by (simp add: session_step_def)
  show ?thesis
  proof (cases "delivered data s")
    case True
    let ?packet = "take (length (sn_buffer s)) data"
    obtain r1 w1 where pp: "processPacket d (gateway_handler d) (sn_config s) ?packet sender w = (r1, w1)"
      by fastforce
    obtain r2 w2 where cl: "on_collector d (\<lambda>c. recordError c ''packet_processing_exception'') w1 = (r2, w2)"
      by fastforce
    have "w' = w1 \<or> w' = w2"
      using \<open>receive_datagram d (gateway_handler d) data sender (s, w) = (r, s', w')\<close>
        delivered_run [OF True pp] cl
      by (simp add: Let_def split: sum.splits exc.splits)
    then have q: "publishes [] w1 w'" using io_keepsD [OF quiet_calls(5) cl] by (auto simp: publishes_def)
    from publishes_trans [OF processPacket_publishes [OF p c pp] q] True Datagram show ?thesis
      by (auto simp: event_accepted_def delivered_def Let_def split: option.splits)
  next
    case False
    with not_delivered_run [OF this, of d "gateway_handler d" sender w] run Datagram have "w' = w"
      by (auto simp: session_step_def)
    moreover from False Datagram have "event_accepted d ev (s, w) = []"
      by (auto simp: event_accepted_def delivered_def Let_def)
    ultimately show ?thesis by (simp add: publishes_def)
  qed
next
  case (Failure e)
  with run have "receive_error d (gateway_handler d) e (s, w) = (r, s', w')" by (simp add: session_step_def)
  from failure_world [OF this] have "publishes [] w w'"
  proof (elim disjE exE)
    fix r2
    assume "on_collector d (\<lambda>c. recordError c ''socket_error'') w = (r2, w')"
    with quiet_calls(5) show ?thesis by (rule io_keepsD)
  qed (simp add: publishes_def)
  with Failure show ?thesis by (simp add: event_accepted_def)
qed (use run in \<open>simp_all add: session_step_def event_accepted_def publishes_def\<close>)

lemma run_publishes:
  assumes "messagePublisher d = Some (recording_publisher ans)" "counters_accepted d"
    and "session_run d (gateway_handler d) evs (s, w) = (r, s', w')"
  shows "publishes (map (\<lambda>m. (createQueueName (gw_config (gw_state w)) (dm_device m) INBOUND, dm_payload m))
    (run_accepted d (gateway_handler d) evs (s, w))) w w'"
  using assms(3)
proof (induction evs arbitrary: s w)
  case Nil
  then show ?case by (simp add: publishes_def)
next
  case (Cons ev evs)
  obtain r1 s1 w1 where step: "session_step d (gateway_handler d) ev (s, w) = (r1, s1, w1)"
    by (cases "session_step d (gateway_handler d) ev (s, w)") auto
  note first = event_publishes [OF assms(1,2) step]
  show ?case
  proof (cases r1)
    case (Inl x)
    with step Cons.prems have "w' = w1" by simp
    with first Inl step show ?thesis by simp
  next
    case (Inr u)
    with step Cons.prems have "session_run d (gateway_handler d) evs (s1, w1) = (r, s', w')" by simp
    from Cons.IH [OF this] first have "publishes
        (map (\<lambda>m. (createQueueName (gw_config (gw_state w)) (dm_device m) INBOUND, dm_payload m))
          (event_accepted d ev (s, w)) @
         map (\<lambda>m. (createQueueName (gw_config (gw_state w)) (dm_device m) INBOUND, dm_payload m))
          (run_accepted d (gateway_handler d) evs (s1, w1))) w w'"
      by (intro publishes_trans) (auto simp: publishes_def)
    with Inr step show ?thesis by simp
  qed
qed


text \<open>
  C36. Only accepted messages are answered: an event that accepts no message sends nothing. In
  particular the retransmission of a message whose acknowledgment was lost is refused as a
  duplicate and not acknowledged.
\<close>

theorem unaccepted_unanswered:
  assumes "session_step d (gateway_handler d) ev (s, w) = (r, s', w')" "event_accepted d ev (s, w) = []"
  shows "w_sent w' = w_sent w"
  by (rule gh.event_unanswered [OF assms])

section \<open>The life of a gateway\<close>

datatype life_call = Call_Start udp_env | Call_Stop udp_env

datatype life_answer = Started "exc + void_result" | Stopped "exc + unit"

definition life_step where
  "life_step d c w =
     (case c of
        Call_Start env \<Rightarrow> (case gateway_start env d w of (r, w') \<Rightarrow> (Started r, w'))
      | Call_Stop env \<Rightarrow> (case gateway_stop env w of (r, w') \<Rightarrow> (Stopped r, w')))"

fun start_succeeded :: "life_answer \<Rightarrow> bool" where
  "start_succeeded (Started (Inr (Ok_Result b))) = True"
| "start_succeeded _ = False"

text \<open>What stays as it is while the gateway is not running.\<close>

definition dormant where
  "dormant w w' \<longleftrightarrow>
     (\<not> gw_running (gw_state w) \<longrightarrow>
        \<not> gw_running (gw_state w') \<and> gw_sessions (gw_state w') = gw_sessions (gw_state w) \<and>
        gw_metrics (gw_state w') = gw_metrics (gw_state w) \<and>
        (gw_timer (gw_state w) \<noteq> Some True \<longrightarrow> gw_timer (gw_state w') \<noteq> Some True))"

definition stays_open where
  "stays_open w w' \<longleftrightarrow> (gw_socket (gw_state w) \<noteq> None \<longrightarrow> gw_socket (gw_state w') \<noteq> None)"

lemma life_relations [simp, keeps]:
  "reflp dormant" "transp dormant" "reflp stays_open" "transp stays_open"
  by (auto simp: dormant_def stays_open_def intro!: reflpI transpI)

lemma os_step_keeps [keeps]: "reflp P \<Longrightarrow> io_keeps P (os_step r)"
  unfolding os_step_def by (cases r) (simp_all only: option.case keeps_return keeps_throw)

lemma start_threads_keeps [keeps]:
  "io_keeps dormant (start_threads env i n)" "io_keeps stays_open (start_threads env i n)"
proof -
  have m: "io_keeps dormant (modify_gateway (\<lambda>g. g\<lparr>gw_workers := gw_workers g + 1\<rparr>))"
    "io_keeps stays_open (modify_gateway (\<lambda>g. g\<lparr>gw_workers := gw_workers g + 1\<rparr>))"
    by (simp_all add: io_keeps_def modify_gateway_def dormant_def stays_open_def)
  show "io_keeps dormant (start_threads env i n)" "io_keeps stays_open (start_threads env i n)"
    by (induction n arbitrary: i; simp only: start_threads.simps; intro keeps m; assumption)+
qed

lemma updateMetrics_keeps [keeps]: "io_keeps dormant (gateway_updateMetrics env d)"
  by (auto simp: io_keeps_def gateway_updateMetrics_def read_gateway_def dormant_def)

lemma startAccept_keeps [keeps]: "io_keeps dormant (startAccept env)"
  by (auto simp: io_keeps_def startAccept_def read_gateway_def dormant_def)

lemma setupSocket_keeps [keeps]: "io_keeps dormant (setupSocket env)" "io_keeps stays_open (setupSocket env)"
  unfolding setupSocket_def
  by (intro keeps; simp add: io_keeps_def modify_gateway_def dormant_def stays_open_def)+

lemma bring_up_keeps: "io_keeps dormant (bring_up env d)"
  unfolding bring_up_def
  by (intro keeps; simp add: io_keeps_def modify_gateway_def dormant_def)

lemma collector_keeps_open [keeps]: "io_keeps stays_open (on_collector d f)"
  by (auto simp: io_keeps_def stays_open_def on_collector_def io_call_def io_when_def
      split: option.splits prod.splits)

lemma modify_keeps_open:
  "(\<And>g. gw_socket g \<noteq> None \<Longrightarrow> gw_socket (f g) \<noteq> None) \<Longrightarrow> io_keeps stays_open (modify_gateway f)"
  by (simp add: io_keeps_def modify_gateway_def stays_open_def)

lemma updateMetrics_keeps_open [keeps]: "io_keeps stays_open (gateway_updateMetrics env d)"
  unfolding gateway_updateMetrics_def update_gateway_metrics_def Let_def
  by (intro keeps modify_keeps_open; simp)

lemma startAccept_keeps_open [keeps]: "io_keeps stays_open (startAccept env)"
proof -
  have "io_keeps stays_open (case sk of
      Some (Some ep) \<Rightarrow> modify_gateway (\<lambda>g. g\<lparr>gw_sessions :=
        al_set ep (session_start (new_session (gateway_session_config (gw_config g)))) (gw_sessions g)\<rparr>)
    | _ \<Rightarrow> io_throw (Std_Exception []))" for sk
    by (cases sk; cases "the sk"; simp only: option.case option.sel;
        intro keeps modify_keeps_open; simp)
  then show ?thesis unfolding startAccept_def by (intro keeps; assumption?)
qed

lemma bring_up_keeps_open: "io_keeps stays_open (bring_up env d)"
  unfolding bring_up_def by (intro keeps modify_keeps_open; simp)

lemma start_keeps_open [keeps]: "io_keeps stays_open (gateway_start env d)"
  unfolding gateway_start_def by (intro keeps bring_up_keeps_open modify_keeps_open; simp)

lemma stop_keeps_open [keeps]: "io_keeps stays_open (gateway_stop env)"
  unfolding gateway_stop_def by (intro keeps modify_keeps_open; simp)

lemma setupSocket_opens:
  assumes "setupSocket env w = (Inr u, w')"
  shows "gw_socket (gw_state w) = None \<and> gw_socket (gw_state w') \<noteq> None"
  using assms unfolding setupSocket_def
  by (auto simp: os_step_def read_gateway_def modify_gateway_def
      elim!: io_then_InrE split: option.splits if_splits)

lemma start_cases:
  assumes "gateway_start env d w = (r, w')"
  obtains (running) "gw_running (gw_state w)" "w' = w" "\<not> start_succeeded (Started r)"
  | (failed) "\<not> gw_running (gw_state w)" "\<not> start_succeeded (Started r)" "dormant w w'"
  | (started) w1 where "\<not> gw_running (gw_state w)" "dormant w w1"
      "gw_socket (gw_state w) = None" "gw_socket (gw_state w') \<noteq> None"
      "w' = w1\<lparr>gw_state := (gw_state w1)\<lparr>gw_running := True\<rparr>\<rparr>"
proof (cases "gw_running (gw_state w)")
  case True
  with assms show thesis
    by (intro running) (auto simp: gateway_start_def read_gateway_def makeErrorResult_def)
next
  case False
  obtain a w1 where b: "bring_up env d w = (a, w1)" by fastforce
  note dorm = io_keepsD [OF bring_up_keeps b]
  show thesis
  proof (cases a)
    case (Inl x)
    with b False assms dorm show thesis
      by (intro failed; cases x) (auto simp: gateway_start_def read_gateway_def makeErrorResult_def)
  next
    case (Inr u)
    with b False assms have w': "w' = w1\<lparr>gw_state := (gw_state w1)\<lparr>gw_running := True\<rparr>\<rparr>"
      by (simp add: gateway_start_def read_gateway_def modify_gateway_def)
    let ?rest = "io_then (modify_gateway (\<lambda>g. g\<lparr>gw_workGuard := True\<rparr>))
      (io_then (start_threads env 0 (gc_numWorkerThreads (gw_config (gw_state w))))
      (io_then (io_when (gc_enableMetrics (gw_config (gw_state w)) \<and> metricsCollector d \<noteq> None)
         (io_then (modify_gateway (\<lambda>g. g\<lparr>gw_timer := Some False\<rparr>)) (gateway_updateMetrics env d)))
       (startAccept env)))"
    from b Inr have "io_then (setupSocket env) ?rest w = (Inr u, w1)"
      unfolding bring_up_def read_gateway_def by simp
    then obtain v w2 where s: "setupSocket env w = (Inr v, w2)" and rest: "?rest w2 = (Inr u, w1)"
      by (rule io_then_InrE)
    have "io_keeps stays_open ?rest" by (intro keeps modify_keeps_open; simp)
    then have "stays_open w2 w1" using rest by (rule io_keepsD)
    with setupSocket_opens [OF s] have "gw_socket (gw_state w) = None" "gw_socket (gw_state w1) \<noteq> None"
      by (simp_all add: stays_open_def)
    then show thesis using False dorm w' by (intro started) simp_all
  qed
qed

text \<open>Along every run of calls the gateway has no sessions, no pending timer and its first metrics.\<close>

definition asleep where
  "asleep m w \<longleftrightarrow> gw_sessions (gw_state w) = [] \<and> gw_timer (gw_state w) \<noteq> Some True \<and>
     gw_metrics (gw_state w) = m"

definition rests where "rests m w w' \<longleftrightarrow> (asleep m w \<longrightarrow> asleep m w')"

lemma stop_rests: "io_keeps (rests m) (gateway_stop env)"
proof -
  have [keeps]: "reflp (rests m)" "transp (rests m)"
    by (auto simp: rests_def intro!: reflpI transpI)
  have "io_keeps (rests m) (modify_gateway (\<lambda>g. g\<lparr>gw_running := False, gw_workGuard := False,
      gw_timer := map_option (\<lambda>_. False) (gw_timer g)\<rparr>))"
    "io_keeps (rests m) (modify_gateway (\<lambda>g. g\<lparr>gw_sessions := [], gw_ioStopped := True\<rparr>))"
    "io_keeps (rests m) (modify_gateway (\<lambda>g. g\<lparr>gw_workers := 0\<rparr>))"
    by (auto simp: io_keeps_def modify_gateway_def rests_def asleep_def map_option_case split: option.splits)
  then show ?thesis unfolding gateway_stop_def by (intro keeps; assumption?)
qed

lemma life_step_asleep:
  assumes "asleep m w"
  shows "asleep m (snd (life_step d c w))"
proof (cases c)
  case (Call_Start env)
  obtain r w' where st: "gateway_start env d w = (r, w')" by fastforce
  from st have "asleep m w'"
  proof (cases rule: start_cases)
    case running
    with assms show ?thesis by simp
  next
    case failed
    with assms show ?thesis by (simp add: asleep_def dormant_def)
  next
    case started
    with assms show ?thesis by (simp add: asleep_def dormant_def)
  qed
  with Call_Start st show ?thesis by (simp add: life_step_def)
next
  case (Call_Stop env)
  have "asleep m (snd (gateway_stop env w))"
    using stop_rests assms unfolding io_keeps_def rests_def by blast
  with Call_Stop show ?thesis by (cases "gateway_stop env w") (simp add: life_step_def)
qed

text \<open>
  C23. A gateway never serves a device: whatever calls of start and stop are made on it, and
  whatever the operating system answers, it never has a session, never waits for its metrics timer
  and never updates its metrics, because \<open>start\<close> creates the first session and the first metrics
  update before it marks the gateway as running.
\<close>

theorem gateway_never_serves:
  "asleep (empty_metrics now)
     (run_state (life_step d) calls (w\<lparr>gw_state := new_gateway now cfg\<rparr>))"
proof (rule run_state_invariant [where I = "asleep (empty_metrics now)"])
  show "asleep (empty_metrics now) (w\<lparr>gw_state := new_gateway now cfg\<rparr>)"
    by (simp add: asleep_def new_gateway_def)
qed (rule life_step_asleep)

lemma no_start_when_open:
  assumes "gw_socket (gw_state w) \<noteq> None"
  shows "list_all (\<lambda>e. \<not> start_succeeded (snd e)) (run_log (life_step d) calls w)"
  using assms
proof (induction calls arbitrary: w)
  case (Cons c calls)
  obtain a w' where step: "life_step d c w = (a, w')" by fastforce
  have "\<not> start_succeeded a \<and> gw_socket (gw_state w') \<noteq> None"
  proof (cases c)
    case (Call_Start env)
    obtain r where st: "gateway_start env d w = (r, w')" and a: "a = Started r"
      using step Call_Start by (auto simp: life_step_def split: prod.splits)
    have "stays_open w w'" using io_keepsD [OF start_keeps_open st] .
    moreover from st have "\<not> start_succeeded (Started r)"
      by (cases rule: start_cases) (use Cons.prems in simp_all)
    ultimately show ?thesis using Cons.prems a by (simp add: stays_open_def)
  next
    case (Call_Stop env)
    obtain r where st: "gateway_stop env w = (r, w')" and a: "a = Stopped r"
      using step Call_Stop by (auto simp: life_step_def split: prod.splits)
    with io_keepsD [OF stop_keeps_open st] Cons.prems show ?thesis by (simp add: stays_open_def)
  qed
  with step Cons.IH [of w'] show ?case by simp
qed simp

text \<open>
  A gateway starts at most once: in every sequence of start and stop calls at most one start
  succeeds, since stopping does not close the socket and opening it again throws.
\<close>

lemma gateway_starts_once:
  "length (filter (\<lambda>e. start_succeeded (snd e)) (run_log (life_step d) calls w)) \<le> 1"
proof (induction calls arbitrary: w)
  case (Cons c calls)
  obtain a w' where step: "life_step d c w = (a, w')" by fastforce
  show ?case
  proof (cases "start_succeeded a")
    case True
    have "gw_socket (gw_state w') \<noteq> None"
    proof (cases c)
      case (Call_Start env)
      then obtain r where st: "gateway_start env d w = (r, w')" and a: "a = Started r"
        using step by (auto simp: life_step_def split: prod.splits)
      from st show ?thesis by (cases rule: start_cases) (use True a in simp_all)
    next
      case (Call_Stop env)
      with step True show ?thesis by (auto simp: life_step_def split: prod.splits)
    qed
    from no_start_when_open [OF this, of d calls]
    have "filter (\<lambda>e. start_succeeded (snd e)) (run_log (life_step d) calls w') = []"
      by (simp add: filter_empty_conv list_all_iff)
    with step True show ?thesis by simp
  next
    case False
    with step Cons.IH [of w'] show ?thesis by simp
  qed
qed simp

section \<open>A concrete world\<close>

text \<open>
  Components small enough to evaluate: a parser that takes the first byte for the sequence number, a
  deduplication service that keeps a list of keys, a broker that refuses everything, a device
  manager that knows every device, and a metrics collector that keeps a list of what it was told.
\<close>

definition sample_message_of :: "u8 list \<Rightarrow> device_message" where
  "sample_message_of data =
     \<lparr>dm_device = ''dev'', dm_region = [], dm_payload = data, dm_sequence = ucast (hd data),
      dm_id = ''m'', dm_priority = NORMAL, dm_timestamp = 0, dm_requiresAck = True\<rparr>"

definition sample_parser :: "unit protocol_parser" where
  "sample_parser =
     \<lparr>parseMessage = (\<lambda>data s. (Inr (Ok_Result (sample_message_of data)), s)),
      createAcknowledgment = (\<lambda>a s. (Inr [if ack_success a then 1 else 0], s)),
      createCommandPacket = (\<lambda>cs s. (Inr [2], s))\<rparr>"

definition sample_dedup :: "(string \<times> u32 \<times> string) list dedup_service" where
  "sample_dedup =
     \<lparr>svc_isDuplicate = (\<lambda>dev n i s. (Inr ((dev, n, i) \<in> set s), s)),
      svc_recordMessage = (\<lambda>dev n i s. (Inr (), (dev, n, i) # s))\<rparr>"

definition sample_devices :: "unit device_manager" where
  "sample_devices =
     \<lparr>isAuthenticated = (\<lambda>dev s. (Inr True, s)), getDeviceState = (\<lambda>dev s. (Inr CONNECTED, s)),
      updateDeviceStatus = (\<lambda>dev st s. (Inr (), s)), dm_getPendingCommands = (\<lambda>dev s. (Inr [], s)),
      markCommandDelivered = (\<lambda>i s. (Inr (), s))\<rparr>"

definition sample_limiter :: "unit rate_limiter_if" where
  "sample_limiter =
     \<lparr>if_checkLimit = (\<lambda>dev p s. (Inr True, s)), if_recordMessage = (\<lambda>dev p n s. (Inr (), s))\<rparr>"

definition sample_collector :: "string list metrics_collector" where
  "sample_collector =
     \<lparr>incrementCounter = (\<lambda>name n s. (Inr (), s @ [name])), recordGauge = (\<lambda>name v s. (Inl ''gauge'', s)),
      recordError = (\<lambda>e s. (Inr (), s @ [e]))\<rparr>"

definition sample_deps ::
    "(unit, (string \<times> u32 \<times> string) list, (string \<times> u8 list) list, unit, unit, string list) deps" where
  "sample_deps =
     \<lparr>protocolParser = Some sample_parser, deduplicationService = Some sample_dedup,
      messagePublisher = Some (recording_publisher (\<lambda>n. Inr False)), deviceManager = Some sample_devices,
      rateLimiter = Some sample_limiter, metricsCollector = Some sample_collector\<rparr>"

definition sample_session :: session where
  "sample_session = session_start (new_session
     \<lparr>sc_regionCode = ''na'', sc_maxMessageSize = 4, sc_enableDebugging = False,
      sc_enableAcknowledgments = True, sc_processingTimeout = 500\<rparr>)"

definition sample_world ::
    "(unit, (string \<times> u32 \<times> string) list, (string \<times> u8 list) list, unit, unit, string list) gw_world" where
  "sample_world =
     \<lparr>w_parser = (), w_dedup = [], w_publisher = [], w_devices = (), w_limiter = (), w_collector = [],
      w_sent = [], gw_state = new_gateway 0 default_gateway_config\<rparr>"

definition sample_events :: "session_event list" where
  "sample_events = [Datagram [7, 1] (Endpoint ''host'' 1), Failure (Socket_Error ''reset''),
     Datagram [7, 1] (Endpoint ''host'' 1), Datagram [8] (Endpoint ''host'' 1)]"

lemma sample_contract: "dedup_contract sample_dedup set"
  by (auto simp: dedup_contract_def sample_dedup_def)

lemma sample_deps_sel [simp]:
  "protocolParser sample_deps = Some sample_parser" "deduplicationService sample_deps = Some sample_dedup"
  "messagePublisher sample_deps = Some (recording_publisher (\<lambda>n. Inr False))"
  "deviceManager sample_deps = Some sample_devices" "rateLimiter sample_deps = Some sample_limiter"
  "metricsCollector sample_deps = Some sample_collector"
  by (simp_all add: sample_deps_def)

lemma sample_collector_accepts: "errors_recorded sample_deps" "counters_accepted sample_deps"
  by (simp_all add: errors_recorded_def counters_accepted_def sample_collector_def)


lemma sample_accepted:
  "map dm_payload (event_accepted sample_deps (Datagram [7, 1] (Endpoint ''host'' 1)) (sample_session, sample_world)) =
   [[7, 1]]"
  by (simp add: event_accepted_def Let_def sample_session_def session_start_def doReceive_def new_session_def
      accepted_def parseAndValidate_def validate_def check_duplicate_def check_rate_def record_accepted_def
      on_parser_def on_devices_def on_dedup_def on_limiter_def io_call_def io_bind_def io_then_def
      io_return_def sample_parser_def sample_devices_def sample_dedup_def sample_limiter_def
      sample_message_of_def sample_world_def)


definition duplicate_world where
  "duplicate_world = sample_world\<lparr>w_dedup := [(''dev'', 7, ''m'')]\<rparr>"

lemma duplicate_not_accepted:
  "event_accepted sample_deps (Datagram [7, 1] (Endpoint ''host'' 1)) (sample_session, duplicate_world) = []"
  by (simp add: event_accepted_def Let_def sample_session_def session_start_def doReceive_def new_session_def
      accepted_def parseAndValidate_def validate_def check_duplicate_def on_parser_def on_devices_def
      on_dedup_def io_call_def io_bind_def sample_parser_def sample_devices_def sample_dedup_def
      sample_message_of_def duplicate_world_def sample_world_def)

theorem unaccepted_unanswered_witness:
  "w_sent (snd (snd (session_step sample_deps (gateway_handler sample_deps)
     (Datagram [7, 1] (Endpoint ''host'' 1)) (sample_session, duplicate_world)))) = []"
proof -
  obtain r s w' where run: "session_step sample_deps (gateway_handler sample_deps)
     (Datagram [7, 1] (Endpoint ''host'' 1)) (sample_session, duplicate_world) = (r, s, w')"
    by (metis prod_cases3)
  from unaccepted_unanswered [OF this duplicate_not_accepted] run show ?thesis
    by (simp add: duplicate_world_def sample_world_def)
qed

end
