(* ===== verification/Gateway_Main.thy ===== *)
theory Gateway_Main
  imports Gateway Cpp_Strings
begin

text \<open>
  \<open>udp-gateway/src/main.cpp\<close>: the server program. It reads its options, builds a gateway with the
  default components, starts it, prints statistics every ten seconds until a signal arrives, and
  stops it. The option parser is a library: its result, an error text or the values of the options,
  is an argument, as are the answers of the operating system and what happens in each second.
\<close>

section \<open>Options\<close>

record options =
  op_help :: bool
  op_address :: string
  op_port :: u16
  op_ipv6 :: bool
  op_region :: string
  op_threads :: nat
  op_debug :: bool
  op_ack :: bool
  op_rate :: fp
  op_burst :: u64
  op_queuePrefix :: string
  op_metrics :: bool
  op_metricsInterval :: u32

text \<open>The values without any option on the command line.\<close>

definition default_options :: options where
  "default_options =
     \<lparr>op_help = False, op_address = ''0.0.0.0'', op_port = 8125, op_ipv6 = False, op_region = ''na'',
      op_threads = 0, op_debug = False, op_ack = True, op_rate = Fin 10, op_burst = 20,
      op_queuePrefix = [], op_metrics = True, op_metricsInterval = 10\<rparr>"

definition main_config :: "options \<Rightarrow> gateway_config" where
  "main_config op = default_gateway_config
     \<lparr>gc_listenAddress := op_address op, gc_listenPort := op_port op, gc_enableIPv6 := op_ipv6 op,
      gc_regionCode := op_region op, gc_numWorkerThreads := op_threads op,
      gc_enableDebugging := op_debug op, gc_enableAcknowledgments := op_ack op,
      gc_defaultMessagesPerSecond := op_rate op, gc_defaultBurstSize := op_burst op,
      gc_queuePrefix := op_queuePrefix op, gc_enableMetrics := op_metrics op,
      gc_metricsInterval := uint (op_metricsInterval op)\<rparr>"

lemma default_options_config: "main_config default_options = default_gateway_config"
  by (simp add: main_config_def default_options_def default_gateway_config_def)

section \<open>What the program prints\<close>

datatype output_line = Usage | Cout string | Cerr string

datatype ending = Exit int | Terminated | Serving

definition starting_line :: "gateway_config \<Rightarrow> output_line" where
  "starting_line cfg = Cout (''Starting UDP Gateway on '' @ gc_listenAddress cfg @ '':'' @
     dec_string (unat (gc_listenPort cfg)) @ '' (Region: '' @ gc_regionCode cfg @ '')'')"

definition started_line :: "gateway_config \<Rightarrow> output_line" where
  "started_line cfg = Cout (''Gateway started successfully with '' @
     dec_string (gc_numWorkerThreads cfg) @ '' worker threads'')"

definition failed_line :: "error_code \<Rightarrow> string \<Rightarrow> output_line" where
  "failed_line code msg =
     Cerr (''Failed to start gateway: '' @ errorCodeToString code @ '' - '' @ msg)"

definition signal_line :: "nat \<Rightarrow> output_line" where
  "signal_line k = Cout (''Received signal '' @ dec_string k @ '', shutting down...'')"

definition statistics_line :: "gateway_metrics \<Rightarrow> output_line" where
  "statistics_line m = Cout (''Active connections: '' @ dec_string (unat (gm_active m)) @
     '', Processed packets: '' @ dec_string (unat (gm_processed m)) @
     '', Rejected packets: '' @ dec_string (unat (gm_rejected m)))"

fun is_statistics :: "output_line \<Rightarrow> bool" where
  "is_statistics (Cout l) = (take 20 l = ''Active connections: '')"
| "is_statistics _ = False"

section \<open>The worker threads\<close>

text \<open>
  What a thread inside \<open>ioContext_.run()\<close> may be handed: the expiry of the metrics timer, and input
  for a session. The first happens only while a wait is pending, the second only to a session of
  the gateway.
\<close>

datatype io_event = Timer_Expired udp_env | Session_Input endpoint session_event

definition session_input where
  "session_input d ep ev = read_gateway (\<lambda>g.
     case map_of (gw_sessions g) ep of
       None \<Rightarrow> io_return ()
     | Some s \<Rightarrow> (\<lambda>w. case session_step d (gateway_handler d) ev (s, w) of
         (r, s', w') \<Rightarrow> (r, w'\<lparr>gw_state := (gw_state w')
            \<lparr>gw_sessions := al_set ep s' (gw_sessions (gw_state w'))\<rparr>\<rparr>)))"

definition timer_expired where
  "timer_expired env d = read_gateway (\<lambda>g.
     if gw_timer g \<noteq> Some True then io_return ()
     else io_then (modify_gateway (\<lambda>g. g\<lparr>gw_timer := Some False\<rparr>)) (gateway_updateMetrics env d))"

definition io_event_step where
  "io_event_step d ev = (case ev of
     Timer_Expired env \<Rightarrow> timer_expired env d
   | Session_Input ep e \<Rightarrow> session_input d ep e)"

section \<open>The main loop\<close>

text \<open>
  One second holds the events handed to worker threads and the signals that arrive. \<open>n\<close> threads are
  still inside \<open>run()\<close>: an exception that leaves a completion handler ends its thread, a null
  pointer ends the program. \<open>going\<close> is \<open>g_running\<close>.
\<close>

datatype happening = Io io_event | Signal nat

definition printed :: "output_line list \<Rightarrow> output_line list \<times> 'r \<Rightarrow> output_line list \<times> 'r" where
  "printed ls x = (ls @ fst x, snd x)"

fun one_second where
  "one_second d [] (n, going, w) = ([], Some (n, going, w))"
| "one_second d (Signal k # hs) (n, going, w) =
     printed [signal_line k] (one_second d hs (n, False, w))"
| "one_second d (Io ev # hs) (n, going, w) =
     (if n = 0 then one_second d hs (n, going, w)
      else case io_event_step d ev w of
        (Inr u, w') \<Rightarrow> one_second d hs (n, going, w')
      | (Inl (Std_Exception e), w') \<Rightarrow>
          printed [Cerr (''Worker thread exception: '' @ e)] (one_second d hs (n - 1 :: nat, going, w'))
      | (Inl Null_Deref, w') \<Rightarrow> ([], None))"

text \<open>
  The loop of the main thread over the seconds that pass; \<open>k\<close> is the static counter. When the given
  seconds are used up and no signal has come, the program is still serving.
\<close>

fun main_loop where
  "main_loop d (k :: nat) secs (n, False, w) = ([], Inr w)"
| "main_loop d k [] (n, True, w) = ([], Inl Serving)"
| "main_loop d k (hs # secs) (n, True, w) =
     (case one_second d hs (n, True, w) of
        (out, None) \<Rightarrow> (out, Inl Terminated)
      | (out, Some (n', going, w')) \<Rightarrow>
          printed (out @ (if (k + 1) mod 10 = 0 then [statistics_line (getMetrics w')] else []))
            (main_loop d (k + 1) secs (n', going, w')))"

section \<open>The program\<close>

definition main_deps ::
    "(unit, unit, unit, unit, rate_limiter \<times> (nat \<Rightarrow> ticks), unit) deps" where
  "main_deps = default_deps"

definition main_world ::
    "ticks \<Rightarrow> nat \<Rightarrow> (nat \<Rightarrow> ticks) \<Rightarrow> gateway_config \<Rightarrow>
     (unit, unit, unit, unit, rate_limiter \<times> (nat \<Rightarrow> ticks), unit) gw_world" where
  "main_world now hw clock cfg =
     \<lparr>w_parser = (), w_dedup = (), w_publisher = (), w_devices = (),
      w_limiter = (createDefaultRateLimiter, clock), w_collector = (), w_sent = [],
      gw_state = new_gateway_default now hw cfg\<rparr>"

text \<open>Leaving the block destroys the gateway; a joinable thread then terminates the program.\<close>

definition leave_main where
  "leave_main env w e = (if gateway_destroy env w then e else Terminated)"

text \<open>From the loop on: \<open>early\<close> are the signals that have arrived before it begins.\<close>

definition main_serve where
  "main_serve env_stop env_end early secs d n w =
     (case printed (map signal_line early) (main_loop d 0 secs (n, early = [], w)) of
        (out, Inl e) \<Rightarrow> (out, e)
      | (out, Inr w1) \<Rightarrow>
          printed (out @ [Cout ''Stopping the gateway...''])
            (case gateway_stop env_stop w1 of
               (Inr u, w2) \<Rightarrow> ([Cout ''Gateway stopped''], leave_main env_end w2 (Exit 0))
             | (Inl (Std_Exception e), w2) \<Rightarrow> ([Cerr (''Error: '' @ e)], leave_main env_end w2 (Exit 1))
             | (Inl Null_Deref, w2) \<Rightarrow> ([], Terminated)))"

record main_env =
  me_now :: ticks
  me_hardware :: nat
  me_clock :: "nat \<Rightarrow> ticks"
  me_start :: udp_env
  me_early :: "nat list"
  me_seconds :: "happening list list"
  me_stop :: udp_env
  me_end :: udp_env

definition main_gateway :: "main_env \<Rightarrow> gateway_config \<Rightarrow> output_line list \<times> ending" where
  "main_gateway env cfg =
     (let w = main_world (me_now env) (me_hardware env) (me_clock env) cfg
      in printed [starting_line cfg]
        (case gateway_start (me_start env) main_deps w of
           (Inr (Ok_Result u), w1) \<Rightarrow>
             printed [started_line cfg]
               (main_serve (me_stop env) (me_end env) (me_early env) (me_seconds env) main_deps
                  (gw_workers (gw_state w1)) w1)
         | (Inr (Error_Result code msg), w1) \<Rightarrow>
             ([failed_line code msg], leave_main (me_end env) w1 (Exit 1))
         | (Inl (Std_Exception e), w1) \<Rightarrow>
             ([Cerr (''Error: '' @ e)], leave_main (me_end env) w1 (Exit 1))
         | (Inl Null_Deref, w1) \<Rightarrow> ([], Terminated)))"

definition main_program :: "string + options \<Rightarrow> main_env \<Rightarrow> output_line list \<times> ending" where
  "main_program parsed env =
     (case parsed of
        Inl e \<Rightarrow> ([Cerr (''Error: '' @ e)], Exit 1)
      | Inr op \<Rightarrow> if op_help op then ([Usage], Exit 0) else main_gateway env (main_config op))"

section \<open>Only the loop prints statistics\<close>

definition zero_line :: output_line where
  "zero_line = Cout ''Active connections: 0, Processed packets: 0, Rejected packets: 0''"

abbreviation all_zero :: "output_line list \<Rightarrow> bool" where
  "all_zero ls \<equiv> set (filter is_statistics ls) \<subseteq> {zero_line}"

lemma printed_sel [simp]: "fst (printed ls x) = ls @ fst x" "snd (printed ls x) = snd x"
  by (simp_all add: printed_def)

lemma lines_no_statistics [simp]:
  "\<not> is_statistics (starting_line cfg)" "\<not> is_statistics (started_line cfg)"
  "\<not> is_statistics (failed_line c m)" "\<not> is_statistics (signal_line k)"
  by (simp_all add: starting_line_def started_line_def failed_line_def signal_line_def)

lemma dec_string_0 [simp]: "dec_string 0 = ''0''"
  by code_simp

lemma statistics_empty [simp]: "statistics_line (empty_metrics now) = zero_line"
  by (simp add: statistics_line_def zero_line_def empty_metrics_def)

lemma asleep_event: "asleep m w \<Longrightarrow> io_event_step d ev w = (Inr (), w)"
  by (cases ev) (simp_all add: io_event_step_def timer_expired_def session_input_def
      read_gateway_def asleep_def)

lemma asleep_second:
  assumes "asleep m w"
  obtains out going' where "one_second d hs (n, going, w) = (out, Some (n, going', w))"
    "filter is_statistics out = []"
  using assms
proof (induction hs arbitrary: going thesis)
  case (Cons h hs)
  show ?case
  proof (cases h)
    case (Io ev)
    obtain out going' where "one_second d hs (n, going, w) = (out, Some (n, going', w))"
      "filter is_statistics out = []" by (rule Cons.IH [OF _ Cons.prems(2)])
    with Io asleep_event [OF Cons.prems(2), of d ev] show ?thesis
      by (intro Cons.prems(1) [of out going']) (cases "n = 0"; simp)+
  next
    case (Signal k)
    obtain out going' where "one_second d hs (n, False, w) = (out, Some (n, going', w))"
      "filter is_statistics out = []" by (rule Cons.IH [OF _ Cons.prems(2)])
    with Signal show ?thesis by (intro Cons.prems(1) [of "signal_line k # out" going']) (simp_all add: printed_def)
  qed
qed simp

lemma asleep_loop:
  assumes "asleep (empty_metrics now) w"
  shows "all_zero (fst (main_loop d k secs (n, going, w)))"
  using assms
proof (induction secs arbitrary: k going)
  case Nil
  then show ?case by (cases going) simp_all
next
  case (Cons hs secs)
  show ?case
  proof (cases going)
    case True
    obtain out going' where s: "one_second d hs (n, True, w) = (out, Some (n, going', w))"
      "filter is_statistics out = []" by (rule asleep_second [OF Cons.prems])
    from Cons.prems have "getMetrics w = empty_metrics now" by (simp add: getMetrics_def asleep_def)
    with s True Cons.IH [OF Cons.prems] show ?thesis by auto
  qed simp
qed

lemma asleep_serve:
  assumes "asleep (empty_metrics now) w"
  shows "all_zero (fst (main_serve es ee early secs d n w))"
proof -
  obtain out r where m: "printed (map signal_line early) (main_loop d 0 secs (n, early = [], w)) = (out, r)"
    by fastforce
  from asleep_loop [OF assms, of d 0 secs n "early = []"] arg_cong [OF m, of fst]
  have "all_zero out" by (auto simp: filter_empty_conv)
  with m show ?thesis
    by (cases r) (auto simp: main_serve_def split: prod.splits sum.splits exc.splits)
qed

lemma main_world_asleep: "asleep (empty_metrics now) (main_world now hw clock cfg)"
  by (simp add: asleep_def main_world_def new_gateway_default_def new_gateway_def)

lemma started_asleep:
  fixes env :: udp_env
  assumes "asleep m w" "gateway_start env d w = (r, w')"
  shows "asleep m w'"
  using life_step_asleep [OF assms(1), of d "Call_Start env"] assms(2) by (simp add: life_step_def)

text \<open>
  C40. For all options, all answers of the operating system and everything that happens while the
  program runs, the statistics that the server program prints are zero in every column.
\<close>

theorem main_reports_nothing:
  "set (filter is_statistics (fst (main_program parsed env))) \<subseteq> {zero_line}"
proof (cases parsed)
  case (Inr op)
  define cfg where "cfg = main_config op"
  obtain r w1 where st: "gateway_start (me_start env) main_deps
      (main_world (me_now env) (me_hardware env) (me_clock env) cfg) = (r, w1)" by fastforce
  have a: "asleep (empty_metrics (me_now env)) w1" by (rule started_asleep [OF main_world_asleep st])
  have "all_zero (fst (main_gateway env cfg))"
  proof (cases r)
    case (Inl e)
    with st show ?thesis by (cases e) (simp_all add: main_gateway_def)
  next
    case (Inr v)
    with st asleep_serve [OF a] show ?thesis by (cases v) (simp_all add: main_gateway_def)
  qed
  with Inr show ?thesis by (cases "op_help op") (simp_all add: main_program_def cfg_def)
qed (simp add: main_program_def)

section \<open>How the program ends\<close>

text \<open>
  A start that fails after some threads were created leaves them in the gateway; the destructor
  finds the gateway not running, joins none of them, and the program is terminated instead of
  ending with exit code 1.
\<close>

lemma threads_left_terminate:
  assumes "\<not> gw_running (gw_state w)" "gw_workers (gw_state w) \<noteq> 0"
  shows "leave_main env w e = Terminated"
  using assms by (simp add: leave_main_def gateway_destroy_def gateway_stop_def read_gateway_def)

lemma start_threads_partial:
  assumes "start_threads env i n w = (Inl e, w')" "0 < n" "ue_thread env i = None"
  shows "gw_workers (gw_state w) < gw_workers (gw_state w')"
proof -
  have mono: "start_threads env i n w = (r, w') \<Longrightarrow> gw_workers (gw_state w) \<le> gw_workers (gw_state w')"
    for i n r w
  proof (induction n arbitrary: i w)
    case (Suc n)
    show ?case
    proof (cases "ue_thread env i")
      case None
      let ?w = "w\<lparr>gw_state := (gw_state w)\<lparr>gw_workers := gw_workers (gw_state w) + 1\<rparr>\<rparr>"
      from Suc.prems None have "start_threads env (Suc i) n ?w = (r, w')"
        by (simp add: os_step_def modify_gateway_def)
      from Suc.IH [OF this] show ?thesis by simp
    qed (use Suc.prems in \<open>simp add: os_step_def\<close>)
  qed simp
  from assms(2) obtain k where n: "n = Suc k" by (cases n) auto
  let ?w = "w\<lparr>gw_state := (gw_state w)\<lparr>gw_workers := gw_workers (gw_state w) + 1\<rparr>\<rparr>"
  from assms n have "start_threads env (Suc i) k ?w = (Inl e, w')"
    by (simp add: os_step_def modify_gateway_def)
  from mono [OF this] show ?thesis by simp
qed

text \<open>The number of threads printed is the option, not the number started for \<open>0\<close>.\<close>

lemma default_announces_no_threads:
  "started_line (main_config default_options) = Cout ''Gateway started successfully with 0 worker threads''"
  by (simp add: default_options_config started_line_def default_gateway_config_def)

end
