(* ===== verification/Ordered_Map.thy ===== *)
theory Ordered_Map
  imports Gw_Prelude "HOL-Library.Char_ord" "HOL-Library.List_Lexorder"
begin

text \<open>
  \<open>std::map\<close>: an association list in strictly increasing key order, which is the order the
  container iterates in. Strings are compared by their bytes. Two well-formed lists with the
  same entries are equal, so equality of the lists is equality of the maps.
\<close>

fun om_set :: "'k::linorder \<Rightarrow> 'v \<Rightarrow> ('k \<times> 'v) list \<Rightarrow> ('k \<times> 'v) list" where
  "om_set k v [] = [(k, v)]"
| "om_set k v ((k', v') # xs) =
     (if k < k' then (k, v) # (k', v') # xs
      else if k = k' then (k, v) # xs
      else (k', v') # om_set k v xs)"

definition om_wf :: "('k::linorder \<times> 'v) list \<Rightarrow> bool" where
  "om_wf xs \<longleftrightarrow> sorted_wrt (<) (map fst xs)"

text \<open>\<open>for (const auto& [k, v] : ys) xs[k] = v\<close>\<close>

definition om_merge :: "('k::linorder \<times> 'v) list \<Rightarrow> ('k \<times> 'v) list \<Rightarrow> ('k \<times> 'v) list" where
  "om_merge ys xs = foldl (\<lambda>m (k, v). om_set k v m) xs ys"

lemma om_wf_simps [simp]:
  "om_wf []"
  "om_wf ((k, v) # xs) \<longleftrightarrow> (\<forall>k' \<in> fst ` set xs. k < k') \<and> om_wf xs"
  by (simp_all add: om_wf_def)

lemma om_wf_distinct: "om_wf xs \<Longrightarrow> distinct (map fst xs)"
  by (simp add: om_wf_def strict_sorted_iff)

lemma map_of_om_set [simp]: "om_wf xs \<Longrightarrow> map_of (om_set k v xs) = (map_of xs)(k \<mapsto> v)"
proof (induction k v xs rule: om_set.induct)
  case (2 k v k' v' xs)
  then have "map_of xs k' = None" by (force simp: map_of_eq_None_iff)
  with 2 show ?case by (auto simp: fun_eq_iff)
qed simp

lemma fst_set_om_set [simp]: "fst ` set (om_set k v xs) = insert k (fst ` set xs)"
  by (induction k v xs rule: om_set.induct) auto

lemma om_wf_set [simp, intro]: "om_wf xs \<Longrightarrow> om_wf (om_set k v xs)"
  by (induction k v xs rule: om_set.induct) auto

lemma om_wf_filter: "om_wf xs \<Longrightarrow> om_wf (filter P xs)"
  by (induction xs) auto

lemma om_wf_del [simp, intro]: "om_wf xs \<Longrightarrow> om_wf (al_del k xs)"
  by (simp add: al_del_def om_wf_filter)

lemma om_wf_merge [simp, intro]: "om_wf xs \<Longrightarrow> om_wf (om_merge ys xs)"
  unfolding om_merge_def by (induction ys arbitrary: xs) auto

lemma map_of_om_merge:
  "om_wf xs \<Longrightarrow> map_of (om_merge ys xs) = map_of xs ++ map_of (rev ys)"
  unfolding om_merge_def
  by (induction ys arbitrary: xs) (auto simp: map_add_def fun_eq_iff split: option.split)

lemma entries_by_keys:
  assumes "distinct (map fst xs)"
  shows "map (\<lambda>k. (k, the (map_of xs k))) (map fst xs) = xs"
proof -
  have "map (\<lambda>e. (fst e, the (map_of xs (fst e)))) xs = xs"
    using assms by (intro map_idI) (force simp: map_of_is_SomeI)
  then show ?thesis by (simp add: o_def)
qed

lemma om_ext:
  assumes "om_wf xs" "om_wf ys" "map_of xs = map_of ys"
  shows "xs = ys"
proof -
  have "set (map fst xs) = set (map fst ys)"
    using dom_map_of_conv_image_fst [of xs] dom_map_of_conv_image_fst [of ys] assms(3) by simp
  then have "map fst xs = map fst ys"
    using assms(1,2) unfolding om_wf_def by (intro strict_sorted_equal)
  then show ?thesis
    using entries_by_keys [OF om_wf_distinct [OF assms(1)]]
      entries_by_keys [OF om_wf_distinct [OF assms(2)]] assms(3) by metis
qed

lemma om_set_absorb: "om_wf xs \<Longrightarrow> map_of xs k = Some v \<Longrightarrow> om_set k v xs = xs"
  by (rule om_ext) (auto simp: fun_eq_iff)

lemma om_set_twice [simp]: "om_wf xs \<Longrightarrow> om_set k v (om_set k w xs) = om_set k v xs"
  by (rule om_ext) auto

lemma om_set_commute:
  "om_wf xs \<Longrightarrow> k \<noteq> l \<Longrightarrow> om_set k v (om_set l w xs) = om_set l w (om_set k v xs)"
  by (rule om_ext) (auto simp: fun_upd_twist)

lemma al_del_om_set: "om_wf xs \<Longrightarrow> al_del k (om_set l v xs) =
    (if k = l then al_del k xs else om_set l v (al_del k xs))"
  by (rule om_ext) (auto simp: fun_upd_twist)

lemma map_of_rev_distinct: "distinct (map fst xs) \<Longrightarrow> map_of (rev xs) = map_of xs"
  by (rule map_of_eqI) (auto simp: map_of_eq_Some_iff distinct_rev rev_map [symmetric])

lemma om_merge_self: "om_wf xs \<Longrightarrow> om_merge xs [] = xs"
proof (rule om_ext)
  assume wf: "om_wf xs"
  then show "map_of (om_merge xs []) = map_of xs"
    using om_wf_distinct [OF wf] by (simp add: map_of_om_merge map_of_rev_distinct)
qed auto

end
