(* ===== verification/Rabbit_Types.thy ===== *)
theory Rabbit_Types
  imports Ordered_Map Cpp_Strings
begin

text \<open>
  \<open>rabbitmq_integration/types.hpp\<close> and \<open>types.cpp\<close>: states, error types and their names, the
  meaning given to the status codes of the AMQP library, the configurations with their
  defaults, the statistics and their copy operations, the properties of a message, and the
  conversion between string maps and AMQP tables.
\<close>

section \<open>Enumerations and their names\<close>

datatype connection_state =
    CS_Disconnected | CS_Connecting | CS_Connected | CS_Disconnecting | CS_Reconnecting | CS_Error

text \<open>\<open>Failed = Error\<close> in the source: one enumerator under two names.\<close>

abbreviation CS_Failed :: connection_state where "CS_Failed \<equiv> CS_Error"

datatype channel_state = CH_Closed | CH_Opening | CH_Open | CH_Closing | CH_Failed

datatype error_type =
    ET_None | ConnectionError | ChannelError | AuthenticationError | NetworkError | ProtocolError
  | TimeoutError | ResourceError

datatype exchange_type = Direct | Topic | Fanout | Headers

fun exchangeTypeToString :: "exchange_type \<Rightarrow> string" where
  "exchangeTypeToString Direct = ''direct''"
| "exchangeTypeToString Fanout = ''fanout''"
| "exchangeTypeToString Topic = ''topic''"
| "exchangeTypeToString Headers = ''headers''"

definition stringToExchangeType :: "string \<Rightarrow> exchange_type" where
  "stringToExchangeType s =
     (if s = ''direct'' then Direct
      else if s = ''fanout'' then Fanout
      else if s = ''topic'' then Topic
      else if s = ''headers'' then Headers
      else Direct)"

fun connectionStateToString :: "connection_state \<Rightarrow> string" where
  "connectionStateToString CS_Disconnected = ''Disconnected''"
| "connectionStateToString CS_Connecting = ''Connecting''"
| "connectionStateToString CS_Connected = ''Connected''"
| "connectionStateToString CS_Disconnecting = ''Disconnecting''"
| "connectionStateToString CS_Error = ''Failed''"
| "connectionStateToString CS_Reconnecting = ''Unknown''"

fun channelStateToString :: "channel_state \<Rightarrow> string" where
  "channelStateToString CH_Closed = ''Closed''"
| "channelStateToString CH_Opening = ''Opening''"
| "channelStateToString CH_Open = ''Open''"
| "channelStateToString CH_Closing = ''Closing''"
| "channelStateToString CH_Failed = ''Failed''"

fun errorTypeToString :: "error_type \<Rightarrow> string" where
  "errorTypeToString ET_None = ''None''"
| "errorTypeToString ConnectionError = ''ConnectionError''"
| "errorTypeToString ChannelError = ''ChannelError''"
| "errorTypeToString AuthenticationError = ''AuthenticationError''"
| "errorTypeToString NetworkError = ''NetworkError''"
| "errorTypeToString ProtocolError = ''ProtocolError''"
| "errorTypeToString TimeoutError = ''TimeoutError''"
| "errorTypeToString ResourceError = ''ResourceError''"

lemma exchange_type_roundtrip: "stringToExchangeType (exchangeTypeToString t) = t"
  by (cases t) (simp_all add: stringToExchangeType_def)

lemma connection_state_names: "connectionStateToString s = connectionStateToString s' \<longleftrightarrow> s = s'"
  by (cases s; cases s'; simp)

lemma channel_state_names: "channelStateToString c = channelStateToString c' \<longleftrightarrow> c = c'"
  by (cases c; cases c'; simp)

lemma error_type_names: "errorTypeToString e = errorTypeToString e' \<longleftrightarrow> e = e'"
  by (cases e; cases e'; simp)

section \<open>Status codes of the AMQP library\<close>

text \<open>
  The library names its status codes; their numbers are the parameter \<open>code\<close>. A C++ switch over
  them compiles only when they are distinct.
\<close>

datatype amqp_status =
    STATUS_OK | NO_MEMORY | BAD_AMQP_DATA | UNKNOWN_CLASS | UNKNOWN_METHOD
  | HOSTNAME_RESOLUTION_FAILED | INCOMPATIBLE_AMQP_VERSION | CONNECTION_CLOSED | BAD_URL
  | SOCKET_ERROR | INVALID_PARAMETER | TABLE_TOO_BIG | WRONG_METHOD | STATUS_TIMEOUT | TIMER_FAILURE
  | HEARTBEAT_TIMEOUT | UNEXPECTED_STATE | SOCKET_CLOSED | SOCKET_INUSE
  | BROKER_UNSUPPORTED_SASL_METHOD | UNSUPPORTED

definition amqp_error_cases :: "(amqp_status \<times> string) list" where
  "amqp_error_cases =
     [(STATUS_OK, ''OK''), (NO_MEMORY, ''No memory''), (BAD_AMQP_DATA, ''Bad AMQP data''),
      (UNKNOWN_CLASS, ''Unknown class''), (UNKNOWN_METHOD, ''Unknown method''),
      (HOSTNAME_RESOLUTION_FAILED, ''Hostname resolution failed''),
      (INCOMPATIBLE_AMQP_VERSION, ''Incompatible AMQP version''),
      (CONNECTION_CLOSED, ''Connection closed''), (BAD_URL, ''Bad URL''),
      (SOCKET_ERROR, ''Socket error''), (INVALID_PARAMETER, ''Invalid parameter''),
      (TABLE_TOO_BIG, ''Table too big''), (WRONG_METHOD, ''Wrong method''),
      (STATUS_TIMEOUT, ''Timeout''), (TIMER_FAILURE, ''Timer failure''),
      (HEARTBEAT_TIMEOUT, ''Heartbeat timeout''), (UNEXPECTED_STATE, ''Unexpected state''),
      (SOCKET_CLOSED, ''Socket closed''), (SOCKET_INUSE, ''Socket in use''),
      (BROKER_UNSUPPORTED_SASL_METHOD, ''Broker unsupported SASL method''),
      (UNSUPPORTED, ''Unsupported'')]"

definition amqpErrorToString :: "(amqp_status \<Rightarrow> int) \<Rightarrow> int \<Rightarrow> string" where
  "amqpErrorToString code e = (case find (\<lambda>(s, _). code s = e) amqp_error_cases of
     Some (_, text) \<Rightarrow> text
   | None \<Rightarrow> ''Unknown error ('' @ int_string e @ '')'')"

fun status_error_type :: "amqp_status \<Rightarrow> error_type" where
  "status_error_type STATUS_OK = ET_None"
| "status_error_type NO_MEMORY = ResourceError"
| "status_error_type TABLE_TOO_BIG = ResourceError"
| "status_error_type BAD_AMQP_DATA = ProtocolError"
| "status_error_type UNKNOWN_CLASS = ProtocolError"
| "status_error_type UNKNOWN_METHOD = ProtocolError"
| "status_error_type INCOMPATIBLE_AMQP_VERSION = ProtocolError"
| "status_error_type WRONG_METHOD = ProtocolError"
| "status_error_type UNEXPECTED_STATE = ProtocolError"
| "status_error_type HOSTNAME_RESOLUTION_FAILED = NetworkError"
| "status_error_type SOCKET_ERROR = NetworkError"
| "status_error_type SOCKET_CLOSED = NetworkError"
| "status_error_type SOCKET_INUSE = NetworkError"
| "status_error_type CONNECTION_CLOSED = ConnectionError"
| "status_error_type STATUS_TIMEOUT = TimeoutError"
| "status_error_type HEARTBEAT_TIMEOUT = TimeoutError"
| "status_error_type TIMER_FAILURE = TimeoutError"
| "status_error_type BROKER_UNSUPPORTED_SASL_METHOD = AuthenticationError"
| "status_error_type BAD_URL = ProtocolError"
| "status_error_type INVALID_PARAMETER = ProtocolError"
| "status_error_type UNSUPPORTED = ProtocolError"

definition amqpErrorToErrorType :: "(amqp_status \<Rightarrow> int) \<Rightarrow> int \<Rightarrow> error_type" where
  "amqpErrorToErrorType code e = (case find (\<lambda>(s, _). code s = e) amqp_error_cases of
     Some (s, _) \<Rightarrow> status_error_type s
   | None \<Rightarrow> ProtocolError)"

lemma find_status:
  assumes "inj code"
  shows "\<exists>t. find (\<lambda>(s', _). code s' = code s) amqp_error_cases = Some (s, t)"
  using injD [OF assms] by (cases s) (auto simp: amqp_error_cases_def dest!: injD [OF assms])

lemma status_error_type_of_code: "inj code \<Longrightarrow> amqpErrorToErrorType code (code s) = status_error_type s"
  using find_status [of code s] by (auto simp: amqpErrorToErrorType_def)

lemma status_without_case:
  "(\<And>s. code s \<noteq> e) \<Longrightarrow>
    amqpErrorToErrorType code e = ProtocolError \<and>
    amqpErrorToString code e = ''Unknown error ('' @ int_string e @ '')''"
  by (simp add: amqpErrorToErrorType_def amqpErrorToString_def amqp_error_cases_def)

section \<open>Exceptions\<close>

record rabbitmq_exception =
  ex_message :: string
  ex_errorType :: error_type

definition RabbitMQException :: "string \<Rightarrow> error_type \<Rightarrow> rabbitmq_exception" where
  "RabbitMQException m t = \<lparr>ex_message = m, ex_errorType = t\<rparr>"

definition ConnectionException :: "string \<Rightarrow> rabbitmq_exception" where
  "ConnectionException m = RabbitMQException m ConnectionError"

definition ChannelException :: "string \<Rightarrow> rabbitmq_exception" where
  "ChannelException m = RabbitMQException m ChannelError"

definition AuthenticationException :: "string \<Rightarrow> rabbitmq_exception" where
  "AuthenticationException m = RabbitMQException m AuthenticationError"

definition NetworkException :: "string \<Rightarrow> rabbitmq_exception" where
  "NetworkException m = RabbitMQException m NetworkError"

definition TimeoutException :: "string \<Rightarrow> rabbitmq_exception" where
  "TimeoutException m = RabbitMQException m TimeoutError"


text \<open>\<open>what()\<close> returns a C string, so its reader sees the message up to a null character.\<close>

definition ex_what :: "rabbitmq_exception \<Rightarrow> string" where
  "ex_what e = c_string (ex_message e)"

definition getErrorType :: "rabbitmq_exception \<Rightarrow> error_type" where
  "getErrorType e = ex_errorType e"

section \<open>Configurations\<close>

text \<open>
  Durations are counts of the unit of the C++ type: seconds for \<open>heartbeatInterval\<close>, \<open>heartbeat\<close>
  and \<open>confirmTimeout\<close>, milliseconds for the others.
\<close>

record connection_config =
  cc_host :: string
  cc_port :: int
  cc_vhost :: string
  cc_username :: string
  cc_password :: string
  cc_useTLS :: bool
  cc_maxChannels :: u16
  cc_heartbeatTimeout :: u16
  cc_heartbeatInterval :: ticks
  cc_connectionTimeout :: ticks
  cc_retryInterval :: ticks
  cc_maxRetries :: int
  cc_caCertPath :: string
  cc_clientCertPath :: string
  cc_clientKeyPath :: string
  cc_verifyPeer :: bool
  cc_verifyHostname :: bool
  cc_heartbeat :: ticks
  cc_autoReconnect :: bool
  cc_frameMax :: u32
  cc_channelMax :: u32

definition default_connection_config :: connection_config where
  "default_connection_config =
     \<lparr>cc_host = ''localhost'', cc_port = 5672, cc_vhost = ''/'', cc_username = ''guest'',
      cc_password = ''guest'', cc_useTLS = False, cc_maxChannels = 2047, cc_heartbeatTimeout = 60,
      cc_heartbeatInterval = 60, cc_connectionTimeout = 30000, cc_retryInterval = 5000,
      cc_maxRetries = 3, cc_caCertPath = [], cc_clientCertPath = [], cc_clientKeyPath = [],
      cc_verifyPeer = True, cc_verifyHostname = True, cc_heartbeat = 60, cc_autoReconnect = True,
      cc_frameMax = 131072, cc_channelMax = 0\<rparr>"

text \<open>The derived configurations extend the record, as the C++ classes derive from the base.\<close>

record publisher_config = connection_config +
  pc_confirmEnabled :: bool
  pc_persistentMessages :: bool
  pc_useTransactions :: bool
  pc_localQueueSize :: u64
  pc_publishTimeout :: ticks
  pc_batchSize :: int
  pc_enableBatching :: bool
  pc_confirmTimeout :: ticks
  pc_dropOnOverflow :: bool
  pc_batchTimeout :: ticks

text \<open>
  A fresh configuration whose base part is then assigned from another one:
  \<open>PublisherConfig c; static_cast<ConnectionConfig&>(c) = base\<close>.
\<close>

definition publisher_config_of :: "connection_config \<Rightarrow> publisher_config" where
  "publisher_config_of base = connection_config.extend base
     \<lparr>pc_confirmEnabled = True, pc_persistentMessages = True, pc_useTransactions = False,
      pc_localQueueSize = 10000, pc_publishTimeout = 30000, pc_batchSize = 100,
      pc_enableBatching = False, pc_confirmTimeout = 30, pc_dropOnOverflow = False,
      pc_batchTimeout = 100\<rparr>"

definition default_publisher_config :: publisher_config where
  "default_publisher_config = publisher_config_of default_connection_config"

record consumer_config = connection_config +
  sc_prefetchCount :: u16
  sc_autoAck :: bool
  sc_exclusive :: bool
  sc_ackTimeout :: ticks
  sc_consumeTimeout :: ticks
  sc_enableRetry :: bool
  sc_maxRetryAttempts :: int
  sc_autoRecover :: bool
  sc_noLocal :: bool
  sc_autoRestart :: bool
  sc_restartDelay :: ticks

definition consumer_config_of :: "connection_config \<Rightarrow> consumer_config" where
  "consumer_config_of base = connection_config.extend base
     \<lparr>sc_prefetchCount = 10, sc_autoAck = False, sc_exclusive = False, sc_ackTimeout = 30000,
      sc_consumeTimeout = 30000, sc_enableRetry = True, sc_maxRetryAttempts = 3,
      sc_autoRecover = False, sc_noLocal = False, sc_autoRestart = True, sc_restartDelay = 1000\<rparr>"

definition default_consumer_config :: consumer_config where
  "default_consumer_config = consumer_config_of default_connection_config"

text \<open>\<open>static_cast<ConnectionConfig&>(c)\<close> read back.\<close>

definition base_config :: "('a connection_config_scheme) \<Rightarrow> connection_config" where
  "base_config c = connection_config.truncate c"

lemma base_config_of [simp]:
  "base_config (publisher_config_of c) = c" "base_config (consumer_config_of c) = c"
  by (simp_all add: base_config_def publisher_config_of_def consumer_config_of_def
      connection_config.defs)

section \<open>Statistics\<close>

record connection_stats =
  cs_messagesReceived :: u64
  cs_messagesSent :: u64
  cs_bytesReceived :: u64
  cs_bytesSent :: u64
  cs_connectAttempts :: u64
  cs_reconnectAttempts :: u64
  cs_channelsCreated :: u64
  cs_channelsClosed :: u64
  cs_channelCount :: u64
  cs_connectionStarted :: ticks
  cs_lastActivity :: ticks
  cs_connectedAt :: ticks
  cs_connectionId :: string
  cs_state :: connection_state
  cs_successfulConnects :: u64
  cs_failedConnects :: u64
  cs_disconnects :: u64
  cs_reconnects :: u64

definition new_connection_stats :: connection_stats where
  "new_connection_stats =
     \<lparr>cs_messagesReceived = 0, cs_messagesSent = 0, cs_bytesReceived = 0, cs_bytesSent = 0,
      cs_connectAttempts = 0, cs_reconnectAttempts = 0, cs_channelsCreated = 0,
      cs_channelsClosed = 0, cs_channelCount = 0, cs_connectionStarted = 0, cs_lastActivity = 0,
      cs_connectedAt = 0, cs_connectionId = [], cs_state = CS_Disconnected,
      cs_successfulConnects = 0, cs_failedConnects = 0, cs_disconnects = 0, cs_reconnects = 0\<rparr>"

record publisher_stats =
  ps_messagesPublished :: u64
  ps_publishConfirms :: u64
  ps_publishFailed :: u64
  ps_messagesConfirmed :: u64
  ps_messagesNacked :: u64
  ps_messagesReturned :: u64
  ps_localQueueSize :: u64
  ps_bytesPublished :: u64
  ps_transactionCount :: u64
  ps_transactionRollbacks :: u64
  ps_messagesFailed :: u64
  ps_localQueueMaxSize :: u64
  ps_maxPublishTime :: ticks
  ps_avgPublishTime :: ticks
  ps_lastPublish :: ticks
  ps_publisherId :: string
  ps_publishRetries :: u64
  ps_messagesDropped :: u64

definition new_publisher_stats :: publisher_stats where
  "new_publisher_stats =
     \<lparr>ps_messagesPublished = 0, ps_publishConfirms = 0, ps_publishFailed = 0,
      ps_messagesConfirmed = 0, ps_messagesNacked = 0, ps_messagesReturned = 0,
      ps_localQueueSize = 0, ps_bytesPublished = 0, ps_transactionCount = 0,
      ps_transactionRollbacks = 0, ps_messagesFailed = 0, ps_localQueueMaxSize = 0,
      ps_maxPublishTime = 0, ps_avgPublishTime = 0, ps_lastPublish = 0, ps_publisherId = [],
      ps_publishRetries = 0, ps_messagesDropped = 0\<rparr>"

record consumer_stats =
  ns_messagesReceived :: u64
  ns_messagesAcknowledged :: u64
  ns_messagesRejected :: u64
  ns_messagesRequeued :: u64
  ns_messagesUnacked :: u64
  ns_reconnectAttempts :: u64
  ns_bytesReceived :: u64
  ns_maxProcessingTime :: ticks
  ns_avgProcessingTime :: ticks
  ns_lastMessage :: ticks
  ns_consumerStarted :: ticks
  ns_consumerId :: string
  ns_consumerCancellations :: u64
  ns_processingErrors :: u64

definition new_consumer_stats :: consumer_stats where
  "new_consumer_stats =
     \<lparr>ns_messagesReceived = 0, ns_messagesAcknowledged = 0, ns_messagesRejected = 0,
      ns_messagesRequeued = 0, ns_messagesUnacked = 0, ns_reconnectAttempts = 0,
      ns_bytesReceived = 0, ns_maxProcessingTime = 0, ns_avgProcessingTime = 0, ns_lastMessage = 0,
      ns_consumerStarted = 0, ns_consumerId = [], ns_consumerCancellations = 0,
      ns_processingErrors = 0\<rparr>"

text \<open>
  The statistics hold atomics, so their copy operations are written out member by member. Each
  copy is the identity: no member is left out and none is taken from another.
\<close>

definition copy_connection_stats :: "connection_stats \<Rightarrow> connection_stats" where
  "copy_connection_stats other =
     \<lparr>cs_messagesReceived = cs_messagesReceived other, cs_messagesSent = cs_messagesSent other,
      cs_bytesReceived = cs_bytesReceived other, cs_bytesSent = cs_bytesSent other,
      cs_connectAttempts = cs_connectAttempts other,
      cs_reconnectAttempts = cs_reconnectAttempts other,
      cs_channelsCreated = cs_channelsCreated other, cs_channelsClosed = cs_channelsClosed other,
      cs_channelCount = cs_channelCount other, cs_connectionStarted = cs_connectionStarted other,
      cs_lastActivity = cs_lastActivity other, cs_connectedAt = cs_connectedAt other,
      cs_connectionId = cs_connectionId other, cs_state = cs_state other,
      cs_successfulConnects = cs_successfulConnects other,
      cs_failedConnects = cs_failedConnects other, cs_disconnects = cs_disconnects other,
      cs_reconnects = cs_reconnects other\<rparr>"

definition copy_publisher_stats :: "publisher_stats \<Rightarrow> publisher_stats" where
  "copy_publisher_stats other =
     \<lparr>ps_messagesPublished = ps_messagesPublished other,
      ps_publishConfirms = ps_publishConfirms other, ps_publishFailed = ps_publishFailed other,
      ps_messagesConfirmed = ps_messagesConfirmed other,
      ps_messagesNacked = ps_messagesNacked other, ps_messagesReturned = ps_messagesReturned other,
      ps_localQueueSize = ps_localQueueSize other, ps_bytesPublished = ps_bytesPublished other,
      ps_transactionCount = ps_transactionCount other,
      ps_transactionRollbacks = ps_transactionRollbacks other,
      ps_messagesFailed = ps_messagesFailed other,
      ps_localQueueMaxSize = ps_localQueueMaxSize other,
      ps_maxPublishTime = ps_maxPublishTime other, ps_avgPublishTime = ps_avgPublishTime other,
      ps_lastPublish = ps_lastPublish other, ps_publisherId = ps_publisherId other,
      ps_publishRetries = ps_publishRetries other, ps_messagesDropped = ps_messagesDropped other\<rparr>"

definition copy_consumer_stats :: "consumer_stats \<Rightarrow> consumer_stats" where
  "copy_consumer_stats other =
     \<lparr>ns_messagesReceived = ns_messagesReceived other,
      ns_messagesAcknowledged = ns_messagesAcknowledged other,
      ns_messagesRejected = ns_messagesRejected other,
      ns_messagesRequeued = ns_messagesRequeued other, ns_messagesUnacked = ns_messagesUnacked other,
      ns_reconnectAttempts = ns_reconnectAttempts other, ns_bytesReceived = ns_bytesReceived other,
      ns_maxProcessingTime = ns_maxProcessingTime other,
      ns_avgProcessingTime = ns_avgProcessingTime other, ns_lastMessage = ns_lastMessage other,
      ns_consumerStarted = ns_consumerStarted other, ns_consumerId = ns_consumerId other,
      ns_consumerCancellations = ns_consumerCancellations other,
      ns_processingErrors = ns_processingErrors other\<rparr>"

lemma stats_copied:
  "copy_connection_stats c = c" "copy_publisher_stats p = p" "copy_consumer_stats n = n"
  by (simp_all add: copy_connection_stats_def copy_publisher_stats_def copy_consumer_stats_def)

text \<open>
  The maximum and the running average of a duration, updated the same way by publisher and
  consumer: the first non-zero average is the sample itself, then the mean of the last average
  and the sample. Durations are not negative, so \<open>div\<close> is the integer division of C++.
\<close>

definition update_timing :: "ticks \<Rightarrow> ticks \<times> ticks \<Rightarrow> ticks \<times> ticks" where
  "update_timing d t = (case t of (mx, av) \<Rightarrow>
     (if d > mx then d else mx, if av = 0 then d else (av + d) div 2))"

lemma update_timing_bounds:
  assumes "0 \<le> d" "0 \<le> av" "av \<le> mx"
  shows "0 \<le> snd (update_timing d (mx, av))"
    "snd (update_timing d (mx, av)) \<le> fst (update_timing d (mx, av))"
    "d \<le> fst (update_timing d (mx, av))"
  using assms by (auto simp: update_timing_def)

section \<open>Message properties\<close>

text \<open>
  \<open>DeliveryMode\<close> and \<open>Priority\<close> are enumerations over \<open>uint8_t\<close>; a cast can put any byte in
  them, so they are bytes here. Time points count nanoseconds, the tick of the system clock.
\<close>

definition NonPersistent :: u8 where "NonPersistent = 1"
definition Persistent :: u8 where "Persistent = 2"

definition Priority_Low :: u8 where "Priority_Low = 0"
definition Priority_Normal :: u8 where "Priority_Normal = 1"
definition Priority_High :: u8 where "Priority_High = 2"
definition Priority_Urgent :: u8 where "Priority_Urgent = 3"

lemmas enum_bytes = NonPersistent_def Persistent_def Priority_Low_def Priority_Normal_def
  Priority_High_def Priority_Urgent_def

type_synonym headers = "(string \<times> string) list"

record message_properties =
  mp_contentType :: string
  mp_contentEncoding :: string
  mp_messageId :: string
  mp_correlationId :: string
  mp_replyTo :: string
  mp_expiration :: string
  mp_userId :: string
  mp_appId :: string
  mp_type :: string
  mp_deliveryMode :: u8
  mp_priority :: u8
  mp_priorityValue :: u8
  mp_timestamp :: ticks
  mp_headers :: headers

definition new_properties :: message_properties where
  "new_properties =
     \<lparr>mp_contentType = ''application/json'', mp_contentEncoding = [], mp_messageId = [],
      mp_correlationId = [], mp_replyTo = [], mp_expiration = [], mp_userId = [], mp_appId = [],
      mp_type = [], mp_deliveryMode = NonPersistent, mp_priority = Priority_Normal,
      mp_priorityValue = 1, mp_timestamp = 0, mp_headers = []\<rparr>"

section \<open>AMQP tables\<close>

text \<open>A field of an AMQP table with its kind; \<open>AF_OTHER\<close> is a kind the code does not read.\<close>

datatype amqp_field =
    AF_UTF8 string | AF_BYTES string | AF_BOOLEAN bool
  | AF_I8 u8 | AF_U8 u8 | AF_I16 u16 | AF_U16 u16 | AF_I32 u32 | AF_U32 u32 | AF_I64 u64 | AF_U64 u64
  | AF_F32 fp | AF_F64 fp | AF_OTHER

type_synonym amqp_table = "(string \<times> amqp_field) list"

definition stringMapToAmqpTable :: "headers \<Rightarrow> amqp_table" where
  "stringMapToAmqpTable m = map (\<lambda>(k, v). (c_string k, AF_UTF8 (c_string v))) m"

fun amqp_field_string :: "amqp_field \<Rightarrow> string" where
  "amqp_field_string (AF_UTF8 s) = s"
| "amqp_field_string (AF_BYTES s) = s"
| "amqp_field_string (AF_BOOLEAN b) = (if b then ''true'' else ''false'')"
| "amqp_field_string (AF_I8 w) = int_string (sint w)"
| "amqp_field_string (AF_U8 w) = int_string (uint w)"
| "amqp_field_string (AF_I16 w) = int_string (sint w)"
| "amqp_field_string (AF_U16 w) = int_string (uint w)"
| "amqp_field_string (AF_I32 w) = int_string (sint w)"
| "amqp_field_string (AF_U32 w) = int_string (uint w)"
| "amqp_field_string (AF_I64 w) = int_string (sint w)"
| "amqp_field_string (AF_U64 w) = int_string (uint w)"
| "amqp_field_string (AF_F32 x) = fp_string x"
| "amqp_field_string (AF_F64 x) = fp_string x"
| "amqp_field_string AF_OTHER = []"

definition amqpTableToStringMap :: "amqp_table \<Rightarrow> headers" where
  "amqpTableToStringMap t = foldl (\<lambda>m (k, f). om_set k (amqp_field_string f) m) [] t"

text \<open>
  A map survives the way to the wire and back when none of its strings holds a null character;
  the strings of every other map are cut at their first one.
\<close>

lemma amqpTableToStringMap_merge:
  "amqpTableToStringMap t = om_merge (map (\<lambda>(k, f). (k, amqp_field_string f)) t) []"
proof -
  have "foldl (\<lambda>m (k, f). om_set k (amqp_field_string f) m) m t =
      om_merge (map (\<lambda>(k, f). (k, amqp_field_string f)) t) m" for m
    unfolding om_merge_def by (induction t arbitrary: m) auto
  then show ?thesis by (simp add: amqpTableToStringMap_def)
qed

lemma amqp_table_trip:
  "amqpTableToStringMap (stringMapToAmqpTable m) = om_merge (map (\<lambda>(k, v). (c_string k, c_string v)) m) []"
  by (simp add: amqpTableToStringMap_merge stringMapToAmqpTable_def o_def case_prod_unfold)

lemma amqp_table_roundtrip:
  assumes "om_wf m" "\<forall>(k, v) \<in> set m. CHR 0x00 \<notin> set k \<and> CHR 0x00 \<notin> set v"
  shows "amqpTableToStringMap (stringMapToAmqpTable m) = m"
proof -
  have "map (\<lambda>(k, v). (c_string k, c_string v)) m = m"
    using assms(2) by (intro map_idI) auto
  with assms(1) show ?thesis by (simp add: amqp_table_trip om_merge_self)
qed

end
