(* ===== verification/Json_Values.thy ===== *)
theory Json_Values
  imports Ordered_Map Ieee_Float
begin

text \<open>
  The values of the JSON library as the code uses them: objects are ordered maps, numbers are
  integers or doubles. What turns a value into text and back is the library's; it is the
  parameter \<open>json_lib\<close>, whose \<open>jl_dump\<close> is \<open>None\<close> where \<open>dump()\<close> throws (text that is not UTF-8)
  and whose \<open>jl_parse\<close> is \<open>None\<close> where \<open>parse()\<close> throws.
\<close>

datatype json =
    JNull | JBool bool | JInt int | JReal fp | JStr string | JArr "json list"
  | JObj "(string \<times> json) list"

record json_lib =
  jl_dump :: "json \<Rightarrow> string option"
  jl_parse :: "string \<Rightarrow> json option"

text \<open>\<open>Invalid_Number\<close> is thrown by the conversion of a string to a number.\<close>

datatype json_error = Parse_Error | Type_Error | Invalid_Number

text \<open>\<open>json::dump\<close> and \<open>json::parse\<close>\<close>

definition json_dump :: "json_lib \<Rightarrow> json \<Rightarrow> json_error fault + string" where
  "json_dump L j = (case jl_dump L j of None \<Rightarrow> Inl (Thrown Type_Error) | Some s \<Rightarrow> Inr s)"

definition json_parse :: "json_lib \<Rightarrow> string \<Rightarrow> json_error fault + json" where
  "json_parse L s = (case jl_parse L s of None \<Rightarrow> Inl (Thrown Parse_Error) | Some j \<Rightarrow> Inr j)"

text \<open>
  What the library documents of the two: a value that was dumped is parsed back, when its
  doubles are finite and its objects are maps; and no JSON text starts with a letter other than
  those of \<open>true\<close>, \<open>false\<close> and \<open>null\<close>, as in the case that matters here. Nothing is said of which
  values can be dumped: the library throws on a string that is not UTF-8, where \<open>jl_dump\<close> is \<open>None\<close>,
  and every law speaks of dumps that succeed.
\<close>

fun json_plain :: "json \<Rightarrow> bool" where
  "json_plain (JReal x) = (\<exists>r. x = Fin r)"
| "json_plain (JInt n) = (- (2 ^ 63) \<le> n \<and> n < 2 ^ 64)"
| "json_plain (JArr js) = list_all json_plain js"
| "json_plain (JObj kvs) = (om_wf kvs \<and> list_all (\<lambda>(k, v). json_plain v) kvs)"
| "json_plain _ = True"

definition json_laws :: "json_lib \<Rightarrow> bool" where
  "json_laws L \<longleftrightarrow>
     (\<forall>j s. json_plain j \<longrightarrow> jl_dump L j = Some s \<longrightarrow> jl_parse L s = Some j) \<and>
     (\<forall>j s. jl_dump L j = Some s \<longrightarrow> s \<noteq> []) \<and>
     (\<forall>s. jl_parse L (CHR ''M'' # s) = None)"

text \<open>\<open>j[key] = v\<close>, where \<open>j\<close> is null or an object\<close>

fun json_put :: "string \<Rightarrow> json \<Rightarrow> json \<Rightarrow> json" where
  "json_put k v (JObj kvs) = JObj (om_set k v kvs)"
| "json_put k v JNull = JObj [(k, v)]"
| "json_put k v j = j"

text \<open>An object built by assignments to its members, in the order of the source.\<close>

definition json_object :: "(string \<times> json) list \<Rightarrow> json" where
  "json_object kvs = foldl (\<lambda>j (k, v). json_put k v j) JNull kvs"

fun json_contains :: "string \<Rightarrow> json \<Rightarrow> bool" where
  "json_contains k (JObj kvs) = (map_of kvs k \<noteq> None)"
| "json_contains k _ = False"

text \<open>Reading a member: a missing one is null, and only objects and null have members.\<close>

fun json_member :: "string \<Rightarrow> json \<Rightarrow> json_error fault + json" where
  "json_member k (JObj kvs) = (case map_of kvs k of None \<Rightarrow> Inr JNull | Some v \<Rightarrow> Inr v)"
| "json_member k JNull = Inr JNull"
| "json_member k _ = Inl (Thrown Type_Error)"

fun json_string :: "json \<Rightarrow> json_error fault + string" where
  "json_string (JStr s) = Inr s"
| "json_string _ = Inl (Thrown Type_Error)"

text \<open>
  Conversion to a signed integer type of the given width: any number, and true and false.
  Integers wrap; a double that does not fit is an undefined cast.
\<close>

fun json_signed :: "nat \<Rightarrow> json \<Rightarrow> json_error fault + int" where
  "json_signed bits (JInt n) = Inr (signed_take_bit (bits - 1) n)"
| "json_signed bits (JBool b) = Inr (if b then 1 else 0)"
| "json_signed bits (JReal x) = (case x of
     Fin r \<Rightarrow> if - (2 ^ (bits - 1)) \<le> Ieee_Float.truncate r \<and> Ieee_Float.truncate r < 2 ^ (bits - 1)
              then Inr (Ieee_Float.truncate r) else Inl Bad_Cast
   | _ \<Rightarrow> Inl Bad_Cast)"
| "json_signed bits _ = Inl (Thrown Type_Error)"

fun json_strings :: "(string \<times> json) list \<Rightarrow> (string \<times> string) list \<Rightarrow>
    json_error fault + (string \<times> string) list" where
  "json_strings [] m = Inr m"
| "json_strings ((k, v) # kvs) m = and_then (json_string v) (\<lambda>s. json_strings kvs (om_set k s m))"

text \<open>Conversion to \<open>std::map<std::string, std::string>\<close>\<close>

fun json_string_map :: "json \<Rightarrow> json_error fault + (string \<times> string) list" where
  "json_string_map (JObj kvs) = json_strings kvs []"
| "json_string_map _ = Inl (Thrown Type_Error)"

text \<open>\<open>value(key, default)\<close>: the member converted, the default when there is none\<close>

definition json_value ::
    "(json \<Rightarrow> json_error fault + 'a) \<Rightarrow> string \<Rightarrow> 'a \<Rightarrow> json \<Rightarrow> json_error fault + 'a" where
  "json_value conv k d j = (case j of
     JObj kvs \<Rightarrow> (case map_of kvs k of None \<Rightarrow> Inr d | Some v \<Rightarrow> conv v)
   | _ \<Rightarrow> Inl (Thrown Type_Error))"

definition json_of_map :: "(string \<times> string) list \<Rightarrow> json" where
  "json_of_map m = JObj (map (\<lambda>(k, v). (k, JStr v)) m)"

fun json_empty :: "json \<Rightarrow> bool" where
  "json_empty JNull = True"
| "json_empty (JArr js) = (js = [])"
| "json_empty (JObj kvs) = (kvs = [])"
| "json_empty _ = False"

section \<open>Lemmas\<close>

lemma json_dump_simps [simp]:
  "jl_dump L j = Some s \<Longrightarrow> json_dump L j = Inr s"
  "jl_dump L j = None \<Longrightarrow> json_dump L j = Inl (Thrown Type_Error)"
  "jl_parse L s = Some j \<Longrightarrow> json_parse L s = Inr j"
  "jl_parse L s = None \<Longrightarrow> json_parse L s = Inl (Thrown Parse_Error)"
  by (simp_all add: json_dump_def json_parse_def)

lemma json_lawsD:
  assumes "json_laws L"
  shows "json_plain j \<Longrightarrow> jl_dump L j = Some s \<Longrightarrow> jl_parse L s = Some j"
    "jl_dump L j = Some s \<Longrightarrow> s \<noteq> []"
    "jl_parse L (CHR ''M'' # s) = None"
  using assms unfolding json_laws_def by blast+

lemma json_dump_parse:
  "json_laws L \<Longrightarrow> json_plain j \<Longrightarrow> json_dump L j = Inr s \<Longrightarrow> json_parse L s = Inr j"
  by (auto simp: json_dump_def json_lawsD(1) split: option.splits)

lemma foldl_om_set_wf: "om_wf xs \<Longrightarrow> om_wf (foldl (\<lambda>m (k, v). om_set k v m) xs ys)"
  using om_wf_merge [of xs ys] by (simp add: om_merge_def)

lemma json_object_eq:
  "json_object (kv # kvs) = JObj (om_merge (kv # kvs) [])"
proof -
  have "foldl (\<lambda>j (k, v). json_put k v j) (JObj xs) kvs = JObj (om_merge kvs xs)" for xs
    unfolding om_merge_def by (induction kvs arbitrary: xs) auto
  from this [of "[kv]"] show ?thesis
    by (cases kv) (simp add: json_object_def om_merge_def)
qed

lemma list_all_om_set:
  "list_all (\<lambda>(k, v). P v) xs \<Longrightarrow> P v \<Longrightarrow> list_all (\<lambda>(k, v). P v) (om_set k v xs)"
  by (induction k v xs rule: om_set.induct) auto

lemma json_plain_put:
  "json_plain (JObj xs) \<Longrightarrow> json_plain v \<Longrightarrow> json_plain (JObj (om_set k v xs))"
  by (simp add: list_all_om_set)

lemma json_plain_object:
  assumes "list_all (\<lambda>(k, v). json_plain v) kvs"
  shows "json_plain (json_object kvs)"
proof -
  have "json_plain (JObj xs) \<Longrightarrow> json_plain (JObj (om_merge kvs xs))" for xs
    using assms unfolding om_merge_def
    by (induction kvs arbitrary: xs) (auto simp: list_all_om_set simp del: json_plain.simps
        intro: json_plain_put)
  then show ?thesis using assms
    by (cases kvs) (simp_all add: json_object_def [of "[]"] json_object_eq del: json_plain.simps(4),
        simp add: om_wf_def)
qed

lemma json_plain_of_map: "om_wf m \<Longrightarrow> json_plain (json_of_map m)"
  by (simp add: json_of_map_def om_wf_def o_def case_prod_unfold list_all_iff)

lemma json_strings_run:
  "json_strings (map (\<lambda>(k, v). (k, JStr v)) m) xs = Inr (om_merge m xs)"
  by (induction m arbitrary: xs) (auto simp: om_merge_def)

lemma json_string_map_of_map: "om_wf m \<Longrightarrow> json_string_map (json_of_map m) = Inr m"
  by (simp add: json_of_map_def json_strings_run om_merge_self)

end
