(* ===== verification/Rabbit_Message.thy ===== *)
theory Rabbit_Message
  imports Rabbit_Types Json_Values "HOL-Library.Multiset"
begin

text \<open>
  \<open>rabbitmq_integration::Message\<close> (\<open>message.hpp\<close>, \<open>message.cpp\<close>): the payload and its properties,
  construction, accessors, text and JSON forms, serialization, the checksum and the conversion to
  the properties of the AMQP library. The members of the class that no code reads (\<open>body_\<close>,
  \<open>headers_\<close> and the properties kept a second time) are left out.
\<close>

record rmessage =
  rm_data :: "u8 list"
  rm_properties :: message_properties

text \<open>
  What a constructor reads from the outside: the clock when the time stamp is taken, the clock in
  milliseconds when the identifier is made, and the six-digit number it draws.
\<close>

record stamp =
  st_now :: ticks
  st_idMillis :: int
  st_draw :: int

definition generateMessageId :: "stamp \<Rightarrow> string" where
  "generateMessageId st = ''msg_'' @ int_string (st_idMillis st) @ ''_'' @ int_string (st_draw st)"

definition with_properties :: "(message_properties \<Rightarrow> message_properties) \<Rightarrow> rmessage \<Rightarrow> rmessage" where
  "with_properties f m = m\<lparr>rm_properties := f (rm_properties m)\<rparr>"

definition updateTimestamp :: "ticks \<Rightarrow> rmessage \<Rightarrow> rmessage" where
  "updateTimestamp now = with_properties (\<lambda>p. p\<lparr>mp_timestamp := now\<rparr>)"

section \<open>Payload\<close>

definition setData :: "u8 list \<Rightarrow> ticks \<Rightarrow> rmessage \<Rightarrow> rmessage" where
  "setData d now m = updateTimestamp now (m\<lparr>rm_data := d\<rparr>)"

definition setData_string :: "string \<Rightarrow> ticks \<Rightarrow> rmessage \<Rightarrow> rmessage" where
  "setData_string s now m = updateTimestamp now (m\<lparr>rm_data := map byte_of_char s\<rparr>)"

definition setData_json :: "json_lib \<Rightarrow> json \<Rightarrow> ticks \<Rightarrow> rmessage \<Rightarrow> json_error fault + rmessage" where
  "setData_json L j now m = and_then (json_dump L j) (\<lambda>s.
     Inr (with_properties (\<lambda>p. p\<lparr>mp_contentType := ''application/json''\<rparr>) (setData_string s now m)))"

text \<open>
  \<open>setData(const uint8_t*, size_t)\<close>: \<open>None\<close> is the null pointer, otherwise the bytes pointed at.
  A null pointer and a length of zero leave the old payload in place.
\<close>

definition setData_pointer :: "u8 list option \<Rightarrow> ticks \<Rightarrow> rmessage \<Rightarrow> rmessage" where
  "setData_pointer d now m = (case d of
     Some bs \<Rightarrow> if 0 < length bs then updateTimestamp now (m\<lparr>rm_data := bs\<rparr>) else m
   | None \<Rightarrow> m)"

definition getContentString :: "rmessage \<Rightarrow> string" where
  "getContentString m = map char_of_byte (rm_data m)"

section \<open>Construction\<close>

text \<open>The end of every constructor: \<open>updateTimestamp()\<close> and a fresh identifier.\<close>

definition stamped :: "stamp \<Rightarrow> rmessage \<Rightarrow> rmessage" where
  "stamped st m =
     with_properties (\<lambda>p. p\<lparr>mp_messageId := generateMessageId st\<rparr>) (updateTimestamp (st_now st) m)"

definition blank_message :: rmessage where
  "blank_message = \<lparr>rm_data = [], rm_properties = new_properties\<rparr>"

definition set_content_type :: "string \<Rightarrow> rmessage \<Rightarrow> rmessage" where
  "set_content_type ct = with_properties (\<lambda>p. p\<lparr>mp_contentType := ct\<rparr>)"

definition Message_default :: "stamp \<Rightarrow> rmessage" where
  "Message_default st = stamped st (with_properties (\<lambda>p. p\<lparr>mp_contentType := ''application/octet-stream'',
     mp_deliveryMode := NonPersistent, mp_priority := Priority_Normal, mp_priorityValue := 5\<rparr>)
     blank_message)"

definition Message_bytes :: "stamp \<Rightarrow> u8 list \<Rightarrow> rmessage" where
  "Message_bytes st d =
     stamped st (set_content_type ''application/octet-stream'' (blank_message\<lparr>rm_data := d\<rparr>))"

definition Message_string :: "stamp \<Rightarrow> string \<Rightarrow> rmessage" where
  "Message_string st s =
     stamped st (set_content_type ''text/plain'' (setData_string s (st_now st) blank_message))"

definition Message_json :: "json_lib \<Rightarrow> stamp \<Rightarrow> json \<Rightarrow> json_error fault + rmessage" where
  "Message_json L st j = and_then (setData_json L j (st_now st) blank_message)
     (\<lambda>m. Inr (stamped st (set_content_type ''application/json'' m)))"

definition Message_pointer :: "stamp \<Rightarrow> u8 list option \<Rightarrow> rmessage" where
  "Message_pointer st d = stamped st (set_content_type ''application/octet-stream''
     (setData_pointer d (st_now st) blank_message))"

section \<open>Properties and headers\<close>

definition setProperties :: "message_properties \<Rightarrow> rmessage \<Rightarrow> rmessage" where
  "setProperties p m = m\<lparr>rm_properties := p\<rparr>"

definition setContentType :: "string \<Rightarrow> rmessage \<Rightarrow> rmessage" where
  "setContentType s = with_properties (\<lambda>p. p\<lparr>mp_contentType := s\<rparr>)"

definition setContentEncoding :: "string \<Rightarrow> rmessage \<Rightarrow> rmessage" where
  "setContentEncoding s = with_properties (\<lambda>p. p\<lparr>mp_contentEncoding := s\<rparr>)"

definition setMessageId :: "string \<Rightarrow> rmessage \<Rightarrow> rmessage" where
  "setMessageId s = with_properties (\<lambda>p. p\<lparr>mp_messageId := s\<rparr>)"

definition setCorrelationId :: "string \<Rightarrow> rmessage \<Rightarrow> rmessage" where
  "setCorrelationId s = with_properties (\<lambda>p. p\<lparr>mp_correlationId := s\<rparr>)"

definition setReplyTo :: "string \<Rightarrow> rmessage \<Rightarrow> rmessage" where
  "setReplyTo s = with_properties (\<lambda>p. p\<lparr>mp_replyTo := s\<rparr>)"

definition setExpiration :: "string \<Rightarrow> rmessage \<Rightarrow> rmessage" where
  "setExpiration s = with_properties (\<lambda>p. p\<lparr>mp_expiration := s\<rparr>)"

definition setUserId :: "string \<Rightarrow> rmessage \<Rightarrow> rmessage" where
  "setUserId s = with_properties (\<lambda>p. p\<lparr>mp_userId := s\<rparr>)"

definition setAppId :: "string \<Rightarrow> rmessage \<Rightarrow> rmessage" where
  "setAppId s = with_properties (\<lambda>p. p\<lparr>mp_appId := s\<rparr>)"

definition setType :: "string \<Rightarrow> rmessage \<Rightarrow> rmessage" where
  "setType s = with_properties (\<lambda>p. p\<lparr>mp_type := s\<rparr>)"

definition setDeliveryMode :: "u8 \<Rightarrow> rmessage \<Rightarrow> rmessage" where
  "setDeliveryMode d = with_properties (\<lambda>p. p\<lparr>mp_deliveryMode := d\<rparr>)"

definition setTimestamp :: "ticks \<Rightarrow> rmessage \<Rightarrow> rmessage" where
  "setTimestamp t = with_properties (\<lambda>p. p\<lparr>mp_timestamp := t\<rparr>)"


definition setPersistent :: "bool \<Rightarrow> rmessage \<Rightarrow> rmessage" where
  "setPersistent b = setDeliveryMode (if b then Persistent else NonPersistent)"

definition isPersistent :: "rmessage \<Rightarrow> bool" where
  "isPersistent m \<longleftrightarrow> mp_deliveryMode (rm_properties m) = Persistent"

definition setPriority :: "u8 \<Rightarrow> rmessage \<Rightarrow> rmessage" where
  "setPriority q = with_properties (\<lambda>p. p\<lparr>mp_priority := q, mp_priorityValue :=
     (if q = Priority_Low then 1 else if q = Priority_Normal then 5
      else if q = Priority_High then 9 else if q = Priority_Urgent then 10 else 5)\<rparr>)"

definition setPriority_value :: "u8 \<Rightarrow> rmessage \<Rightarrow> rmessage" where
  "setPriority_value v = with_properties (\<lambda>p. p\<lparr>mp_priorityValue := v, mp_priority :=
     (if v \<le> 2 then Priority_Low else if v \<le> 4 then Priority_Normal else Priority_High)\<rparr>)"

definition setHeader :: "string \<Rightarrow> string \<Rightarrow> rmessage \<Rightarrow> rmessage" where
  "setHeader k v = with_properties (\<lambda>p. p\<lparr>mp_headers := om_set k v (mp_headers p)\<rparr>)"

definition setHeader_int :: "string \<Rightarrow> int \<Rightarrow> rmessage \<Rightarrow> rmessage" where
  "setHeader_int k n = setHeader k (int_string n)"

definition setHeader_double :: "string \<Rightarrow> fp \<Rightarrow> rmessage \<Rightarrow> rmessage" where
  "setHeader_double k x = setHeader k (fp_string x)"

definition setHeader_bool :: "string \<Rightarrow> bool \<Rightarrow> rmessage \<Rightarrow> rmessage" where
  "setHeader_bool k b = setHeader k (if b then ''true'' else ''false'')"

definition getHeaderString :: "string \<Rightarrow> rmessage \<Rightarrow> string option" where
  "getHeaderString k m = map_of (mp_headers (rm_properties m)) k"

definition getHeader :: "string \<Rightarrow> rmessage \<Rightarrow> string" where
  "getHeader k m = (case getHeaderString k m of Some v \<Rightarrow> v | None \<Rightarrow> [])"

definition hasHeader :: "string \<Rightarrow> rmessage \<Rightarrow> bool" where
  "hasHeader k m \<longleftrightarrow> getHeaderString k m \<noteq> None"

definition removeHeader :: "string \<Rightarrow> rmessage \<Rightarrow> rmessage" where
  "removeHeader k = with_properties (\<lambda>p. p\<lparr>mp_headers := al_del k (mp_headers p)\<rparr>)"

definition setHeaders :: "headers \<Rightarrow> rmessage \<Rightarrow> rmessage" where
  "setHeaders hs = with_properties (\<lambda>p. p\<lparr>mp_headers := om_merge hs (mp_headers p)\<rparr>)"

definition clearHeaders :: "rmessage \<Rightarrow> rmessage" where
  "clearHeaders = with_properties (\<lambda>p. p\<lparr>mp_headers := []\<rparr>)"

definition getHeaderInt :: "string \<Rightarrow> rmessage \<Rightarrow> int option" where
  "getHeaderInt k m = (case getHeaderString k m of
     Some v \<Rightarrow> (case stoll v of Inr n \<Rightarrow> Some n | Inl _ \<Rightarrow> None) | None \<Rightarrow> None)"

definition getHeaderBool :: "string \<Rightarrow> rmessage \<Rightarrow> bool option" where
  "getHeaderBool k m = map_option (\<lambda>v. v = ''true'' \<or> v = ''1'') (getHeaderString k m)"

definition isCompressed :: "rmessage \<Rightarrow> bool" where
  "isCompressed m \<longleftrightarrow> hasHeader ''compressed'' m \<and> getHeader ''compressed'' m = ''true''"

definition compress :: "rmessage \<Rightarrow> bool \<times> rmessage" where
  "compress m = (False, m)"

definition decompress :: "rmessage \<Rightarrow> bool \<times> rmessage" where
  "decompress m = (False, m)"

section \<open>Expiration\<close>

definition setExpiration_millis :: "int \<Rightarrow> rmessage \<Rightarrow> rmessage" where
  "setExpiration_millis ttl = setExpiration (int_string ttl)"

definition getExpirationDuration :: "rmessage \<Rightarrow> int option" where
  "getExpirationDuration m =
     (let e = mp_expiration (rm_properties m)
      in if e = [] then None else (case stoll e of Inr n \<Rightarrow> Some n | Inl _ \<Rightarrow> None))"

definition getExpiration :: "rmessage \<Rightarrow> int" where
  "getExpiration m =
     (let e = mp_expiration (rm_properties m)
      in if e = [] then 0 else (case stoll e of Inr n \<Rightarrow> n | Inl _ \<Rightarrow> 0))"

definition setTTL :: "int \<Rightarrow> rmessage \<Rightarrow> rmessage" where
  "setTTL ttl = setExpiration_millis ttl"

definition getTTL :: "rmessage \<Rightarrow> int" where
  "getTTL m = (case getExpirationDuration m of Some d \<Rightarrow> d | None \<Rightarrow> 0)"

section \<open>Checks\<close>

definition message_isEmpty :: "rmessage \<Rightarrow> bool" where
  "message_isEmpty m \<longleftrightarrow> rm_data m = []"

definition message_isValid :: "rmessage \<Rightarrow> bool" where
  "message_isValid m \<longleftrightarrow> rm_data m \<noteq> [] \<and> mp_messageId (rm_properties m) \<noteq> []"

definition message_validate :: "rmessage \<Rightarrow> string" where
  "message_validate m =
     (if message_isEmpty m then ''Message is empty''
      else if mp_messageId (rm_properties m) = [] then ''Message ID is required''
      else [])"

definition ensureMessageIdSet :: "stamp \<Rightarrow> rmessage \<Rightarrow> rmessage" where
  "ensureMessageIdSet st m =
     (if mp_messageId (rm_properties m) = [] then setMessageId (generateMessageId st) m else m)"

definition ensureTimestampSet :: "ticks \<Rightarrow> rmessage \<Rightarrow> rmessage" where
  "ensureTimestampSet now m =
     (if mp_timestamp (rm_properties m) = 0 then updateTimestamp now m else m)"

definition message_clear :: "rmessage \<Rightarrow> rmessage" where
  "message_clear m = blank_message"

definition message_eq :: "rmessage \<Rightarrow> rmessage \<Rightarrow> bool" where
  "message_eq a b \<longleftrightarrow> rm_data a = rm_data b \<and>
     mp_messageId (rm_properties a) = mp_messageId (rm_properties b) \<and>
     mp_contentType (rm_properties a) = mp_contentType (rm_properties b)"

text \<open>What is read is what is stored.\<close>

definition getProperties :: "rmessage \<Rightarrow> message_properties" where
  "getProperties m = rm_properties m"

definition getContentType :: "rmessage \<Rightarrow> string" where
  "getContentType m = mp_contentType (rm_properties m)"

definition getContentEncoding :: "rmessage \<Rightarrow> string" where
  "getContentEncoding m = mp_contentEncoding (rm_properties m)"

definition getMessageId :: "rmessage \<Rightarrow> string" where
  "getMessageId m = mp_messageId (rm_properties m)"

definition getCorrelationId :: "rmessage \<Rightarrow> string" where
  "getCorrelationId m = mp_correlationId (rm_properties m)"

definition getReplyTo :: "rmessage \<Rightarrow> string" where
  "getReplyTo m = mp_replyTo (rm_properties m)"

definition getExpirationString :: "rmessage \<Rightarrow> string" where
  "getExpirationString m = mp_expiration (rm_properties m)"

definition getUserId :: "rmessage \<Rightarrow> string" where
  "getUserId m = mp_userId (rm_properties m)"

definition getAppId :: "rmessage \<Rightarrow> string" where
  "getAppId m = mp_appId (rm_properties m)"

definition message_getType :: "rmessage \<Rightarrow> string" where
  "message_getType m = mp_type (rm_properties m)"

definition getDeliveryMode :: "rmessage \<Rightarrow> u8" where
  "getDeliveryMode m = mp_deliveryMode (rm_properties m)"

definition getPriority :: "rmessage \<Rightarrow> u8" where
  "getPriority m = mp_priority (rm_properties m)"

definition getPriorityValue :: "rmessage \<Rightarrow> u8" where
  "getPriorityValue m = mp_priorityValue (rm_properties m)"

definition getTimestamp :: "rmessage \<Rightarrow> ticks" where
  "getTimestamp m = mp_timestamp (rm_properties m)"

definition getHeaders :: "rmessage \<Rightarrow> headers" where
  "getHeaders m = mp_headers (rm_properties m)"

definition getData :: "rmessage \<Rightarrow> u8 list" where
  "getData m = rm_data m"

definition getContentLength :: "rmessage \<Rightarrow> u64" where
  "getContentLength m = word_of_nat (length (rm_data m))"

definition message_differs :: "rmessage \<Rightarrow> rmessage \<Rightarrow> bool" where
  "message_differs m m' \<longleftrightarrow> \<not> message_eq m m'"

definition clone :: "rmessage \<Rightarrow> rmessage" where
  "clone m = m"

definition setTimestampNow :: "ticks \<Rightarrow> rmessage \<Rightarrow> rmessage" where
  "setTimestampNow now m = with_properties (\<lambda>p. p\<lparr>mp_timestamp := now\<rparr>) m"

text \<open>A header given as a C string, which ends at its first null; a null pointer is undefined.\<close>

definition setHeader_pointer :: "string \<Rightarrow> string option \<Rightarrow> rmessage \<Rightarrow> rmessage option" where
  "setHeader_pointer name v m = (case v of Some s \<Rightarrow> Some (setHeader name (c_string s) m) | None \<Rightarrow> None)"

text \<open>Equality looks at payload, identifier and content type only.\<close>

lemma message_eq_coarse: "message_eq (setReplyTo r m) m" "\<not> message_differs (clone m) m"
  by (simp_all add: message_eq_def message_differs_def clone_def setReplyTo_def with_properties_def)

definition calculateChecksum :: "rmessage \<Rightarrow> string" where
  "calculateChecksum m = int_string (uint (foldl (\<lambda>c b. c + ucast b) (0 :: u32) (rm_data m)))"

definition message_verifyChecksum :: "string \<Rightarrow> rmessage \<Rightarrow> bool" where
  "message_verifyChecksum expected m \<longleftrightarrow> calculateChecksum m = expected"

text \<open>\<open>size_t\<close> sums wrap at 64 bits.\<close>

definition estimateSize :: "rmessage \<Rightarrow> u64" where
  "estimateSize m =
     (let p = rm_properties m
      in foldl (\<lambda>n (k, v). n + (word_of_nat (length k) + word_of_nat (length v)))
           (word_of_nat (length (rm_data m)) + word_of_nat (length (mp_messageId p)) +
            word_of_nat (length (mp_contentType p)) + word_of_nat (length (mp_correlationId p)))
           (mp_headers p))"

section \<open>Setting the content\<close>

definition setContent_json :: "json_lib \<Rightarrow> json \<Rightarrow> ticks \<Rightarrow> rmessage \<Rightarrow> json_error fault + rmessage" where
  "setContent_json L j now m =
     and_then (setData_json L j now m) (\<lambda>m'. Inr (setContentType ''application/json'' m'))"

definition setContent_string :: "string \<Rightarrow> ticks \<Rightarrow> rmessage \<Rightarrow> rmessage" where
  "setContent_string s now m = setContentType ''text/plain'' (setData_string s now m)"

definition setContent_bytes :: "u8 list \<Rightarrow> ticks \<Rightarrow> rmessage \<Rightarrow> rmessage" where
  "setContent_bytes d now m = setContentType ''application/octet-stream'' (setData d now m)"

definition setContent_pointer :: "u8 list option \<Rightarrow> ticks \<Rightarrow> rmessage \<Rightarrow> rmessage" where
  "setContent_pointer d now m = setContentType ''application/octet-stream'' (setData_pointer d now m)"

definition fromJson :: "json_lib \<Rightarrow> json \<Rightarrow> ticks \<Rightarrow> rmessage \<Rightarrow> bool \<times> rmessage" where
  "fromJson L j now m = (case setData_json L j now m of Inr m' \<Rightarrow> (True, m') | Inl _ \<Rightarrow> (False, m))"

definition createJsonMessage :: "json_lib \<Rightarrow> stamp \<Rightarrow> json \<Rightarrow> json_error fault + rmessage" where
  "createJsonMessage L st j =
     and_then (Message_json L st j) (\<lambda>m. Inr (setContentType ''application/json'' m))"

definition createTextMessage :: "stamp \<Rightarrow> string \<Rightarrow> rmessage" where
  "createTextMessage st s = setContentType ''text/plain'' (Message_string st s)"

definition createBinaryMessage :: "stamp \<Rightarrow> u8 list \<Rightarrow> rmessage" where
  "createBinaryMessage st d = setContentType ''application/octet-stream'' (Message_bytes st d)"

section \<open>Text and JSON forms\<close>

definition message_toString :: "bool \<Rightarrow> rmessage \<Rightarrow> string" where
  "message_toString includeProperties m =
     ''Message[size='' @ dec_string (length (rm_data m)) @ '' bytes'' @
     (if includeProperties
      then (let p = rm_properties m
            in '', messageId='' @ mp_messageId p @ '', type='' @ mp_contentType p @
               '', persistent='' @ (if isPersistent m then ''true'' else ''false'') @
               (if mp_correlationId p = [] then [] else '', correlationId='' @ mp_correlationId p))
      else []) @ '']''"

definition isValidJson :: "json_lib \<Rightarrow> string \<Rightarrow> bool" where
  "isValidJson L s \<longleftrightarrow> jl_parse L s \<noteq> None"

definition isJson :: "json_lib \<Rightarrow> rmessage \<Rightarrow> bool" where
  "isJson L m \<longleftrightarrow> isValidJson L (getContentString m)"

definition message_toJson :: "json_lib \<Rightarrow> rmessage \<Rightarrow> json" where
  "message_toJson L m =
     (let text = message_toString True m; p = rm_properties m;
          content = (if isJson L m
                     then (case jl_parse L text of Some j \<Rightarrow> j | None \<Rightarrow> JStr text)
                     else JStr text)
      in json_object
           [(''content'', content),
            (''properties'', json_object
               [(''messageId'', JStr (mp_messageId p)), (''correlationId'', JStr (mp_correlationId p)),
                (''contentType'', JStr (mp_contentType p)),
                (''headers'', json_of_map (mp_headers p))])])"

text \<open>\<open>None\<close>: \<open>std::invalid_argument\<close> is thrown.\<close>

definition getContentJson :: "json_lib \<Rightarrow> rmessage \<Rightarrow> json option" where
  "getContentJson L m =
     (if isValidJson L (getContentString m) then jl_parse L (getContentString m) else None)"

definition isText :: "rmessage \<Rightarrow> bool" where
  "isText m =
     (let ct = mp_contentType (rm_properties m)
      in take 5 ct = ''text/'' \<or> take 16 ct = ''application/json'' \<or>
         list_all (\<lambda>b. \<not> (b < 32 \<or> b > 126) \<or> b = 10 \<or> b = 13 \<or> b = 9) (rm_data m))"

section \<open>Serialization\<close>

text \<open>A step that may throw: later steps are skipped, earlier changes stay.\<close>

definition attempt :: "'e + 'a \<Rightarrow> ('a \<Rightarrow> 's \<Rightarrow> ('e + unit) \<times> 's) \<Rightarrow> 's \<Rightarrow> ('e + unit) \<times> 's" where
  "attempt r k s = (case r of Inl e \<Rightarrow> (Inl e, s) | Inr x \<Rightarrow> k x s)"

lemma attempt_simps [simp]:
  "attempt (Inl e) k s = (Inl e, s)"
  "attempt (Inr x) k s = k x s"
  by (simp_all add: attempt_def)

definition to_millis_since_epoch :: "ticks \<Rightarrow> int" where
  "to_millis_since_epoch t = (if t < 0 then - (- t div 1000000) else t div 1000000)"

definition serialize_json :: "rmessage \<Rightarrow> json" where
  "serialize_json m =
     (let p = rm_properties m
      in json_object
           [(''data'', JStr (concat (map hex_byte (rm_data m)))),
            (''properties'', json_object
               [(''contentType'', JStr (mp_contentType p)), (''messageId'', JStr (mp_messageId p)),
                (''correlationId'', JStr (mp_correlationId p)),
                (''deliveryMode'', JInt (uint (mp_deliveryMode p))),
                (''priority'', JInt (uint (mp_priority p))),
                (''headers'', json_of_map (mp_headers p)),
                (''timestamp'', JInt (to_millis_since_epoch (mp_timestamp p)))])])"

definition serialize :: "json_lib \<Rightarrow> rmessage \<Rightarrow> json_error fault + string" where
  "serialize L m = json_dump L (serialize_json m)"

text \<open>
  The loop over two characters at a time, the last one alone when the length is odd. The flag
  tells that no conversion threw; the bytes read so far stay.
\<close>

fun read_hex :: "string \<Rightarrow> u8 list \<Rightarrow> bool \<times> u8 list" where
  "read_hex [] acc = (True, acc)"
| "read_hex [a] acc = (case stoul 16 [a] of
     Inl e \<Rightarrow> (False, acc) | Inr w \<Rightarrow> (True, acc @ [ucast w]))"
| "read_hex (a # b # r) acc = (case stoul 16 [a, b] of
     Inl e \<Rightarrow> (False, acc) | Inr w \<Rightarrow> read_hex r (acc @ [ucast w]))"

text \<open>
  A time point of so many milliseconds: the product with \<open>10\<^sup>6\<close> is a signed overflow, which is
  undefined, when it does not fit into 64 bits.
\<close>

definition time_of_millis :: "int \<Rightarrow> json_error fault + ticks" where
  "time_of_millis n =
     (if - (2 ^ 63) \<le> n * 1000000 \<and> n * 1000000 < 2 ^ 63 then Inr (n * 1000000) else Inl Bad_Cast)"

definition json_optional ::
    "(json \<Rightarrow> json_error fault + 'a) \<Rightarrow> string \<Rightarrow> json \<Rightarrow> json_error fault + 'a option" where
  "json_optional conv k j =
     (if json_contains k j then and_then (and_then (json_member k j) conv) (\<lambda>x. Inr (Some x))
      else Inr None)"

definition set_if :: "('a \<Rightarrow> rmessage \<Rightarrow> rmessage) \<Rightarrow> 'a option \<Rightarrow> rmessage \<Rightarrow> rmessage" where
  "set_if f x m = (case x of Some y \<Rightarrow> f y m | None \<Rightarrow> m)"

definition assign_priority :: "u8 \<Rightarrow> rmessage \<Rightarrow> rmessage" where
  "assign_priority q = with_properties (\<lambda>p. p\<lparr>mp_priority := q\<rparr>)"

definition assign_headers :: "headers \<Rightarrow> rmessage \<Rightarrow> rmessage" where
  "assign_headers hs = with_properties (\<lambda>p. p\<lparr>mp_headers := hs\<rparr>)"

definition read_properties :: "json \<Rightarrow> rmessage \<Rightarrow> (json_error fault + unit) \<times> rmessage" where
  "read_properties props =
     attempt (json_value json_string ''contentType'' [] props) (\<lambda>s m.
     attempt (json_value json_string ''messageId'' [] props) (\<lambda>s m.
     attempt (json_value json_string ''correlationId'' [] props) (\<lambda>s m.
     attempt (json_value (json_signed 32) ''deliveryMode'' 1 props) (\<lambda>n m.
     attempt (json_value (json_signed 32) ''priority'' 5 props) (\<lambda>n m.
     attempt (json_optional json_string_map ''headers'' props) (\<lambda>hs m.
     attempt (json_optional (\<lambda>j. and_then (json_signed 64 j) time_of_millis) ''timestamp'' props) (\<lambda>t m.
       (Inr (), set_if setTimestamp t m))
     (set_if assign_headers hs m))
     (assign_priority (word_of_int n) m))
     (setDeliveryMode (word_of_int n) m))
     (setCorrelationId s m))
     (setMessageId s m))
     (setContentType s m))"

definition deserialize_body ::
    "json_lib \<Rightarrow> string \<Rightarrow> rmessage \<Rightarrow> (json_error fault + unit) \<times> rmessage" where
  "deserialize_body L s =
     attempt (json_parse L s) (\<lambda>j.
     attempt (and_then (json_member ''data'' j) json_string) (\<lambda>hex m.
       case read_hex hex [] of (ok, d) \<Rightarrow>
         let m' = m\<lparr>rm_data := d\<rparr>
         in if \<not> ok then (Inl (Thrown Invalid_Number), m')
            else if json_contains ''properties'' j
            then attempt (json_member ''properties'' j) read_properties m'
            else (Inr (), m')))"

text \<open>Every exception is caught and reported as \<open>False\<close>; undefined behaviour is not.\<close>

definition deserialize :: "json_lib \<Rightarrow> string \<Rightarrow> rmessage \<Rightarrow> (json_error fault + bool) \<times> rmessage" where
  "deserialize L s m = (case deserialize_body L s m of
     (Inr _, m') \<Rightarrow> (Inr True, m')
   | (Inl (Thrown _), m') \<Rightarrow> (Inr False, m')
   | (Inl e, m') \<Rightarrow> (Inl e, m'))"

section \<open>AMQP properties\<close>

text \<open>
  A byte string of the library is a pointer and a length. \<open>Dangling\<close> is a pointer into a string
  that no longer exists.
\<close>

datatype amqp_bytes = Alive string | Dangling

record amqp_properties =
  ap_content_type :: "amqp_bytes option"
  ap_message_id :: "amqp_bytes option"
  ap_delivery_mode :: "u8 option"

text \<open>The pointers lead into the message, which the caller keeps.\<close>

definition toAmqpProperties :: "rmessage \<Rightarrow> amqp_properties" where
  "toAmqpProperties m =
     (let p = rm_properties m
      in \<lparr>ap_content_type = (if mp_contentType p = [] then None else Some (Alive (c_string (mp_contentType p)))),
          ap_message_id = (if mp_messageId p = [] then None else Some (Alive (c_string (mp_messageId p)))),
          ap_delivery_mode = Some (mp_deliveryMode p)\<rparr>)"

text \<open>\<open>None\<close>: a pointer to a destroyed string is read.\<close>

definition read_bytes :: "amqp_bytes option \<Rightarrow> (string \<Rightarrow> rmessage \<Rightarrow> rmessage) \<Rightarrow> rmessage \<Rightarrow> rmessage option" where
  "read_bytes b f m = (case b of
     None \<Rightarrow> Some m | Some (Alive s) \<Rightarrow> Some (f s m) | Some Dangling \<Rightarrow> None)"

definition fromAmqpProperties :: "amqp_properties \<Rightarrow> rmessage \<Rightarrow> rmessage option" where
  "fromAmqpProperties p m =
     Option.bind (read_bytes (ap_content_type p) setContentType m) (\<lambda>m.
     Option.bind (read_bytes (ap_message_id p) setMessageId m) (\<lambda>m.
       Some (case ap_delivery_mode p of Some d \<Rightarrow> setDeliveryMode d m | None \<Rightarrow> m)))"

section \<open>Well-formed messages\<close>

text \<open>
  The headers are an ordered map, and the time stamp is one the clock type holds. Every
  constructor makes such a message and every operation keeps it so, also a deserialization that
  fails half-way.
\<close>

definition clock_range :: "ticks \<Rightarrow> bool" where
  "clock_range t \<longleftrightarrow> - (2 ^ 63) \<le> t \<and> t < 2 ^ 63"

definition message_wf :: "rmessage \<Rightarrow> bool" where
  "message_wf m \<longleftrightarrow> om_wf (mp_headers (rm_properties m)) \<and> clock_range (mp_timestamp (rm_properties m))"

lemmas property_setters =
  with_properties_def setContentType_def setContentEncoding_def setMessageId_def
  setCorrelationId_def setReplyTo_def setExpiration_def setUserId_def setAppId_def setType_def
  setDeliveryMode_def setTimestamp_def setPersistent_def setPriority_def setPriority_value_def
  setExpiration_millis_def setTTL_def set_content_type_def updateTimestamp_def
  assign_priority_def assign_headers_def

lemma clock_range_0 [simp]: "clock_range 0"
  by (simp add: clock_range_def)

lemma blank_wf [inv_intros, intro]: "message_wf blank_message"
  by (simp add: message_wf_def blank_message_def new_properties_def)

lemma setters_wf [inv_intros, intro]:
  assumes "message_wf m"
  shows "message_wf (setContentType s m)" "message_wf (setContentEncoding s m)"
    "message_wf (setMessageId s m)" "message_wf (setCorrelationId s m)" "message_wf (setReplyTo s m)"
    "message_wf (setExpiration s m)" "message_wf (setUserId s m)" "message_wf (setAppId s m)"
    "message_wf (setType s m)" "message_wf (setDeliveryMode q m)" "message_wf (setPersistent b m)"
    "message_wf (setPriority q m)" "message_wf (setPriority_value q m)" "message_wf (setTTL n m)"
    "message_wf (set_content_type s m)" "message_wf (assign_priority q m)"
    "message_wf (m\<lparr>rm_data := d\<rparr>)"
  using assms by (simp_all add: message_wf_def property_setters)

lemma timestamp_wf [inv_intros, intro]:
  "message_wf m \<Longrightarrow> clock_range t \<Longrightarrow> message_wf (setTimestamp t m)"
  "message_wf m \<Longrightarrow> clock_range t \<Longrightarrow> message_wf (updateTimestamp t m)"
  "message_wf m \<Longrightarrow> clock_range t \<Longrightarrow> message_wf (setData d t m)"
  "message_wf m \<Longrightarrow> clock_range t \<Longrightarrow> message_wf (setData_string s t m)"
  "message_wf m \<Longrightarrow> clock_range t \<Longrightarrow> message_wf (setData_pointer p t m)"
  "message_wf m \<Longrightarrow> clock_range (st_now st) \<Longrightarrow> message_wf (stamped st m)"
  by (simp_all add: message_wf_def property_setters setData_def setData_string_def
      setData_pointer_def stamped_def split: option.split)

lemma headers_wf [inv_intros, intro]:
  assumes "message_wf m"
  shows "message_wf (setHeader k v m)" "message_wf (removeHeader k m)" "message_wf (setHeaders hs m)"
    "message_wf (clearHeaders m)"
    "om_wf hs \<Longrightarrow> message_wf (assign_headers hs m)"
  using assms by (simp_all add: message_wf_def with_properties_def setHeader_def removeHeader_def
      setHeaders_def clearHeaders_def assign_headers_def om_wf_set om_wf_del om_wf_merge)

lemma constructors_wf:
  assumes "clock_range (st_now st)"
  shows "message_wf (Message_default st)" "message_wf (Message_bytes st d)"
    "message_wf (Message_string st s)" "message_wf (Message_pointer st p)"
    "Message_json L st j = Inr m \<Longrightarrow> message_wf m"
proof -
  have "message_wf (with_properties (\<lambda>p. p\<lparr>mp_contentType := c, mp_deliveryMode := d,
      mp_priority := q, mp_priorityValue := v\<rparr>) blank_message)" for c d q v
    using blank_wf by (simp add: message_wf_def with_properties_def)
  then show "message_wf (Message_default st)" unfolding Message_default_def using assms by blast
  show "message_wf (Message_bytes st d)" "message_wf (Message_string st s)"
    "message_wf (Message_pointer st p)"
    unfolding Message_bytes_def Message_string_def Message_pointer_def using assms by blast+
  assume m: "Message_json L st j = Inr m"
  then obtain s where "m = stamped st (set_content_type ''application/json''
      (set_content_type ''application/json'' (setData_string s (st_now st) blank_message)))"
    by (auto simp: Message_json_def setData_json_def and_then_Inr_iff set_content_type_def)
  then show "message_wf m" using assms by blast
qed

lemma json_strings_wf: "json_strings kvs m = Inr hs \<Longrightarrow> om_wf m \<Longrightarrow> om_wf hs"
  by (induction kvs m rule: json_strings.induct) (auto simp: and_then_Inr_iff)

lemma json_string_map_wf: "json_string_map j = Inr hs \<Longrightarrow> om_wf hs"
  by (cases j) (auto intro: json_strings_wf)

lemma time_of_millis_range: "time_of_millis n = Inr t \<Longrightarrow> clock_range t"
  by (auto simp: time_of_millis_def clock_range_def split: if_splits)

lemma attempt_wf:
  "message_wf s \<Longrightarrow> (\<And>x. r = Inr x \<Longrightarrow> message_wf (snd (k x s))) \<Longrightarrow> message_wf (snd (attempt r k s))"
  by (cases r) simp_all

lemma set_if_wf:
  "message_wf m \<Longrightarrow> (\<And>y. x = Some y \<Longrightarrow> message_wf (f y m)) \<Longrightarrow> message_wf (set_if f x m)"
  by (cases x) (simp_all add: set_if_def)

lemma json_optional_Some:
  "json_optional conv k j = Inr (Some x) \<Longrightarrow> \<exists>v. conv v = Inr x"
  by (auto simp: json_optional_def and_then_Inr_iff split: if_splits)

lemma optional_headers_wf:
  assumes "json_optional json_string_map k j = Inr hs" "message_wf m"
  shows "message_wf (set_if assign_headers hs m)"
  using assms json_optional_Some [of json_string_map k j] json_string_map_wf
  by (intro set_if_wf headers_wf) auto

lemma optional_timestamp_wf:
  assumes "json_optional (\<lambda>j. and_then (json_signed 64 j) time_of_millis) k j = Inr t" "message_wf m"
  shows "message_wf (set_if setTimestamp t m)"
  using assms json_optional_Some [of _ k j] time_of_millis_range
  by (intro set_if_wf timestamp_wf) (fastforce simp: and_then_Inr_iff)+

lemma read_properties_wf: "message_wf m \<Longrightarrow> message_wf (snd (read_properties props m))"
  unfolding read_properties_def
  by (intro attempt_wf) (auto intro!: optional_headers_wf optional_timestamp_wf setters_wf)

lemma deserialize_body_wf: "message_wf m \<Longrightarrow> message_wf (snd (deserialize_body L s m))"
  unfolding deserialize_body_def Let_def
  by (intro attempt_wf) (auto split: prod.split intro!: attempt_wf read_properties_wf)

section \<open>Serialization and back\<close>

lemma read_hex_bytes: "read_hex (concat (map hex_byte d)) acc = (True, acc @ d)"
proof (induction d arbitrary: acc)
  case (Cons b d)
  obtain x y where xy: "hex_byte b = [x, y]" by (simp add: hex_byte_def)
  have "stoul 16 [x, y] = Inr (word_of_nat (unat b))" using stoul_hex_byte [of b] xy by simp
  moreover have "ucast (word_of_nat (unat b) :: u64) = b"
    by (simp, intro bit_word_eqI, simp add: bit_simps)
  ultimately show ?case using xy Cons by simp
qed simp

text \<open>
  What comes back when the text of \<open>m\<close> is read into \<open>m0\<close>: the payload and six properties of
  \<open>m\<close>, the time stamp without its fraction of a millisecond, and the other seven properties of \<open>m0\<close>.
\<close>

definition restored :: "rmessage \<Rightarrow> rmessage \<Rightarrow> rmessage" where
  "restored m m0 =
     (let p = rm_properties m
      in \<lparr>rm_data = rm_data m, rm_properties = (rm_properties m0)
           \<lparr>mp_contentType := mp_contentType p, mp_messageId := mp_messageId p,
            mp_correlationId := mp_correlationId p, mp_deliveryMode := mp_deliveryMode p,
            mp_priority := mp_priority p, mp_headers := mp_headers p,
            mp_timestamp := to_millis_since_epoch (mp_timestamp p) * 1000000\<rparr>\<rparr>)"

lemma millis_range:
  assumes "clock_range t"
  shows "time_of_millis (to_millis_since_epoch t) = Inr (to_millis_since_epoch t * 1000000)"
    "- (2 ^ 63) \<le> to_millis_since_epoch t" "to_millis_since_epoch t < 2 ^ 63"
  using assms by (auto simp: time_of_millis_def to_millis_since_epoch_def clock_range_def)

lemma json_plain_byte: "json_plain (JInt (uint (b :: u8)))"
proof -
  have "- (2 ^ 63) \<le> uint b" by (rule order_trans [OF _ uint_ge_0]) simp
  then show ?thesis using uint_bounded [of b] by simp
qed

lemma serialize_json_plain: "message_wf m \<Longrightarrow> json_plain (serialize_json m)"
  unfolding serialize_json_def Let_def
  using millis_range [of "mp_timestamp (rm_properties m)"]
    json_plain_byte [of "mp_deliveryMode (rm_properties m)"] json_plain_byte [of "mp_priority (rm_properties m)"]
  by (intro json_plain_object) (auto simp: message_wf_def intro!: json_plain_object json_plain_of_map)

lemma json_object_members:
  "json_member k (json_object (kv # kvs)) =
     (case map_of (rev (kv # kvs)) k of None \<Rightarrow> Inr JNull | Some v \<Rightarrow> Inr v)"
  "json_contains k (json_object (kv # kvs)) \<longleftrightarrow> map_of (rev (kv # kvs)) k \<noteq> None"
  "json_value conv k d (json_object (kv # kvs)) =
     (case map_of (rev (kv # kvs)) k of None \<Rightarrow> Inr d | Some v \<Rightarrow> conv v)"
  unfolding json_object_eq by (simp_all add: json_value_def map_of_om_merge)

lemma u8_through_int32:
  "json_signed 32 (JInt (uint (b :: u8))) = Inr (uint b)" "word_of_int (uint b) = b"
proof -
  have "- (2 ^ 31) \<le> uint b" by (rule order_trans [OF _ uint_ge_0]) simp
  then show "json_signed 32 (JInt (uint b)) = Inr (uint b)"
    using uint_bounded [of b] by (simp add: signed_take_bit_int_eq_self)
qed simp

lemma timestamp_kept:
  "clock_range t \<Longrightarrow> json_signed 64 (JInt (to_millis_since_epoch t)) = Inr (to_millis_since_epoch t)"
  using millis_range [of t] by (simp add: signed_take_bit_int_eq_self)

text \<open>
  C12. Serialization and back. When a well-formed message is turned into text and the text is
  read into any message, the reading succeeds and gives back the payload, six properties (content
  type, identifier, correlation identifier, delivery mode, priority class and headers), and the time
  stamp in whole milliseconds. Everything else (content encoding, reply address, expiration,
  user, application, type and the numeric priority) is not written and stays as it was in the
  message that is read into.
\<close>

theorem deserialize_serialize:
  assumes "json_laws L" "message_wf m" "serialize L m = Inr s"
  shows "deserialize L s m0 = (Inr True, restored m m0)"
proof -
  have parsed: "json_parse L s = Inr (serialize_json m)"
    using assms json_dump_parse serialize_json_plain unfolding serialize_def by blast
  have wf: "om_wf (mp_headers (rm_properties m))" "clock_range (mp_timestamp (rm_properties m))"
    using assms(2) by (simp_all add: message_wf_def)
  note member = json_object_members
  show ?thesis
    unfolding deserialize_def deserialize_body_def parsed
    by (simp add: serialize_json_def Let_def member read_hex_bytes read_properties_def
        json_optional_def json_string_map_of_map [OF wf(1)] u8_through_int32
        timestamp_kept [OF wf(2)] millis_range [OF wf(2)] set_if_def property_setters restored_def
        rmessage.equality del: json_signed.simps)
qed


text \<open>
  A library that knows one document, and the message whose text the document is: the payload
  \<open>hi\<close> of a text message.
\<close>

definition one_document :: "json \<Rightarrow> string \<Rightarrow> json_lib" where
  "one_document j s =
     \<lparr>jl_dump = (\<lambda>k. if k = j then Some s else None),
      jl_parse = (\<lambda>u. if u = s then Some j else None)\<rparr>"

lemma one_document_laws: "s = CHR ''{'' # t \<Longrightarrow> json_laws (one_document j s)"
  by (auto simp: json_laws_def one_document_def split: if_splits)

definition sample_stamp :: stamp where
  "sample_stamp = \<lparr>st_now = 1500000, st_idMillis = 1, st_draw = 123456\<rparr>"

definition sample_rmessage :: rmessage where
  "sample_rmessage = setHeader ''k'' ''v'' (Message_string sample_stamp ''hi'')"

definition sample_document :: string where
  "sample_document =
     ''{\"data\":\"6869\",\"properties\":{\"contentType\":\"text/plain\",\"correlationId\":\"\",'' @
     ''\"deliveryMode\":1,\"headers\":{\"k\":\"v\"},\"messageId\":\"msg_1_123456\",'' @
     ''\"priority\":1,\"timestamp\":1}}''"

definition sample_json_lib :: json_lib where
  "sample_json_lib = one_document (serialize_json sample_rmessage) sample_document"

lemma sample_json_lib_laws: "json_laws sample_json_lib"
  unfolding sample_json_lib_def
  by (rule one_document_laws) (simp add: sample_document_def)

lemma sample_rmessage_wf: "message_wf sample_rmessage"
  unfolding sample_rmessage_def
  by (intro headers_wf constructors_wf) (simp add: sample_stamp_def clock_range_def)

theorem deserialize_serialize_witness:
  "deserialize sample_json_lib sample_document blank_message =
     (Inr True, restored sample_rmessage blank_message)"
proof (rule deserialize_serialize [OF sample_json_lib_laws sample_rmessage_wf])
  show "serialize sample_json_lib sample_rmessage = Inr sample_document"
    by (simp add: serialize_def sample_json_lib_def one_document_def)
qed

section \<open>What the JSON form shows\<close>

text \<open>
  The JSON form of a message does not hold its content. \<open>toJson\<close> parses the summary
  that \<open>toString\<close> prints, not the payload, so its content is always that summary: two messages
  with the same properties and equally many bytes have the same JSON form, whatever the bytes are.
\<close>

lemma toJson_ignores_content:
  assumes "json_laws L" "rm_properties a = rm_properties b" "length (rm_data a) = length (rm_data b)"
  shows "message_toJson L a = message_toJson L b \<and>
    json_member ''content'' (message_toJson L a) = Inr (JStr (message_toString True a))"
proof (rule conjI)
  have summary: "message_toString True a = message_toString True b"
    using assms(2,3) by (simp add: message_toString_def isPersistent_def Let_def)
  have none: "jl_parse L (message_toString True m) = None" for m
    using json_lawsD(3) [OF assms(1)] by (simp add: message_toString_def)
  show "message_toJson L a = message_toJson L b"
    using summary assms(2) by (simp add: message_toJson_def none Let_def)
  show "json_member ''content'' (message_toJson L a) = Inr (JStr (message_toString True a))"
    by (simp add: message_toJson_def none Let_def json_object_members)
qed

lemma toJson_ignores_content_witness:
  "let L = one_document (JStr ''hi'') ''{hi}'';
       a = Message_string sample_stamp ''{hi}''; b = Message_string sample_stamp ''{ho}''
   in isJson L a \<and> \<not> isJson L b \<and> message_toJson L a = message_toJson L b"
proof -
  let ?L = "one_document (JStr ''hi'') ''{hi}''"
  let ?a = "Message_string sample_stamp ''{hi}''" and ?b = "Message_string sample_stamp ''{ho}''"
  have "rm_properties ?a = rm_properties ?b" "length (rm_data ?a) = length (rm_data ?b)"
    by (simp_all add: Message_string_def setData_string_def stamped_def property_setters)
  then have "message_toJson ?L ?a = message_toJson ?L ?b"
    using toJson_ignores_content [of ?L ?a ?b] one_document_laws by simp
  moreover have "isJson ?L ?a" "\<not> isJson ?L ?b"
    by (simp_all add: isJson_def isValidJson_def one_document_def getContentString_def
        Message_string_def setData_string_def stamped_def property_setters blank_message_def)
  ultimately show ?thesis by (simp add: Let_def)
qed

section \<open>Priorities, expiration and checksum\<close>

text \<open>
  The two ways to set a priority disagree: \<open>setPriority(Priority::Normal)\<close> stores the value 5, and
  setting the value 5 gives the class High. Only Low and High come back.
\<close>

lemma priority_value_back:
  "mp_priority (rm_properties
     (setPriority_value (mp_priorityValue (rm_properties (setPriority q m))) m)) = q \<longleftrightarrow>
   q = Priority_Low \<or> q = Priority_High"
  by (auto simp: property_setters enum_bytes)

lemma ttl_roundtrip: "- (2 ^ 63) \<le> n \<Longrightarrow> n < 2 ^ 63 \<Longrightarrow> getTTL (setTTL n m) = n"
  using stoll_int_string [of n]
  by (auto simp: getTTL_def getExpirationDuration_def property_setters int_string_def Let_def)

lemma byte_sum: "foldl (\<lambda>c b. c + ucast b) (a :: u32) d = a + sum_list (map ucast d)"
  by (induction d arbitrary: a) (simp_all add: add.assoc)

lemma int_string_inject: "int_string m = int_string n \<longleftrightarrow> m = n"
  using strto_int_string by (metis option.inject)

lemma checksum_sum:
  "message_verifyChecksum (calculateChecksum m) m' \<longleftrightarrow>
    (sum_list (map ucast (rm_data m')) :: u32) = sum_list (map ucast (rm_data m))"
  by (simp add: message_verifyChecksum_def calculateChecksum_def byte_sum int_string_inject word_uint_eq_iff)

text \<open>The sum notices every change of one byte and no change of the order.\<close>

lemma byte_widened: "(ucast (ucast (b :: u8) :: u32) :: u8) = b"
  by (intro bit_word_eqI) (simp add: bit_simps)

lemma checksum_one_byte:
  assumes "i < length (rm_data m)"
  shows "message_verifyChecksum (calculateChecksum m) (m\<lparr>rm_data := (rm_data m)[i := b]\<rparr>) \<longleftrightarrow>
    b = rm_data m ! i"
proof -
  let ?s = "\<lambda>d. sum_list (map ucast d) :: u32"
  have "?s ((rm_data m)[i := b]) + ucast (rm_data m ! i) = ?s (rm_data m) + ucast b"
  proof -
    have "?s (rm_data m) = ?s (take i (rm_data m)) + ucast (rm_data m ! i) + ?s (drop (Suc i) (rm_data m))"
      by (subst id_take_nth_drop [OF assms]) simp
    moreover have "?s ((rm_data m)[i := b]) = ?s (take i (rm_data m)) + ucast b + ?s (drop (Suc i) (rm_data m))"
      using assms by (simp add: upd_conv_take_nth_drop add.assoc)
    ultimately show ?thesis by simp
  qed
  moreover have "(ucast b :: u32) = ucast c \<longleftrightarrow> b = c" for b c :: u8
    using byte_widened by metis
  ultimately show ?thesis by (simp add: checksum_sum) (metis add_left_cancel add_right_cancel)
qed

lemma checksum_order:
  "mset (rm_data m') = mset (rm_data m) \<Longrightarrow> message_verifyChecksum (calculateChecksum m) m'"
  by (simp add: checksum_sum sum_mset_sum_list [symmetric])

section \<open>AMQP properties\<close>

lemma amqp_properties_roundtrip:
  assumes "CHR 0x00 \<notin> set (mp_contentType (rm_properties m))"
    "CHR 0x00 \<notin> set (mp_messageId (rm_properties m))"
  shows "fromAmqpProperties (toAmqpProperties m) m = Some m"
  using assms
  by (simp add: toAmqpProperties_def fromAmqpProperties_def read_bytes_def property_setters Let_def)

end
