(* ===== verification/Message_Utils.thy ===== *)
theory Message_Utils
  imports Rabbit_Message "HOL-Library.Monad_Syntax"
begin

text \<open>
  \<open>rabbitmq_integration::MessageUtils\<close> (\<open>message.cpp\<close>): conversion to and from the messages of the
  AMQP library, splitting a message into parts and combining parts, filters and counts, and the
  messages built for telemetry, commands, debugging and discarded packets. At the end, a specification
  of the headers of a message and a simulation: its accessors answer what was written.
\<close>

section \<open>AMQP messages\<close>

record amqp_message =
  am_body :: "u8 list"
  am_properties :: amqp_properties

definition convertFromAmqpMessage :: "stamp \<Rightarrow> amqp_message \<Rightarrow> rmessage option" where
  "convertFromAmqpMessage st a =
     (let p = am_properties a
      in Option.bind (read_bytes (ap_content_type p) setContentType (Message_pointer st (Some (am_body a)))) (\<lambda>m.
         Option.bind (read_bytes (ap_message_id p) setMessageId m) (\<lambda>m.
           Some (case ap_delivery_mode p of
               Some d \<Rightarrow> setDeliveryMode (if d = 2 then Persistent else NonPersistent) m
             | None \<Rightarrow> m))))"

text \<open>
  The body is copied. Content type and identifier are read into local strings, and the pointers
  put into the result lead into these, which are gone when the function returns.
\<close>

definition convertToAmqpMessage :: "rmessage \<Rightarrow> amqp_message" where
  "convertToAmqpMessage m =
     \<lparr>am_body = rm_data m,
      am_properties =
        \<lparr>ap_content_type = (if mp_contentType (rm_properties m) = [] then None else Some Dangling),
         ap_message_id = (if mp_messageId (rm_properties m) = [] then None else Some Dangling),
         ap_delivery_mode = Some (if isPersistent m then 2 else 1)\<rparr>\<rparr>"

lemma converted_message_unreadable:
  "convertFromAmqpMessage st (convertToAmqpMessage m) = None \<longleftrightarrow>
    mp_contentType (rm_properties m) \<noteq> [] \<or> mp_messageId (rm_properties m) \<noteq> []"
  by (simp add: convertFromAmqpMessage_def convertToAmqpMessage_def read_bytes_def Let_def)

section \<open>Splitting\<close>

datatype split_fault = Division_By_Zero | Signed_Overflow

text \<open>
  One part: a message of the chunk that takes over all properties, the three headers, and the
  identifier of the whole as its correlation identifier.
\<close>

definition make_part :: "stamp \<Rightarrow> rmessage \<Rightarrow> nat \<Rightarrow> nat \<Rightarrow> u8 list \<Rightarrow> rmessage" where
  "make_part st m maxSize n chunk =
     setCorrelationId (mp_messageId (rm_properties m))
       (setHeader ''totalParts'' (dec_string ((length (rm_data m) + maxSize - 1) div maxSize))
       (setHeader ''partNumber'' (int_string (int n))
       (setHeader ''splitMessage'' ''true''
       (setProperties (rm_properties m) (Message_bytes st chunk)))))"

text \<open>
  The loop. The part number is a signed 32-bit integer that is incremented in every round, and the
  number of parts is a division by \<open>maxSize\<close>. \<open>None\<close> would be a loop that never ends. \<open>sts\<close> gives
  the clock and the random numbers of the parts' constructors.
\<close>

partial_function (option) split_loop ::
    "(nat \<Rightarrow> stamp) \<Rightarrow> rmessage \<Rightarrow> nat \<Rightarrow> nat \<Rightarrow> nat \<Rightarrow> rmessage list \<Rightarrow>
      (split_fault + rmessage list) option" where
  "split_loop sts m maxSize offset n parts =
     (if offset < length (rm_data m)
      then (let chunkSize = min maxSize (length (rm_data m) - offset);
                chunk = take chunkSize (drop offset (rm_data m))
            in if n = 2 ^ 31 - 1 then Some (Inl Signed_Overflow)
               else if maxSize = 0 then Some (Inl Division_By_Zero)
               else split_loop sts m maxSize (offset + chunkSize) (n + 1)
                      (parts @ [make_part (sts n) m maxSize n chunk]))
      else Some (Inr parts))"

definition splitMessage ::
    "(nat \<Rightarrow> stamp) \<Rightarrow> rmessage \<Rightarrow> nat \<Rightarrow> (split_fault + rmessage list) option" where
  "splitMessage sts m maxSize =
     (if length (rm_data m) \<le> maxSize then Some (Inr [m])
      else split_loop sts m maxSize 0 0 [])"

section \<open>Combining\<close>

definition part_number :: "rmessage \<Rightarrow> sto_error + int" where
  "part_number m = stoi (getHeader ''partNumber'' m)"

definition join_parts :: "stamp \<Rightarrow> rmessage list \<Rightarrow> rmessage" where
  "join_parts st ms =
     removeHeader ''totalParts'' (removeHeader ''partNumber'' (removeHeader ''splitMessage''
       (setProperties (rm_properties (hd ms)) (Message_bytes st (concat (map rm_data ms))))))"

text \<open>
  The comparison of the sort converts the part numbers of both messages and throws when one is not
  a number; it is never called for a single message. Messages with equal numbers may come in any
  order in the code; here they stay in theirs. Which of several exceptions is thrown depends on
  the sorting algorithm; here it is the first.
\<close>

definition combineMessages :: "stamp \<Rightarrow> rmessage list \<Rightarrow> sto_error + rmessage" where
  "combineMessages st ms = (case ms of
     [] \<Rightarrow> Inr (Message_default st)
   | [m] \<Rightarrow> Inr (join_parts st [m])
   | _ \<Rightarrow> (case find (\<lambda>m. isl (part_number m)) ms of
       Some m \<Rightarrow> Inl (projl (part_number m))
     | None \<Rightarrow> Inr (join_parts st (sort_key (\<lambda>m. projr (part_number m)) ms))))"

section \<open>What splitting returns\<close>

definition part_count :: "rmessage \<Rightarrow> nat \<Rightarrow> nat" where
  "part_count m maxSize = (length (rm_data m) + maxSize - 1) div maxSize"

definition nth_chunk :: "rmessage \<Rightarrow> nat \<Rightarrow> nat \<Rightarrow> u8 list" where
  "nth_chunk m maxSize i = take maxSize (drop (i * maxSize) (rm_data m))"

definition nth_part :: "(nat \<Rightarrow> stamp) \<Rightarrow> rmessage \<Rightarrow> nat \<Rightarrow> nat \<Rightarrow> rmessage" where
  "nth_part sts m maxSize i = make_part (sts i) m maxSize i (nth_chunk m maxSize i)"

lemma less_part_count: "0 < maxSize \<Longrightarrow> i < part_count m maxSize \<longleftrightarrow> i * maxSize < length (rm_data m)"
  using less_eq_div_iff_mult_less_eq [of maxSize "Suc i" "length (rm_data m) + maxSize - 1"]
  by (auto simp: part_count_def)

lemma split_loop_round:
  assumes "0 < maxSize" "n < part_count m maxSize" "n < 2 ^ 31 - 1"
  shows "split_loop sts m maxSize (min (n * maxSize) (length (rm_data m))) n parts =
    split_loop sts m maxSize (min (Suc n * maxSize) (length (rm_data m))) (Suc n)
      (parts @ [nth_part sts m maxSize n])"
proof -
  have off: "min (n * maxSize) (length (rm_data m)) = n * maxSize" "n * maxSize < length (rm_data m)"
    using assms(1,2) less_part_count by auto
  then have "n * maxSize + min maxSize (length (rm_data m) - n * maxSize) =
      min (Suc n * maxSize) (length (rm_data m))" by auto
  moreover have "take (min maxSize (length (rm_data m) - n * maxSize)) (drop (n * maxSize) (rm_data m)) =
      nth_chunk m maxSize n" by (simp add: nth_chunk_def min_def)
  ultimately show ?thesis
    using assms(1,3) off unfolding off(1)
    by (subst split_loop.simps) (simp add: Let_def nth_part_def)
qed

lemma split_loop_end:
  assumes "0 < maxSize" "part_count m maxSize \<le> n"
  shows "split_loop sts m maxSize (min (n * maxSize) (length (rm_data m))) n parts = Some (Inr parts)"
  using assms less_part_count [of maxSize n m] by (subst split_loop.simps) (simp add: min_def)

lemma split_loop_parts:
  assumes "0 < maxSize" "part_count m maxSize < 2 ^ 31" "n \<le> part_count m maxSize"
  shows "split_loop sts m maxSize (min (n * maxSize) (length (rm_data m))) n parts =
    Some (Inr (parts @ map (nth_part sts m maxSize) [n..<part_count m maxSize]))"
  using assms(3)
proof (induction n arbitrary: parts rule: inc_induct)
  case base
  then show ?case using split_loop_end [OF assms(1)] by simp
next
  case (step n)
  have "n < 2 ^ 31 - 1" using step.hyps assms(2) by linarith
  then show ?case
    using split_loop_round [OF assms(1) step.hyps(2)] step by (simp add: upt_conv_Cons)
qed

lemma split_loop_overflow:
  assumes "0 < maxSize" "2 ^ 31 \<le> part_count m maxSize" "n \<le> 2 ^ 31 - 1"
  shows "split_loop sts m maxSize (min (n * maxSize) (length (rm_data m))) n parts =
    Some (Inl Signed_Overflow)"
  using assms(3)
proof (induction n arbitrary: parts rule: inc_induct)
  case base
  have lt: "(2 ^ 31 - 1) * maxSize < length (rm_data m)"
    using less_part_count [OF assms(1), of "2 ^ 31 - 1" m] assms(2) by simp
  then have "min ((2 ^ 31 - 1) * maxSize) (length (rm_data m)) = (2 ^ 31 - 1) * maxSize"
    by (simp only: min_def) simp
  with lt show ?case by (subst split_loop.simps) (simp only: Let_def if_True simp_thms)
next
  case (step n)
  have "n < part_count m maxSize" using step.hyps assms(2) by linarith
  then show ?case using split_loop_round [OF assms(1)] step by simp
qed

lemma split_loop_zero:
  "rm_data m \<noteq> [] \<Longrightarrow> split_loop sts m 0 0 0 parts = Some (Inl Division_By_Zero)"
  by (subst split_loop.simps) simp

lemma splitMessage_parts:
  assumes "0 < maxSize" "maxSize < length (rm_data m)" "part_count m maxSize < 2 ^ 31"
  shows "splitMessage sts m maxSize =
    Some (Inr (map (nth_part sts m maxSize) [0..<part_count m maxSize]))"
  using split_loop_parts [OF assms(1,3), of 0 sts "[]"] assms(2) by (simp add: splitMessage_def)

lemma make_part_data [simp]: "rm_data (make_part st m maxSize n chunk) = chunk"
  by (simp add: make_part_def setCorrelationId_def setHeader_def with_properties_def
      setProperties_def Message_bytes_def stamped_def updateTimestamp_def set_content_type_def)

lemma nth_part_data [simp]: "rm_data (nth_part sts m maxSize i) = nth_chunk m maxSize i"
  by (simp add: nth_part_def)

lemma concat_chunks: "concat (map (nth_chunk m s) [0..<k]) = take (k * s) (rm_data m)"
proof (induction k)
  case (Suc k)
  have "take (k * s) (rm_data m) @ take s (drop (k * s) (rm_data m)) = take (k * s + s) (rm_data m)"
    by (simp add: take_add)
  with Suc show ?case by (simp add: nth_chunk_def add.commute)
qed simp

lemma chunks_complete:
  assumes "0 < s"
  shows "concat (map (nth_chunk m s) [0..<part_count m s]) = rm_data m"
proof -
  have "length (rm_data m) \<le> part_count m s * s"
    using less_part_count [OF assms, of "part_count m s" m] by simp
  then show ?thesis by (simp add: concat_chunks)
qed

lemma chunk_length:
  "0 < s \<Longrightarrow> i < part_count m s \<Longrightarrow> 0 < length (nth_chunk m s i) \<and> length (nth_chunk m s i) \<le> s"
  using less_part_count [of s i m] by (simp add: nth_chunk_def)

text \<open>What a call gives, as one equation.\<close>

lemma splitMessage_cases:
  "splitMessage sts m maxSize =
     (if length (rm_data m) \<le> maxSize then Some (Inr [m])
      else if maxSize = 0 then Some (Inl Division_By_Zero)
      else if 2 ^ 31 \<le> part_count m maxSize then Some (Inl Signed_Overflow)
      else Some (Inr (map (nth_part sts m maxSize) [0..<part_count m maxSize])))"
proof -
  consider (fits) "length (rm_data m) \<le> maxSize"
    | (zero) "maxSize = 0" "rm_data m \<noteq> []"
    | (many) "0 < maxSize" "maxSize < length (rm_data m)" "2 ^ 31 \<le> part_count m maxSize"
    | (parts) "0 < maxSize" "maxSize < length (rm_data m)" "part_count m maxSize < 2 ^ 31"
    by fastforce
  then show ?thesis
  proof cases
    case many
    with split_loop_overflow [OF many(1,3), of 0 sts "[]"] show ?thesis by (simp add: splitMessage_def)
  next
    case parts
    with splitMessage_parts [OF parts] show ?thesis by simp
  qed (simp_all add: splitMessage_def split_loop_zero)
qed

lemma part_count_fits: "0 < s \<Longrightarrow> length (rm_data m) \<le> s \<Longrightarrow> part_count m s \<le> 1"
  using less_part_count [of s 1 m] by simp

text \<open>
  C22. Splitting always returns. It divides by zero exactly when the size limit is zero and
  there is data, and it overflows the part counter exactly when more than \<open>2^31 - 1\<close> parts are
  needed; otherwise it returns the message itself when it fits, and else the least number of
  parts, none of them empty, none above the limit, with the data in order.
\<close>

theorem splitMessage_returns:
  "\<exists>r. splitMessage sts m maxSize = Some r \<and>
     (r = Inl Division_By_Zero \<longleftrightarrow> maxSize = 0 \<and> rm_data m \<noteq> []) \<and>
     (r = Inl Signed_Overflow \<longleftrightarrow> 0 < maxSize \<and> 2 ^ 31 \<le> part_count m maxSize) \<and>
     (case r of
        Inl fault \<Rightarrow> True
      | Inr parts \<Rightarrow>
          if length (rm_data m) \<le> maxSize then parts = [m]
          else length parts = part_count m maxSize \<and> length parts < 2 ^ 31 \<and>
            concat (map rm_data parts) = rm_data m \<and>
            list_all (\<lambda>p. 0 < length (rm_data p) \<and> length (rm_data p) \<le> maxSize) parts)"
proof (cases "length (rm_data m) \<le> maxSize")
  case True
  with part_count_fits [of maxSize m] show ?thesis
    by (cases "maxSize = 0") (auto simp: splitMessage_cases)
next
  case False
  have "list_all (\<lambda>p. 0 < length (rm_data p) \<and> length (rm_data p) \<le> maxSize)
      (map (nth_part sts m maxSize) [0..<part_count m maxSize])" if "0 < maxSize"
    using chunk_length [OF that] by (auto simp: list_all_iff)
  with False show ?thesis
    by (cases "maxSize = 0"; cases "2 ^ 31 \<le> part_count m maxSize")
      (auto simp: splitMessage_cases chunks_complete o_def)
qed

section \<open>Combining the parts\<close>

definition reserved_headers :: "string list" where
  "reserved_headers = [''splitMessage'', ''partNumber'', ''totalParts'']"

definition unreserved :: "headers \<Rightarrow> headers" where
  "unreserved hs = filter (\<lambda>(k, v). k \<notin> set reserved_headers) hs"

text \<open>
  What is left of a message after its parts were combined: the headers that splitting uses are
  gone, and where there was more than one part, the correlation identifier has been replaced.
\<close>

definition recombined :: "nat \<Rightarrow> rmessage \<Rightarrow> rmessage" where
  "recombined maxSize m =
     (let p = rm_properties m
      in m\<lparr>rm_properties := p
           \<lparr>mp_headers := unreserved (mp_headers p),
            mp_correlationId := (if length (rm_data m) \<le> maxSize then mp_correlationId p
                                 else mp_messageId p)\<rparr>\<rparr>)"

lemma unreserved_del:
  "al_del ''totalParts'' (al_del ''partNumber'' (al_del ''splitMessage'' hs)) = unreserved hs"
  by (auto simp: al_del_def unreserved_def reserved_headers_def intro!: filter_cong)

definition part_headers :: "rmessage \<Rightarrow> nat \<Rightarrow> nat \<Rightarrow> headers" where
  "part_headers m maxSize i =
     om_set ''totalParts'' (dec_string (part_count m maxSize))
       (om_set ''partNumber'' (int_string (int i))
         (om_set ''splitMessage'' ''true'' (mp_headers (rm_properties m))))"

lemma nth_part_properties:
  "rm_properties (nth_part sts m maxSize i) = (rm_properties m)
     \<lparr>mp_headers := part_headers m maxSize i, mp_correlationId := mp_messageId (rm_properties m)\<rparr>"
  by (simp add: nth_part_def make_part_def part_headers_def part_count_def setCorrelationId_def
      setHeader_def with_properties_def setProperties_def)

lemma part_headers_wf: "message_wf m \<Longrightarrow> om_wf (part_headers m maxSize i)"
  by (simp add: part_headers_def message_wf_def)

lemma unreserved_part_headers:
  assumes "message_wf m"
  shows "unreserved (part_headers m maxSize i) = unreserved (mp_headers (rm_properties m))"
proof (rule om_ext)
  have wf: "om_wf (mp_headers (rm_properties m))" using assms by (simp add: message_wf_def)
  then show "om_wf (unreserved (mp_headers (rm_properties m)))"
    by (simp add: unreserved_def om_wf_filter)
  show "om_wf (unreserved (part_headers m maxSize i))"
    using part_headers_wf [OF assms] by (simp add: unreserved_def om_wf_filter)
  show "map_of (unreserved (part_headers m maxSize i)) = map_of (unreserved (mp_headers (rm_properties m)))"
    using wf unfolding unreserved_del [symmetric] by (simp add: part_headers_def fun_eq_iff)
qed

lemma nth_part_number:
  "message_wf m \<Longrightarrow> i < 2 ^ 31 \<Longrightarrow> part_number (nth_part sts m maxSize i) = Inr (int i)"
  using stoi_int_string [of "int i"]
  by (simp add: part_number_def getHeader_def getHeaderString_def nth_part_properties
      part_headers_def message_wf_def)

lemma sorted_parts:
  assumes "message_wf m" "k < 2 ^ 31" "mset ms = mset (map (nth_part sts m s) [0..<k])"
  shows "sort_key (\<lambda>m. projr (part_number m)) ms = map (nth_part sts m s) [0..<k]"
proof (rule sort_key_inj_key_eq [OF assms(3)])
  have num: "projr (part_number (nth_part sts m s i)) = int i" if "i < k" for i
    using nth_part_number [OF assms(1), of i] that assms(2) by simp
  have "set ms = nth_part sts m s ` {0..<k}"
    using mset_eq_setD [OF assms(3)] by simp
  then show "inj_on (\<lambda>m. projr (part_number m)) (set ms)"
    using num by (auto simp: inj_on_def)
  show "sorted (map (\<lambda>m. projr (part_number m)) (map (nth_part sts m s) [0..<k]))"
    using num by (auto simp: sorted_iff_nth_mono)
qed

lemma combine_many:
  assumes "message_wf m" "0 < s" "s < length (rm_data m)" "part_count m s < 2 ^ 31"
    "mset ms = mset (map (nth_part sts m s) [0..<part_count m s])"
  shows "combineMessages st ms = Inr (join_parts st (map (nth_part sts m s) [0..<part_count m s]))"
proof -
  have "1 < part_count m s" using less_part_count [OF assms(2), of 1 m] assms(3) by simp
  then have "1 < length ms" using mset_eq_length [OF assms(5)] by simp
  then obtain a b r where ms: "ms = a # b # r"
    by (metis One_nat_def length_0_conv length_Cons less_numeral_extra(4) less_one list.exhaust not_less_zero)
  have "\<not> isl (part_number p)" if "p \<in> set ms" for p
    using that mset_eq_setD [OF assms(5)] nth_part_number [OF assms(1)] assms(4) by auto
  then have "find (\<lambda>m. isl (part_number m)) ms = None" by (simp add: find_None_iff)
  then show ?thesis
    using sorted_parts [OF assms(1,4,5)] unfolding ms by (simp add: combineMessages_def)
qed

lemma join_nth_parts:
  assumes "message_wf m" "0 < s" "s < length (rm_data m)"
  shows "join_parts st (map (nth_part sts m s) [0..<part_count m s]) = recombined s m"
proof -
  have "0 < part_count m s" using less_part_count [OF assms(2), of 0 m] assms(3) by auto
  then have "hd (map (nth_part sts m s) [0..<part_count m s]) = nth_part sts m s 0"
    by (simp add: hd_map)
  moreover have "concat (map rm_data (map (nth_part sts m s) [0..<part_count m s])) = rm_data m"
    using chunks_complete [OF assms(2)] by (simp add: o_def)
  ultimately show ?thesis
    using assms(3) unfolding join_parts_def recombined_def
    by (simp add: removeHeader_def with_properties_def setProperties_def nth_part_properties
        Message_bytes_def stamped_def updateTimestamp_def set_content_type_def Let_def
        unreserved_del unreserved_part_headers [OF assms(1)])
qed

text \<open>
  C11. Splitting and combining. The parts of a message, in whatever order they arrive, are
  combined into the message again: same payload and properties, except that headers of the three
  names splitting uses are dropped, and that the correlation identifier of a message that had to
  be divided is lost, its own identifier standing in its place.
\<close>

theorem combine_split:
  assumes "message_wf m" "splitMessage sts m maxSize = Some (Inr parts)" "mset arrived = mset parts"
  shows "combineMessages st arrived = Inr (recombined maxSize m)"
proof (cases "length (rm_data m) \<le> maxSize")
  case True
  then have "parts = [m]" using assms(2) by (simp add: splitMessage_def)
  with assms(3) have "arrived = [m]" by simp
  with True show ?thesis
    by (simp add: combineMessages_def join_parts_def recombined_def removeHeader_def with_properties_def
        setProperties_def Message_bytes_def stamped_def updateTimestamp_def set_content_type_def
        unreserved_del Let_def)
next
  case False
  with assms(2) have s: "0 < maxSize" "part_count m maxSize < 2 ^ 31"
      "parts = map (nth_part sts m maxSize) [0..<part_count m maxSize]"
    by (simp_all add: splitMessage_cases split: if_splits)
  with False assms(1,3) show ?thesis
    using combine_many join_nth_parts by (simp add: not_le)
qed

theorem combine_split_witness:
  "let m = setCorrelationId ''c'' (setHeader ''k'' ''v'' (Message_string sample_stamp ''hello''));
       parts = map (nth_part (\<lambda>_. sample_stamp) m 2) [0..<3]
   in splitMessage (\<lambda>_. sample_stamp) m 2 = Some (Inr parts) \<and>
      combineMessages sample_stamp (rev parts) = Inr (recombined 2 m) \<and>
      mp_correlationId (rm_properties (recombined 2 m)) = mp_messageId (rm_properties m)"
proof -
  let ?m = "setCorrelationId ''c'' (setHeader ''k'' ''v'' (Message_string sample_stamp ''hello''))"
  let ?parts = "map (nth_part (\<lambda>_. sample_stamp) ?m 2) [0..<3]"
  have len: "length (rm_data ?m) = 5"
    by (simp add: Message_string_def setData_string_def stamped_def property_setters setHeader_def)
  then have "part_count ?m 2 = 3" by (simp add: part_count_def)
  then have "splitMessage (\<lambda>_. sample_stamp) ?m 2 = Some (Inr ?parts)"
    using splitMessage_parts [of 2 ?m "\<lambda>_. sample_stamp"] len by simp
  moreover have "message_wf ?m"
    by (intro setters_wf headers_wf constructors_wf) (simp add: sample_stamp_def clock_range_def)
  ultimately show ?thesis
    using combine_split [of ?m "\<lambda>_. sample_stamp" 2 ?parts "rev ?parts" sample_stamp] len
    by (simp add: Let_def recombined_def)
qed

section \<open>Filters and counts\<close>

definition has_substring :: "string \<Rightarrow> string \<Rightarrow> bool" where
  "has_substring p s = list_ex (\<lambda>i. take (length p) (drop i s) = p) [0..<Suc (length s)]"

definition matchesFilter :: "rmessage \<Rightarrow> string \<Rightarrow> bool" where
  "matchesFilter m flt =
     (if flt = [] then True
      else if mp_type (rm_properties m) = flt then True
      else if list_ex (\<lambda>(k, v). k = flt \<or> v = flt) (mp_headers (rm_properties m)) then True
      else has_substring flt (message_toString True m))"

definition filterMessages :: "rmessage list \<Rightarrow> string \<Rightarrow> rmessage list" where
  "filterMessages ms flt = filter (\<lambda>m. matchesFilter m flt) ms"

definition calculateTotalSize :: "rmessage list \<Rightarrow> u64" where
  "calculateTotalSize ms = foldl (\<lambda>n m. n + word_of_nat (length (rm_data m))) 0 ms"

definition getMessageTypeStats :: "rmessage list \<Rightarrow> (string \<times> u64) list" where
  "getMessageTypeStats ms = foldl (\<lambda>st m.
     let t = mp_type (rm_properties m); ty = (if t = [] then ''unknown'' else t)
     in om_set ty ((case map_of st ty of Some n \<Rightarrow> n | None \<Rightarrow> 0) + 1) st) [] ms"

text \<open>\<open>std::vector::size()\<close> fits into 64 bits, and every message is counted once under its type.\<close>

lemma type_stats_wf: "om_wf (getMessageTypeStats ms)"
proof -
  have "om_wf st \<Longrightarrow> om_wf (foldl (\<lambda>st m.
     let t = mp_type (rm_properties m); ty = (if t = [] then ''unknown'' else t)
     in om_set ty ((case map_of st ty of Some n \<Rightarrow> n | None \<Rightarrow> (0 :: u64)) + 1) st) st ms)" for st
    by (induction ms arbitrary: st) (simp_all add: Let_def)
  then show ?thesis by (simp add: getMessageTypeStats_def)
qed

section \<open>Messages for each purpose\<close>

text \<open>
  The first group of overloads, which the header does not declare. \<open>now\<close> is the clock in
  milliseconds when the JSON value is built.
\<close>

definition device_message_of ::
    "json_lib \<Rightarrow> stamp \<Rightarrow> (string \<times> json) list \<Rightarrow> string \<Rightarrow> (string \<times> string) list \<Rightarrow> bool \<Rightarrow>
      json_error fault + rmessage" where
  "device_message_of L st kvs ty hs persistent =
     and_then (Message_json L st (json_object kvs)) (\<lambda>m.
       Inr (setPersistent persistent (foldl (\<lambda>m (k, v). setHeader k v m) (setType ty m) hs)))"

definition createTelemetryMessage_device ::
    "json_lib \<Rightarrow> stamp \<Rightarrow> int \<Rightarrow> string \<Rightarrow> json \<Rightarrow> json_error fault + rmessage" where
  "createTelemetryMessage_device L st now deviceId telemetry =
     device_message_of L st
       [(''deviceId'', JStr deviceId), (''type'', JStr ''telemetry''), (''timestamp'', JInt now),
        (''data'', telemetry)]
       ''telemetry'' [(''deviceId'', deviceId)] True"

definition createCommandMessage_device ::
    "json_lib \<Rightarrow> stamp \<Rightarrow> int \<Rightarrow> string \<Rightarrow> string \<Rightarrow> json \<Rightarrow> json_error fault + rmessage" where
  "createCommandMessage_device L st now deviceId command parameters =
     device_message_of L st
       [(''deviceId'', JStr deviceId), (''type'', JStr ''command''), (''command'', JStr command),
        (''parameters'', parameters), (''timestamp'', JInt now)]
       ''command'' [(''deviceId'', deviceId), (''command'', command)] True"

definition createDebugMessage_device ::
    "json_lib \<Rightarrow> stamp \<Rightarrow> int \<Rightarrow> string \<Rightarrow> string \<Rightarrow> string \<Rightarrow> json_error fault + rmessage" where
  "createDebugMessage_device L st now deviceId info level =
     device_message_of L st
       [(''deviceId'', JStr deviceId), (''type'', JStr ''debug''), (''level'', JStr level),
        (''message'', JStr info), (''timestamp'', JInt now)]
       ''debug'' [(''deviceId'', deviceId), (''level'', level)] False"

definition createDiscardMessage_device ::
    "json_lib \<Rightarrow> stamp \<Rightarrow> int \<Rightarrow> string \<Rightarrow> string \<Rightarrow> u8 list \<Rightarrow> json_error fault + rmessage" where
  "createDiscardMessage_device L st now deviceId reason original =
     device_message_of L st
       [(''deviceId'', JStr deviceId), (''type'', JStr ''discard''), (''reason'', JStr reason),
        (''originalSize'', JInt (int (length original))), (''timestamp'', JInt now)]
       ''discard'' [(''deviceId'', deviceId), (''reason'', reason)] True"

definition generateRoutingKey :: "string \<Rightarrow> string \<Rightarrow> string \<Rightarrow> string" where
  "generateRoutingKey region deviceId messageType = region @ ''.'' @ deviceId @ ''.'' @ messageType"

definition utils_generateQueueName :: "string \<Rightarrow> string \<Rightarrow> string \<Rightarrow> string" where
  "utils_generateQueueName region deviceId queueType = region @ ''.'' @ deviceId @ ''_'' @ queueType"

text \<open>The overloads that \<open>message.hpp\<close> declares.\<close>

definition createTelemetryMessage ::
    "json_lib \<Rightarrow> stamp \<Rightarrow> int \<Rightarrow> string \<Rightarrow> fp \<Rightarrow> fp \<Rightarrow> fp \<Rightarrow> fp \<Rightarrow> json \<Rightarrow>
      json_error fault + rmessage" where
  "createTelemetryMessage L st now imei latitude longitude speed battery custom =
     and_then (createJsonMessage L st (json_object
        ([(''imei'', JStr imei), (''latitude'', JReal latitude), (''longitude'', JReal longitude),
          (''speed'', JReal speed), (''battery'', JReal battery), (''timestamp'', JInt now),
          (''location'', json_object [(''latitude'', JReal latitude), (''longitude'', JReal longitude)])]
         @ (if json_empty custom then [] else [(''custom'', custom)]))))
       (\<lambda>m. Inr (setDeliveryMode Persistent (setHeader ''imei'' imei (setType ''telemetry'' m))))"

definition createCommandMessage ::
    "json_lib \<Rightarrow> stamp \<Rightarrow> int \<Rightarrow> string \<Rightarrow> json \<Rightarrow> string \<Rightarrow> json_error fault + rmessage" where
  "createCommandMessage L st now command params correlationId =
     and_then (createJsonMessage L st (json_object
        [(''command'', JStr command), (''parameters'', params), (''timestamp'', JInt now)]))
       (\<lambda>m. let m' = setDeliveryMode Persistent (setType ''command'' m)
            in Inr (if correlationId = [] then m' else setCorrelationId correlationId m'))"

definition createDebugMessage ::
    "json_lib \<Rightarrow> stamp \<Rightarrow> int \<Rightarrow> string \<Rightarrow> string \<Rightarrow> json \<Rightarrow> json_error fault + rmessage" where
  "createDebugMessage L st now imei debugType debugData =
     and_then (createJsonMessage L st (json_object
        [(''imei'', JStr imei), (''debugType'', JStr debugType), (''data'', debugData),
         (''timestamp'', JInt now)]))
       (\<lambda>m. Inr (setHeader ''debugType'' debugType (setHeader ''imei'' imei (setType ''debug'' m))))"

definition createDiscardMessage ::
    "json_lib \<Rightarrow> stamp \<Rightarrow> int \<Rightarrow> string \<Rightarrow> string \<Rightarrow> json \<Rightarrow> json_error fault + rmessage" where
  "createDiscardMessage L st now imei reason originalData =
     and_then (createJsonMessage L st (json_object
        [(''imei'', JStr imei), (''reason'', JStr reason), (''originalData'', originalData),
         (''timestamp'', JInt now)]))
       (\<lambda>m. Inr (setHeader ''reason'' reason (setHeader ''imei'' imei (setType ''discard'' m))))"

definition isValidTelemetryMessage :: "json_lib \<Rightarrow> rmessage \<Rightarrow> bool" where
  "isValidTelemetryMessage L m \<longleftrightarrow> mp_type (rm_properties m) = ''telemetry'' \<and>
     (case getContentJson L m of
        Some j \<Rightarrow> json_contains ''imei'' j \<and> json_contains ''latitude'' j \<and> json_contains ''longitude'' j
      | None \<Rightarrow> False)"

definition isValidCommandMessage :: "json_lib \<Rightarrow> rmessage \<Rightarrow> bool" where
  "isValidCommandMessage L m \<longleftrightarrow> mp_type (rm_properties m) = ''command'' \<and>
     (case getContentJson L m of Some j \<Rightarrow> json_contains ''command'' j | None \<Rightarrow> False)"

definition extractImei :: "json_lib \<Rightarrow> rmessage \<Rightarrow> string" where
  "extractImei L m =
     (if hasHeader ''imei'' m then getHeader ''imei'' m
      else (case getContentJson L m of
          Some j \<Rightarrow> if json_contains ''imei'' j
                    then (case and_then (json_member ''imei'' j) json_string of
                        Inr s \<Rightarrow> s | Inl _ \<Rightarrow> [])
                    else []
        | None \<Rightarrow> []))"

definition generateCorrelationId :: "stamp \<Rightarrow> string" where
  "generateCorrelationId st = ''corr_'' @ int_string (st_idMillis st) @ ''_'' @ int_string (st_draw st)"

definition utils_generateMessageId :: "stamp \<Rightarrow> string" where
  "utils_generateMessageId st = ''msg-'' @ int_string (st_idMillis st) @ ''-'' @ int_string (st_draw st)"

section \<open>What the built messages hold\<close>

lemma json_message_text:
  assumes "Message_json L st j = Inr m"
  obtains s where "jl_dump L j = Some s" "rm_data m = map byte_of_char s"
    "mp_headers (rm_properties m) = []" "mp_messageId (rm_properties m) = generateMessageId st"
  using assms
  by (auto simp: Message_json_def setData_json_def json_dump_def and_then_Inr_iff stamped_def
      property_setters setData_string_def blank_message_def new_properties_def split: option.splits)

lemma json_message_content:
  assumes "json_laws L" "json_plain j" "createJsonMessage L st j = Inr m" "rm_data m' = rm_data m"
  shows "getContentJson L m' = Some j"
proof -
  obtain m0 where m0: "Message_json L st j = Inr m0" "m = setContentType ''application/json'' m0"
    using assms(3) by (auto simp: createJsonMessage_def and_then_Inr_iff)
  from m0(1) obtain s where "jl_dump L j = Some s" "rm_data m0 = map byte_of_char s"
    by (rule json_message_text)
  with m0(2) assms(4) json_lawsD(1) [OF assms(1,2)] show ?thesis
    by (simp add: getContentJson_def isValidJson_def getContentString_def property_setters o_def)
qed

lemmas built_simps = property_setters setHeader_def getHeader_def getHeaderString_def hasHeader_def

lemma telemetry_recognised:
  assumes "json_laws L" "createTelemetryMessage L st now imei (Fin la) (Fin lo) (Fin sp) (Fin ba) custom = Inr m"
    "json_plain custom" "- (2 ^ 63) \<le> now" "now < 2 ^ 63"
  shows "isValidTelemetryMessage L m" "extractImei L m = imei" "isPersistent m"
proof -
  define kvs where "kvs = [(''imei'', JStr imei), (''latitude'', JReal (Fin la)),
      (''longitude'', JReal (Fin lo)), (''speed'', JReal (Fin sp)), (''battery'', JReal (Fin ba)),
      (''timestamp'', JInt now),
      (''location'', json_object [(''latitude'', JReal (Fin la)), (''longitude'', JReal (Fin lo))])]
      @ (if json_empty custom then [] else [(''custom'', custom)])"
  obtain m0 where m0: "createJsonMessage L st (json_object kvs) = Inr m0"
    and m: "m = setDeliveryMode Persistent (setHeader ''imei'' imei (setType ''telemetry'' m0))"
    using assms(2) unfolding createTelemetryMessage_def kvs_def by (auto simp: and_then_Inr_iff)
  have "json_plain (json_object kvs)"
    using assms(3-5) unfolding kvs_def
    by (intro json_plain_object) (auto intro!: json_plain_object)
  then have content: "getContentJson L m = Some (json_object kvs)"
    by (rule json_message_content [OF assms(1) _ m0]) (simp add: m built_simps)
  have "om_wf (mp_headers (rm_properties m0))"
    using m0 by (auto simp: createJsonMessage_def and_then_Inr_iff property_setters elim: json_message_text)
  then have header: "getHeaderString ''imei'' m = Some imei" by (simp add: m built_simps)
  have "mp_type (rm_properties m) = ''telemetry''" by (simp add: m built_simps)
  with content show "isValidTelemetryMessage L m"
    by (simp add: isValidTelemetryMessage_def kvs_def json_object_members)
  show "extractImei L m = imei" using header by (simp add: extractImei_def hasHeader_def getHeader_def)
  show "isPersistent m" by (simp add: m built_simps isPersistent_def)
qed

section \<open>What a message answers\<close>

text \<open>The calls that change a message; an integer of a header or a life time has 64 bits.\<close>

datatype message_call =
    MC_data "u8 list" ticks | MC_text string ticks | MC_pointer "u8 list option" ticks
  | MC_json json ticks | MC_content_type string | MC_id string | MC_correlation string
  | MC_header string string | MC_header_int string u64 | MC_header_bool string bool
  | MC_headers headers | MC_remove string | MC_clear_headers
  | MC_priority u8 | MC_priority_value u8 | MC_persistent bool | MC_ttl u64 | MC_time ticks
  | MC_clear

fun apply_message_call :: "json_lib \<Rightarrow> message_call \<Rightarrow> rmessage \<Rightarrow> rmessage" where
  "apply_message_call L (MC_data d t) m = setData d t m"
| "apply_message_call L (MC_text s t) m = setContent_string s t m"
| "apply_message_call L (MC_pointer p t) m = setContent_pointer p t m"
| "apply_message_call L (MC_json j t) m = snd (fromJson L j t m)"
| "apply_message_call L (MC_content_type s) m = setContentType s m"
| "apply_message_call L (MC_id s) m = setMessageId s m"
| "apply_message_call L (MC_correlation s) m = setCorrelationId s m"
| "apply_message_call L (MC_header k v) m = setHeader k v m"
| "apply_message_call L (MC_header_int k w) m = setHeader_int k (sint w) m"
| "apply_message_call L (MC_header_bool k b) m = setHeader_bool k b m"
| "apply_message_call L (MC_headers hs) m = setHeaders hs m"
| "apply_message_call L (MC_remove k) m = removeHeader k m"
| "apply_message_call L MC_clear_headers m = clearHeaders m"
| "apply_message_call L (MC_priority q) m = setPriority q m"
| "apply_message_call L (MC_priority_value q) m = setPriority_value q m"
| "apply_message_call L (MC_persistent b) m = setPersistent b m"
| "apply_message_call L (MC_ttl w) m = setTTL (sint w) m"
| "apply_message_call L (MC_time t) m = setTimestamp t m"
| "apply_message_call L MC_clear m = message_clear m"

definition run_message_calls :: "json_lib \<Rightarrow> message_call list \<Rightarrow> rmessage \<Rightarrow> rmessage" where
  "run_message_calls L calls m = foldl (\<lambda>m c. apply_message_call L c m) m calls"

text \<open>
  The specification: a map from names to values that keep the type they were written with, and a
  life time. What the accessors answer is a function of the value.
\<close>

datatype header_value = Text string | Number int | Truth bool

fun header_step :: "message_call \<Rightarrow> (string \<Rightarrow> header_value option) \<Rightarrow> (string \<Rightarrow> header_value option)" where
  "header_step (MC_header k v) h = h(k \<mapsto> Text v)"
| "header_step (MC_header_int k w) h = h(k \<mapsto> Number (sint w))"
| "header_step (MC_header_bool k b) h = h(k \<mapsto> Truth b)"
| "header_step (MC_headers hs) h = foldl (\<lambda>h (k, v). h(k \<mapsto> Text v)) h hs"
| "header_step (MC_remove k) h = h(k := None)"
| "header_step MC_clear_headers h = Map.empty"
| "header_step MC_clear h = Map.empty"
| "header_step (MC_data d t) h = h" | "header_step (MC_text s t) h = h"
| "header_step (MC_pointer p t) h = h" | "header_step (MC_json j t) h = h"
| "header_step (MC_content_type s) h = h" | "header_step (MC_id s) h = h"
| "header_step (MC_correlation s) h = h" | "header_step (MC_priority q) h = h"
| "header_step (MC_priority_value q) h = h" | "header_step (MC_persistent b) h = h"
| "header_step (MC_ttl w) h = h" | "header_step (MC_time t) h = h"

definition written_headers :: "message_call list \<Rightarrow> string \<Rightarrow> header_value option" where
  "written_headers calls = foldl (\<lambda>h c. header_step c h) Map.empty calls"

fun ttl_step :: "int \<Rightarrow> message_call \<Rightarrow> int" where
  "ttl_step t (MC_ttl w) = sint w"
| "ttl_step t MC_clear = 0"
| "ttl_step t c = t"

fun value_text :: "header_value \<Rightarrow> string" where
  "value_text (Text s) = s"
| "value_text (Number n) = int_string n"
| "value_text (Truth b) = (if b then ''true'' else ''false'')"

fun value_int :: "header_value \<Rightarrow> int option" where
  "value_int (Text s) = (case stoll s of Inr n \<Rightarrow> Some n | Inl e \<Rightarrow> None)"
| "value_int (Number n) = Some n"
| "value_int (Truth b) = None"

fun value_bool :: "header_value \<Rightarrow> bool" where
  "value_bool (Text s) \<longleftrightarrow> s = ''true'' \<or> s = ''1''"
| "value_bool (Number n) \<longleftrightarrow> n = 1"
| "value_bool (Truth b) \<longleftrightarrow> b"

fun value_ok :: "header_value \<Rightarrow> bool" where
  "value_ok (Number n) \<longleftrightarrow> - (2 ^ 63) \<le> n \<and> n < 2 ^ 63"
| "value_ok v \<longleftrightarrow> True"

lemma texts_not_numbers:
  "int_string 1 = ''1''" "strto 10 ''1'' = Some 1" "strto 10 ''true'' = None" "strto 10 ''false'' = None"
  by code_simp+

lemma int_string_texts: "int_string n = ''1'' \<longleftrightarrow> n = 1" "int_string n \<noteq> ''true''"
proof -
  show "int_string n = ''1'' \<longleftrightarrow> n = 1"
    using texts_not_numbers(1,2) strto_int_string [of n] by (metis option.inject)
  show "int_string n \<noteq> ''true''"
    using texts_not_numbers(3) strto_int_string [of n] by force
qed

lemma value_accessors:
  assumes "value_ok v"
  shows "(case stoll (value_text v) of Inr n \<Rightarrow> Some n | Inl e \<Rightarrow> None) = value_int v"
    "value_text v = ''true'' \<or> value_text v = ''1'' \<longleftrightarrow> value_bool v"
proof -
  show "(case stoll (value_text v) of Inr n \<Rightarrow> Some n | Inl e \<Rightarrow> None) = value_int v"
  proof (cases v)
    case (Number n)
    with assms show ?thesis by (simp add: stoll_int_string)
  next
    case (Truth b)
    then show ?thesis by (simp add: stoll_def sto_signed_def texts_not_numbers)
  qed simp
  show "value_text v = ''true'' \<or> value_text v = ''1'' \<longleftrightarrow> value_bool v"
    by (cases v) (simp_all add: int_string_texts)
qed

text \<open>The simulation.\<close>

definition mirrors :: "(string \<Rightarrow> header_value option) \<Rightarrow> int \<Rightarrow> rmessage \<Rightarrow> bool" where
  "mirrors h t m \<longleftrightarrow>
     om_wf (mp_headers (rm_properties m)) \<and>
     map_of (mp_headers (rm_properties m)) = (\<lambda>k. map_option value_text (h k)) \<and>
     (\<forall>k v. h k = Some v \<longrightarrow> value_ok v) \<and>
     getTTL m = t \<and> - (2 ^ 63) \<le> t \<and> t < 2 ^ 63"

lemma foldl_texts:
  "foldl (\<lambda>h (k, v). h(k \<mapsto> Text v)) h hs = h ++ (\<lambda>k. map_option Text (map_of (rev hs) k))"
  by (induction hs arbitrary: h) (auto simp: fun_eq_iff map_add_def split: option.split)

lemma sint64_range: "- (2 ^ 63) \<le> sint (w :: u64)" "sint (w :: u64) < 2 ^ 63"
  using sint_greater_eq [of w] sint_less [of w] by simp_all

lemma getTTL_of: "getTTL m = (case mp_expiration (rm_properties m) of [] \<Rightarrow> 0
    | e \<Rightarrow> (case stoll e of Inr n \<Rightarrow> n | Inl _ \<Rightarrow> 0))"
  by (simp add: getTTL_def getExpirationDuration_def Let_def split: list.split sum.split)

lemma int_string_nonempty: "int_string n \<noteq> []"
  using strto_int_string [of n] by (auto simp: strto_def take_sign_def skip_prefix_def)

lemma mirrors_same:
  assumes "mirrors h t m" "mp_headers (rm_properties m') = mp_headers (rm_properties m)"
    "mp_expiration (rm_properties m') = mp_expiration (rm_properties m)"
  shows "mirrors h t m'"
  using assms by (simp add: mirrors_def getTTL_of)

lemma fromJson_properties:
  "mp_headers (rm_properties (snd (fromJson L j t m))) = mp_headers (rm_properties m)"
  "mp_expiration (rm_properties (snd (fromJson L j t m))) = mp_expiration (rm_properties m)"
  by (auto simp: fromJson_def setData_json_def setData_string_def property_setters and_then_Inr_iff
      split: sum.split)

lemma mirrors_step:
  assumes "mirrors h t m"
  shows "mirrors (header_step c h) (ttl_step t c) (apply_message_call L c m)"
proof (cases c)
  case (MC_json j s)
  with mirrors_same [OF assms fromJson_properties] show ?thesis by simp
next
  case (MC_ttl w)
  have "getTTL (setTTL (sint w) m) = sint w"
    using stoll_int_string [OF sint64_range [of w]] int_string_nonempty [of "sint w"]
    by (cases "int_string (sint w)") (simp_all add: getTTL_of property_setters)
  with assms MC_ttl sint64_range [of w] show ?thesis by (simp add: mirrors_def property_setters)
next
  case MC_clear
  then show ?thesis
    by (simp add: mirrors_def message_clear_def blank_message_def new_properties_def getTTL_of)
next
  case (MC_headers hs)
  have "map_of (om_merge hs (mp_headers (rm_properties m))) k =
      map_option value_text (header_step c h k)" for k
    using assms MC_headers
    by (simp add: mirrors_def map_of_om_merge foldl_texts map_add_def option.map_comp comp_def split: option.split)
  moreover have "header_step c h k = Some v \<Longrightarrow> value_ok v" for k v
    using assms MC_headers by (auto simp: mirrors_def foldl_texts map_add_def split: option.splits)
  ultimately show ?thesis
    using assms MC_headers by (simp add: mirrors_def setHeaders_def with_properties_def getTTL_of fun_eq_iff)
qed (use assms sint64_range in \<open>auto simp: mirrors_def setHeader_def setHeader_int_def setHeader_bool_def
    removeHeader_def clearHeaders_def property_setters getTTL_of fun_eq_iff setData_def setData_string_def
    setData_pointer_def setContent_string_def setContent_pointer_def split: option.splits\<close>)

lemma mirrors_run:
  "mirrors h t m \<Longrightarrow>
    mirrors (foldl (\<lambda>h c. header_step c h) h calls) (foldl ttl_step t calls) (run_message_calls L calls m)"
  unfolding run_message_calls_def by (induction calls arbitrary: h t m) (auto intro: mirrors_step)

text \<open>
  The well-formedness that splitting and serialization ask for is also kept by reading a text, whatever
  its outcome, undefined behaviour included.
\<close>

lemma deserialize_wf: "message_wf m \<Longrightarrow> message_wf (snd (deserialize L s m))"
  using deserialize_body_wf [of m L s]
  by (auto simp: deserialize_def split: prod.split sum.split fault.split)


end
