(* ===== verification/Bounded_Fifo.thy ===== *)
theory Bounded_Fifo
  imports Main
begin

text \<open>
  The contract of a buffer that takes items in order while it has room. It is what the local queue
  of the RabbitMQ component and the outgoing buffer of the publisher have in common: offering an
  item appends it or, when the buffer is full, refuses it and changes nothing that is stored. The
  extended contract adds taking items out at the front.
\<close>

fun offer_all :: "('a \<Rightarrow> 'q \<Rightarrow> bool \<times> 'q) \<Rightarrow> 'a list \<Rightarrow> 'q \<Rightarrow> bool list \<times> 'q" where
  "offer_all put [] q = ([], q)"
| "offer_all put (x # xs) q =
     (case put x q of (b, q') \<Rightarrow> (case offer_all put xs q' of (bs, q'') \<Rightarrow> (b # bs, q'')))"

text \<open>Offering until the first refusal, as a batch does.\<close>

fun offer_until :: "('a \<Rightarrow> 'q \<Rightarrow> bool \<times> 'q) \<Rightarrow> 'a list \<Rightarrow> 'q \<Rightarrow> bool \<times> 'q" where
  "offer_until put [] q = (True, q)"
| "offer_until put (x # xs) q =
     (case put x q of (b, q') \<Rightarrow> if b then offer_until put xs q' else (False, q'))"

fun take_all :: "('q \<Rightarrow> 'a option \<times> 'q) \<Rightarrow> nat \<Rightarrow> 'q \<Rightarrow> 'a option list \<times> 'q" where
  "take_all get 0 q = ([], q)"
| "take_all get (Suc n) q =
     (case get q of (x, q') \<Rightarrow> (case take_all get n q' of (xs, q'') \<Rightarrow> (x # xs, q'')))"

locale bounded_fifo =
  fixes items :: "'q \<Rightarrow> 'a list" and bound :: "'q \<Rightarrow> nat" and put :: "'a \<Rightarrow> 'q \<Rightarrow> bool \<times> 'q"
  assumes put_bound: "bound (snd (put x q)) = bound q"
    and put_answer: "fst (put x q) \<longleftrightarrow> length (items q) < bound q"
    and put_items: "items (snd (put x q)) = (if length (items q) < bound q then items q @ [x] else items q)"
begin

lemma put_cases:
  obtains (accepted) q' where "put x q = (True, q')" "items q' = items q @ [x]" "bound q' = bound q"
      "length (items q) < bound q"
  | (refused) q' where "put x q = (False, q')" "items q' = items q" "bound q' = bound q"
      "bound q \<le> length (items q)"
  using put_bound [of x q] put_answer [of x q] put_items [of x q]
  by (cases "put x q"; cases "length (items q) < bound q") auto

lemma offer_all_items:
  "items (snd (offer_all put xs q)) = items q @ take (bound q - length (items q)) xs \<and>
   bound (snd (offer_all put xs q)) = bound q"
proof (induction xs arbitrary: q)
  case (Cons x xs)
  show ?case
  proof (cases rule: put_cases [of x q])
    case (accepted q')
    with Cons.IH [of q'] show ?thesis
      by (auto split: prod.split simp: prod_eq_iff take_Cons')
  next
    case (refused q')
    with Cons.IH [of q'] show ?thesis by (auto split: prod.split simp: prod_eq_iff)
  qed
qed simp

lemma offer_all_answers:
  "fst (offer_all put xs q) =
     map (\<lambda>i. i < bound q - length (items q)) [0..<length xs]"
proof (induction xs arbitrary: q)
  case (Cons x xs)
  have shift: "map f [0..<length (x # xs)] = f 0 # map (\<lambda>i. f (Suc i)) [0..<length xs]" for f :: "nat \<Rightarrow> bool"
    by (simp add: map_upt_Suc del: upt_Suc)
  show ?case
  proof (cases rule: put_cases [of x q])
    case (accepted q')
    then have "Suc i < bound q - length (items q) \<longleftrightarrow> i < bound q' - length (items q')" for i
      by (simp only: length_append) auto
    with accepted Cons.IH [of q'] show ?thesis
      unfolding shift by (simp add: case_prod_beta)
  next
    case (refused q')
    with Cons.IH [of q'] show ?thesis
      unfolding shift by (simp add: case_prod_beta)
  qed
qed simp

lemma offer_until_outcome:
  "fst (offer_until put xs q) \<longleftrightarrow> length xs \<le> bound q - length (items q)"
  "items (snd (offer_until put xs q)) = items q @ take (bound q - length (items q)) xs"
proof (induction xs arbitrary: q)
  case (Cons x xs)
  {
    case 1
    show ?case
    proof (cases rule: put_cases [of x q])
      case (accepted q')
      with Cons.IH(1) [of q'] show ?thesis by auto
    next
      case (refused q')
      then show ?thesis by simp
    qed
  next
    case 2
    show ?case
    proof (cases rule: put_cases [of x q])
      case (accepted q')
      with Cons.IH(2) [of q'] show ?thesis by (simp add: take_Cons')
    next
      case (refused q')
      then show ?thesis by simp
    qed
  }
qed simp_all

lemma within_bound:
  "length (items q) \<le> bound q \<Longrightarrow> length (items (snd (put x q))) \<le> bound (snd (put x q))"
  by (cases rule: put_cases [of x q]) auto

end

locale fifo_store = bounded_fifo +
  fixes get :: "'q \<Rightarrow> 'a option \<times> 'q"
  assumes get_answer: "fst (get q) = (case items q of [] \<Rightarrow> None | x # xs \<Rightarrow> Some x)"
    and get_items: "items (snd (get q)) = tl (items q)"
    and get_bound: "bound (snd (get q)) = bound q"
begin

lemma take_all_items:
  "n \<le> length (items q) \<Longrightarrow> fst (take_all get n q) = map Some (take n (items q)) \<and>
    items (snd (take_all get n q)) = drop n (items q)"
proof (induction n arbitrary: q)
  case (Suc n)
  then obtain x xs where q: "items q = x # xs" by (cases "items q") auto
  obtain y q' where g: "get q = (y, q')" by fastforce
  then have "y = Some x" "items q' = xs"
    using get_answer [of q] get_items [of q] q by simp_all
  with Suc.IH [of q'] Suc.prems g q show ?case by (auto split: prod.split simp: prod_eq_iff)
qed simp

text \<open>First in, first out: what an empty buffer with enough room took comes out in order.\<close>

lemma in_order:
  assumes "items q = []" "length xs \<le> bound q"
  shows "fst (take_all get (length xs) (snd (offer_all put xs q))) = map Some xs"
proof -
  have "items (snd (offer_all put xs q)) = xs"
    using offer_all_items [of xs q] assms by simp
  then show ?thesis using take_all_items [of "length xs" "snd (offer_all put xs q)"] by simp
qed

end

end
