(* ===== verification/Rabbit_Queue.thy ===== *)
theory Rabbit_Queue
  imports Rabbit_Message Bounded_Fifo Keyed_State
begin

text \<open>
  \<open>rabbitmq_integration::LocalQueue\<close> (\<open>local_queue.hpp\<close>, \<open>local_queue.cpp\<close>): the bounded queue that
  keeps messages while the broker is away. It is a \<open>fifo_store\<close>, and every sequence of calls
  behaves like the same calls on a list with a bound.
\<close>

section \<open>Model\<close>

type_synonym queue_item = "string \<times> string \<times> rmessage"

record queue_stats =
  qs_totalEnqueued :: u64
  qs_totalDequeued :: u64
  qs_totalDropped :: u64
  qs_currentSize :: u64
  qs_maxSize :: u64
  qs_peakSize :: u64

definition new_queue_stats :: queue_stats where
  "new_queue_stats =
     \<lparr>qs_totalEnqueued = 0, qs_totalDequeued = 0, qs_totalDropped = 0, qs_currentSize = 0,
      qs_maxSize = 0, qs_peakSize = 0\<rparr>"

record local_queue =
  lq_queue :: "queue_item list"
  lq_maxSize :: u64
  lq_stats :: queue_stats

definition new_local_queue :: "u64 \<Rightarrow> local_queue" where
  "new_local_queue maxSize =
     \<lparr>lq_queue = [], lq_maxSize = maxSize, lq_stats = new_queue_stats\<lparr>qs_maxSize := maxSize\<rparr>\<rparr>"

text \<open>
  A queue in memory has fewer than \<open>2^64\<close> items, so comparisons of its \<open>size_t\<close> size are
  comparisons of its length.
\<close>

definition lq_size :: "local_queue \<Rightarrow> u64" where
  "lq_size q = word_of_nat (length (lq_queue q))"

definition lq_isEmpty :: "local_queue \<Rightarrow> bool" where
  "lq_isEmpty q \<longleftrightarrow> lq_queue q = []"

definition lq_isFull :: "local_queue \<Rightarrow> bool" where
  "lq_isFull q \<longleftrightarrow> unat (lq_maxSize q) \<le> length (lq_queue q)"

definition lq_capacity :: "local_queue \<Rightarrow> u64" where
  "lq_capacity q = lq_maxSize q"

definition lq_updateStats :: "local_queue \<Rightarrow> local_queue" where
  "lq_updateStats q =
     (let st = (lq_stats q)\<lparr>qs_currentSize := lq_size q\<rparr>
      in q\<lparr>lq_stats := (if qs_currentSize st > qs_peakSize st
                       then st\<lparr>qs_peakSize := qs_currentSize st\<rparr> else st)\<rparr>)"

definition lq_count :: "(queue_stats \<Rightarrow> queue_stats) \<Rightarrow> local_queue \<Rightarrow> local_queue" where
  "lq_count f q = q\<lparr>lq_stats := f (lq_stats q)\<rparr>"

definition enqueue :: "queue_item \<Rightarrow> local_queue \<Rightarrow> bool \<times> local_queue" where
  "enqueue item q =
     (if unat (lq_maxSize q) \<le> length (lq_queue q)
      then (False, lq_count (\<lambda>st. st\<lparr>qs_totalDropped := qs_totalDropped st + 1\<rparr>) q)
      else (True, lq_updateStats (lq_count (\<lambda>st. st\<lparr>qs_totalEnqueued := qs_totalEnqueued st + 1\<rparr>)
                    (q\<lparr>lq_queue := lq_queue q @ [item]\<rparr>))))"

definition dequeue :: "local_queue \<Rightarrow> queue_item option \<times> local_queue" where
  "dequeue q = (case lq_queue q of
     [] \<Rightarrow> (None, q)
   | item # rest \<Rightarrow>
       (Some item, lq_updateStats (lq_count (\<lambda>st. st\<lparr>qs_totalDequeued := qs_totalDequeued st + 1\<rparr>)
                     (q\<lparr>lq_queue := rest\<rparr>))))"

definition lq_clear :: "local_queue \<Rightarrow> local_queue" where
  "lq_clear q = lq_updateStats (q\<lparr>lq_queue := []\<rparr>)"

text \<open>\<open>while (queue_.size() > maxSize_) { queue_.pop(); stats_.totalDropped++; }\<close>\<close>

fun trim :: "nat \<Rightarrow> queue_item list \<Rightarrow> u64 \<Rightarrow> queue_item list \<times> u64" where
  "trim mx [] dropped = ([], dropped)"
| "trim mx (x # xs) dropped =
     (if length (x # xs) > mx then trim mx xs (dropped + 1) else (x # xs, dropped))"

definition setMaxSize :: "u64 \<Rightarrow> local_queue \<Rightarrow> local_queue" where
  "setMaxSize maxSize q =
     (case trim (unat maxSize) (lq_queue q) (qs_totalDropped (lq_stats q)) of (rest, dropped) \<Rightarrow>
       lq_updateStats (lq_count (\<lambda>st. st\<lparr>qs_maxSize := maxSize, qs_totalDropped := dropped\<rparr>)
         (q\<lparr>lq_maxSize := maxSize, lq_queue := rest\<rparr>)))"

definition lq_getStats :: "local_queue \<Rightarrow> queue_stats" where
  "lq_getStats q = lq_stats q"

definition lq_resetStats :: "local_queue \<Rightarrow> local_queue" where
  "lq_resetStats q =
     q\<lparr>lq_stats := new_queue_stats\<lparr>qs_maxSize := lq_maxSize q, qs_currentSize := lq_size q\<rparr>\<rparr>"

section \<open>The store\<close>

lemma lq_updateStats_keeps [simp]:
  "lq_queue (lq_updateStats q) = lq_queue q" "lq_maxSize (lq_updateStats q) = lq_maxSize q"
  "lq_queue (lq_count f q) = lq_queue q" "lq_maxSize (lq_count f q) = lq_maxSize q"
  by (simp_all add: lq_updateStats_def lq_count_def Let_def)

interpretation lq: fifo_store lq_queue "\<lambda>q. unat (lq_maxSize q)" enqueue dequeue
  by unfold_locales (auto simp: enqueue_def dequeue_def split: list.split)

text \<open>What was put into an empty queue with room for it comes out in the same order.\<close>

lemma local_queue_in_order:
  "lq_queue q = [] \<Longrightarrow> length xs \<le> unat (lq_maxSize q) \<Longrightarrow>
    fst (take_all dequeue (length xs) (snd (offer_all enqueue xs q))) = map Some xs"
  by (rule lq.in_order)

section \<open>Runs of calls\<close>

datatype queue_call =
    LQ_enqueue queue_item | LQ_dequeue | LQ_clear | LQ_setMaxSize u64 | LQ_resetStats

datatype queue_answer = LQ_accepted bool | LQ_item "queue_item option" | LQ_done

fun queue_step :: "queue_call \<Rightarrow> local_queue \<Rightarrow> queue_answer \<times> local_queue" where
  "queue_step (LQ_enqueue x) q = (case enqueue x q of (b, q') \<Rightarrow> (LQ_accepted b, q'))"
| "queue_step LQ_dequeue q = (case dequeue q of (x, q') \<Rightarrow> (LQ_item x, q'))"
| "queue_step LQ_clear q = (LQ_done, lq_clear q)"
| "queue_step (LQ_setMaxSize n) q = (LQ_done, setMaxSize n q)"
| "queue_step LQ_resetStats q = (LQ_done, lq_resetStats q)"

text \<open>
  The specification: a bound and a list. Shrinking the bound drops the oldest items. The second
  component of a step lists the items that leave, with the answer they leave with.
\<close>

type_synonym fifo = "nat \<times> queue_item list"

fun fifo_step :: "queue_call \<Rightarrow> fifo \<Rightarrow> queue_answer \<times> fifo" where
  "fifo_step (LQ_enqueue x) (n, xs) =
     (if length xs < n then (LQ_accepted True, (n, xs @ [x])) else (LQ_accepted False, (n, xs)))"
| "fifo_step LQ_dequeue (n, xs) =
     (LQ_item (case xs of [] \<Rightarrow> None | x # _ \<Rightarrow> Some x), (n, tl xs))"
| "fifo_step LQ_clear (n, xs) = (LQ_done, (n, []))"
| "fifo_step (LQ_setMaxSize m) (n, xs) = (LQ_done, (unat m, drop (length xs - unat m) xs))"
| "fifo_step LQ_resetStats (n, xs) = (LQ_done, (n, xs))"

definition fifo_of :: "local_queue \<Rightarrow> fifo" where
  "fifo_of q = (unat (lq_maxSize q), lq_queue q)"

lemma trim_drop: "trim mx xs d = (drop (length xs - mx) xs, d + word_of_nat (length xs - mx))"
proof (induction mx xs d rule: trim.induct)
  case (2 mx x xs d)
  show ?case
  proof (cases "mx < length (x # xs)")
    case True
    then have "length (x # xs) - mx = Suc (length xs - mx)" by (simp add: Suc_diff_le)
    with True 2 show ?thesis by simp
  qed simp
qed simp

lemma queue_step_refines:
  "fst (queue_step c q) = fst (fifo_step c (fifo_of q))"
  "fifo_of (snd (queue_step c q)) = snd (fifo_step c (fifo_of q))"
  by (cases c; auto simp: fifo_of_def enqueue_def dequeue_def lq_clear_def setMaxSize_def
      lq_resetStats_def trim_drop split: list.split)+

lemma queue_run_refines:
  "run_log queue_step cs q = run_log fifo_step cs (fifo_of q)"
  "fifo_of (run_state queue_step cs q) = run_state fifo_step cs (fifo_of q)"
proof (induction cs arbitrary: q)
  case (Cons c cs)
  {
    case 1
    show ?case using Cons.IH(1) queue_step_refines [of c q] by (simp add: case_prod_beta)
  next
    case 2
    show ?case using Cons.IH(2) queue_step_refines(2) [of c q] by simp
  }
qed simp_all

section \<open>What is accepted, what leaves, what is counted\<close>

text \<open>
  The items a run accepts, and the items that leave the queue: taken out, cleared or dropped by a
  smaller bound, in the order in which they leave.
\<close>

fun accepted_items :: "(queue_call \<times> queue_answer) list \<Rightarrow> queue_item list" where
  "accepted_items [] = []"
| "accepted_items ((LQ_enqueue x, LQ_accepted b) # r) = (if b then [x] else []) @ accepted_items r"
| "accepted_items (_ # r) = accepted_items r"

fun left_items :: "queue_call list \<Rightarrow> fifo \<Rightarrow> queue_item list" where
  "left_items [] f = []"
| "left_items (c # cs) f =
     (case c of
        LQ_dequeue \<Rightarrow> take 1 (snd f)
      | LQ_clear \<Rightarrow> snd f
      | LQ_setMaxSize m \<Rightarrow> take (length (snd f) - unat m) (snd f)
      | _ \<Rightarrow> []) @ left_items cs (snd (fifo_step c f))"

lemma fifo_order:
  "snd f @ accepted_items (run_log fifo_step cs f) = left_items cs f @ snd (run_state fifo_step cs f)"
proof (induction cs arbitrary: f)
  case (Cons c cs)
  obtain n xs where f: "f = (n, xs)" by fastforce
  note IH = Cons.IH [of "snd (fifo_step c f)"]
  show ?case
  proof (cases c)
    case (LQ_setMaxSize m)
    let ?k = "length xs - unat m"
    have "take ?k xs @ drop ?k xs @ accepted_items (run_log fifo_step cs (unat m, drop ?k xs)) =
        take ?k xs @ left_items cs (unat m, drop ?k xs) @ snd (run_state fifo_step cs (unat m, drop ?k xs))"
      using IH LQ_setMaxSize by (simp add: f)
    then show ?thesis by (simp add: f LQ_setMaxSize flip: append_assoc)
  next
    case LQ_dequeue
    with IH show ?thesis by (cases xs) (simp_all add: f)
  next
    case (LQ_enqueue x)
    with IH show ?thesis by (cases "length xs < n") (simp_all add: f)
  qed (use IH in \<open>simp_all add: f\<close>)
qed simp

text \<open>
  The current size and the limit shown by the statistics are always those of the queue, and the
  queue never exceeds its limit.
\<close>

definition queue_wf :: "local_queue \<Rightarrow> bool" where
  "queue_wf q \<longleftrightarrow> length (lq_queue q) \<le> unat (lq_maxSize q) \<and>
     qs_maxSize (lq_stats q) = lq_maxSize q \<and> qs_currentSize (lq_stats q) = lq_size q"

lemma updateStats_wf:
  "length (lq_queue q) \<le> unat (lq_maxSize q) \<Longrightarrow> qs_maxSize (lq_stats q) = lq_maxSize q \<Longrightarrow>
    queue_wf (lq_updateStats q)"
  by (simp add: queue_wf_def lq_updateStats_def lq_size_def Let_def)

lemma queue_step_wf: "queue_wf q \<Longrightarrow> queue_wf (snd (queue_step c q))"
proof (cases c)
  case (LQ_setMaxSize n)
  then show ?thesis
    by (auto simp: setMaxSize_def trim_drop lq_count_def intro!: updateStats_wf)
qed (auto simp: queue_wf_def enqueue_def dequeue_def lq_clear_def lq_resetStats_def lq_count_def
    lq_size_def lq_updateStats_def Let_def split: list.split)

text \<open>
  What the counters say of a run without a reset: accepted items are counted once; what left the
  queue was taken out, dropped by a smaller bound, or cleared, and only clearing is counted
  nowhere.
\<close>

fun cleared_count :: "queue_call list \<Rightarrow> fifo \<Rightarrow> nat" where
  "cleared_count [] f = 0"
| "cleared_count (c # cs) f =
     (case c of LQ_clear \<Rightarrow> length (snd f) | _ \<Rightarrow> 0) + cleared_count cs (snd (fifo_step c f))"

fun trimmed_count :: "queue_call list \<Rightarrow> fifo \<Rightarrow> nat" where
  "trimmed_count [] f = 0"
| "trimmed_count (c # cs) f =
     (case c of LQ_setMaxSize m \<Rightarrow> length (snd f) - unat m | _ \<Rightarrow> 0) +
       trimmed_count cs (snd (fifo_step c f))"

fun refused_count :: "queue_call list \<Rightarrow> fifo \<Rightarrow> nat" where
  "refused_count [] f = 0"
| "refused_count (c # cs) f =
     (case c of LQ_enqueue x \<Rightarrow> (if length (snd f) < fst f then 0 else 1) | _ \<Rightarrow> 0) +
       refused_count cs (snd (fifo_step c f))"

definition unaccounted :: "queue_stats \<Rightarrow> u64" where
  "unaccounted st = qs_totalEnqueued st - qs_totalDequeued st - qs_currentSize st"

definition counted :: "queue_call list \<Rightarrow> fifo \<Rightarrow> queue_stats \<Rightarrow> queue_stats \<Rightarrow> bool" where
  "counted cs f st st' \<longleftrightarrow>
     qs_totalDropped st' = qs_totalDropped st + word_of_nat (refused_count cs f + trimmed_count cs f) \<and>
     unaccounted st' = unaccounted st + word_of_nat (cleared_count cs f + trimmed_count cs f)"

lemma updateStats_counters [simp]:
  "qs_totalEnqueued (lq_stats (lq_updateStats q)) = qs_totalEnqueued (lq_stats q)"
  "qs_totalDequeued (lq_stats (lq_updateStats q)) = qs_totalDequeued (lq_stats q)"
  "qs_totalDropped (lq_stats (lq_updateStats q)) = qs_totalDropped (lq_stats q)"
  "qs_currentSize (lq_stats (lq_updateStats q)) = lq_size q"
  by (simp_all add: lq_updateStats_def Let_def)

lemma queue_step_counted:
  assumes "queue_wf q" "c \<noteq> LQ_resetStats"
  shows "counted [c] (fifo_of q) (lq_stats q) (lq_stats (snd (queue_step c q)))"
proof (cases c)
  case (LQ_setMaxSize n)
  let ?k = "length (lq_queue q) - unat n"
  have "length (lq_queue q) = length (drop ?k (lq_queue q)) + ?k" by simp
  then have "word_of_nat (length (lq_queue q)) = (word_of_nat (length (drop ?k (lq_queue q))) + word_of_nat ?k :: u64)"
    by (metis of_nat_add)
  with LQ_setMaxSize assms(1) show ?thesis
    by (simp add: counted_def unaccounted_def fifo_of_def setMaxSize_def trim_drop queue_wf_def
        lq_count_def lq_size_def del: length_drop)
next
  case (LQ_enqueue x)
  with assms(1) show ?thesis
    by (simp add: counted_def unaccounted_def fifo_of_def queue_wf_def enqueue_def lq_count_def lq_size_def)
next
  case LQ_dequeue
  with assms(1) show ?thesis
    by (simp add: counted_def unaccounted_def fifo_of_def queue_wf_def dequeue_def lq_count_def lq_size_def
        split: list.split)
next
  case LQ_clear
  with assms(1) show ?thesis
    by (simp add: counted_def unaccounted_def fifo_of_def queue_wf_def lq_clear_def lq_size_def)
qed (use assms in simp)

lemma counted_Cons:
  "counted [c] f st st' \<Longrightarrow> counted cs (snd (fifo_step c f)) st' st'' \<Longrightarrow> counted (c # cs) f st st''"
  by (simp add: counted_def add_ac)

lemma queue_run_counted:
  assumes "queue_wf q" "LQ_resetStats \<notin> set cs"
  shows "counted cs (fifo_of q) (lq_stats q) (lq_stats (run_state queue_step cs q))"
  using assms
proof (induction cs arbitrary: q)
  case (Cons c cs)
  have "counted [c] (fifo_of q) (lq_stats q) (lq_stats (snd (queue_step c q)))"
    using Cons.prems by (intro queue_step_counted) auto
  then show ?case
    using Cons.IH [of "snd (queue_step c q)"] Cons.prems queue_step_wf queue_step_refines(2) [of c q]
    by (simp add: counted_Cons)
qed (simp add: counted_def)

section \<open>Properties\<close>

text \<open>
  C21. The local queue is a bounded first-in-first-out list. Every sequence of calls on a new
  queue gives the answers of the same calls on a list with a bound: an item is accepted exactly
  when there is room, items come out in the order of their arrival, and a smaller bound drops the
  oldest. So the accepted items are those that left, followed by those still in the queue, which
  are never more than the limit; and the statistics show the true size and limit throughout.
\<close>

theorem local_queue_refines_fifo:
  "run_log queue_step cs (new_local_queue n) = run_log fifo_step cs (unat n, []) \<and>
   (let q = run_state queue_step cs (new_local_queue n)
    in accepted_items (run_log queue_step cs (new_local_queue n)) =
         left_items cs (unat n, []) @ lq_queue q \<and>
       length (lq_queue q) \<le> unat (lq_maxSize q) \<and>
       lq_getStats q = (lq_stats q)\<lparr>qs_currentSize := lq_size q, qs_maxSize := lq_capacity q\<rparr>)"
proof -
  have new: "fifo_of (new_local_queue n) = (unat n, [])" "queue_wf (new_local_queue n)"
    by (simp_all add: fifo_of_def new_local_queue_def queue_wf_def new_queue_stats_def lq_size_def)
  have "queue_wf (run_state queue_step cs (new_local_queue n))"
    by (rule run_state_invariant [where I = queue_wf]) (simp_all add: queue_step_wf new)
  moreover have "snd (run_state fifo_step cs (unat n, [])) =
      lq_queue (run_state queue_step cs (new_local_queue n))"
    using queue_run_refines(2) [of cs "new_local_queue n"] by (metis new(1) fifo_of_def snd_conv)
  ultimately show ?thesis
    using queue_run_refines(1) [of cs "new_local_queue n"] fifo_order [of "(unat n, [])" cs]
    by (simp add: new Let_def queue_wf_def lq_getStats_def lq_capacity_def)
qed

text \<open>
  What the counters of the local queue account for. Without a reset of the statistics,
  the dropped count is that of the refused items and those a smaller bound pushed out, and the
  accepted items that are neither taken out nor in the queue are those pushed out or cleared: the
  cleared ones are in no counter. Counters wrap at 64 bits.
\<close>

lemma local_queue_counters:
  assumes "LQ_resetStats \<notin> set cs"
  shows "let st = lq_getStats (run_state queue_step cs (new_local_queue n)); f = (unat n, [])
    in qs_totalDropped st = word_of_nat (refused_count cs f + trimmed_count cs f) \<and>
       unaccounted st = word_of_nat (cleared_count cs f + trimmed_count cs f)"
proof -
  have "counted cs (unat n, []) (lq_stats (new_local_queue n))
      (lq_stats (run_state queue_step cs (new_local_queue n)))"
    using queue_run_counted [of "new_local_queue n" cs] assms
    by (simp add: fifo_of_def new_local_queue_def queue_wf_def new_queue_stats_def lq_size_def)
  then show ?thesis
    by (simp add: counted_def unaccounted_def new_local_queue_def new_queue_stats_def lq_getStats_def)
qed

lemma local_queue_counters_witness:
  "let cs = [LQ_enqueue (''e'', ''k'', sample_rmessage), LQ_enqueue (''e'', ''k'', sample_rmessage), LQ_clear];
       st = lq_getStats (run_state queue_step cs (new_local_queue 1))
   in qs_totalDropped st = 1 \<and> unaccounted st = 1"
  using local_queue_counters
    [of "[LQ_enqueue (''e'', ''k'', sample_rmessage), LQ_enqueue (''e'', ''k'', sample_rmessage), LQ_clear]" 1]
  by simp

end
