(* ===== verification/Rabbit_Connection.thy ===== *)
theory Rabbit_Connection
  imports Rabbit_Types
begin

text \<open>
  \<open>rabbitmq_integration::Connection\<close> (\<open>connection.hpp\<close>, \<open>connection.cpp\<close>). Most of
  \<open>connection.cpp\<close> is commented out: what the class really has is its construction, \<open>open\<close>,
  \<open>close\<close> and \<open>isConnected\<close>, and \<open>open\<close> sets the state without opening anything. The operations
  that other classes call although they have no body are the parameter \<open>connection_decls\<close>.
\<close>

record connection =
  cn_config :: connection_config
  cn_state :: connection_state
  cn_nextChannelId :: int
  cn_lastError :: string
  cn_stats :: connection_stats

text \<open>\<open>address\<close> is the address of the object as a number, which becomes part of its name.\<close>

definition new_connection :: "int \<Rightarrow> connection_config \<Rightarrow> connection" where
  "new_connection address config =
     \<lparr>cn_config = config, cn_state = CS_Disconnected, cn_nextChannelId = 1, cn_lastError = [],
      cn_stats = new_connection_stats\<lparr>cs_connectionId := ''conn_'' @ int_string address,
                                      cs_state := CS_Disconnected\<rparr>\<rparr>"

definition connection_isConnected :: "connection \<Rightarrow> bool" where
  "connection_isConnected c \<longleftrightarrow> cn_state c = CS_Connected"

definition connection_open :: "ticks \<Rightarrow> connection \<Rightarrow> bool \<times> connection" where
  "connection_open now c =
     (if cn_state c = CS_Connected then (True, c)
      else (True, c\<lparr>cn_state := CS_Connected, cn_stats := (cn_stats c)\<lparr>cs_connectedAt := now\<rparr>\<rparr>))"

definition connection_close :: "connection \<Rightarrow> connection" where
  "connection_close c =
     (if cn_state c = CS_Disconnected then c else c\<lparr>cn_state := CS_Disconnected\<rparr>)"

text \<open>\<open>Connection(Connection&&)\<close>: the new object and what is left of the old one.\<close>

definition connection_move :: "connection \<Rightarrow> connection \<times> connection" where
  "connection_move other = (other, other\<lparr>cn_state := CS_Disconnected, cn_nextChannelId := 1\<rparr>)"

text \<open>Move assignment from another object closes the target first; closing leaves nothing to be seen.\<close>

definition connection_move_assign :: "connection \<Rightarrow> connection \<Rightarrow> connection \<times> connection" where
  "connection_move_assign c other =
     (let c1 = connection_close c
      in (c1\<lparr>cn_config := cn_config other, cn_state := cn_state other,
             cn_nextChannelId := cn_nextChannelId other, cn_stats := cn_stats other,
             cn_lastError := cn_lastError other\<rparr>,
          snd (connection_move other)))"

definition connection_destroy :: "connection \<Rightarrow> connection" where
  "connection_destroy c = connection_close c"

lemma connection_move_assign_move: "connection_move_assign c other = connection_move other"
  by (simp add: connection_move_assign_def connection_move_def connection_close_def Let_def)

text \<open>
  Declared in the header, called by publisher and consumer, defined nowhere. \<open>createChannel\<close> may
  return no channel, or throw a standard exception with a message.
\<close>

record 'ch connection_decls =
  cd_createChannel :: "connection \<Rightarrow> (string + 'ch option) \<times> connection"
  cd_getState :: "connection \<Rightarrow> connection_state"
  cd_ping :: "connection \<Rightarrow> bool \<times> connection"
  cd_isHealthy :: "connection \<Rightarrow> bool"

text \<open>
  Opening succeeds for every configuration, a wrong host, port or password included, and it is
  not recorded in the statistics: only the time of connection is.
\<close>

lemma open_always_succeeds:
  "fst (connection_open now c) \<and> connection_isConnected (snd (connection_open now c))"
  by (simp add: connection_open_def connection_isConnected_def)

lemma open_close:
  "\<not> connection_isConnected (connection_close c)"
  "cn_config (snd (connection_open now c)) = cn_config c"
  by (simp_all add: connection_close_def connection_isConnected_def connection_open_def)

end
