(* ===== verification/Publisher.thy ===== *)
theory Publisher
  imports Message_Utils Rabbit_Queue Rabbit_Connection "HOL-Library.Sublist"
begin

text \<open>
  \<open>rabbitmq_integration::Publisher\<close> and its factory (\<open>publisher.hpp\<close>, \<open>publisher.cpp\<close>). The
  buffer for messages that cannot be sent is a \<open>bounded_fifo\<close>. The operations are modelled one
  after the other; the worker thread is a step of its own. Callbacks of the owner are recorded in
  the order in which they are made.
\<close>

section \<open>State\<close>

datatype publisher_event =
    Error_Callback string string string | Connection_Callback bool string
  | Return_Callback rmessage string

record 'ch publisher =
  pb_config :: publisher_config
  pb_connection :: "connection option"
  pb_channel :: "'ch option"
  pb_connected :: bool
  pb_confirmsEnabled :: bool
  pb_transactionActive :: bool
  pb_publishingPaused :: bool
  pb_localQueue :: "queue_item list"
  pb_localQueueSize :: u64
  pb_localQueueEnabled :: bool
  pb_asyncRunning :: bool
  pb_asyncThread :: bool
  pb_asyncTasks :: "queue_item list"
  pb_pendingConfirms :: "u64 list"
  pb_nextDeliveryTag :: u64
  pb_stats :: publisher_stats
  pb_errorCallback :: bool
  pb_connectionCallback :: bool
  pb_returnCallback :: bool
  pb_events :: "publisher_event list"

definition new_publisher :: "int \<Rightarrow> publisher_config \<Rightarrow> 'ch publisher" where
  "new_publisher address config =
     \<lparr>pb_config = config, pb_connection = None, pb_channel = None, pb_connected = False,
      pb_confirmsEnabled = False, pb_transactionActive = False, pb_publishingPaused = False,
      pb_localQueue = [], pb_localQueueSize = 0, pb_localQueueEnabled = True,
      pb_asyncRunning = False, pb_asyncThread = False, pb_asyncTasks = [], pb_pendingConfirms = [],
      pb_nextDeliveryTag = 1,
      pb_stats = new_publisher_stats\<lparr>ps_publisherId := ''pub_'' @ int_string address\<rparr>,
      pb_errorCallback = False, pb_connectionCallback = False, pb_returnCallback = False,
      pb_events = []\<rparr>"

section \<open>Publishing\<close>

text \<open>The clock readings of a call: how long it took in milliseconds, and the time it ended.\<close>

record timing =
  tm_duration :: ticks
  tm_now :: ticks

definition publisher_validateMessage :: "rmessage \<Rightarrow> bool" where
  "publisher_validateMessage m \<longleftrightarrow> \<not> message_isEmpty m \<and> message_isValid m"

definition validateExchange :: "string \<Rightarrow> bool" where
  "validateExchange s \<longleftrightarrow> length s \<le> 255"

definition validateRoutingKey :: "string \<Rightarrow> bool" where
  "validateRoutingKey s \<longleftrightarrow> length s \<le> 255"

definition publishToLocal :: "queue_item \<Rightarrow> 'ch publisher \<Rightarrow> bool \<times> 'ch publisher" where
  "publishToLocal item p =
     (if unat (pc_localQueueSize (pb_config p)) \<le> length (pb_localQueue p) then (False, p)
      else (True, p\<lparr>pb_localQueue := pb_localQueue p @ [item],
                    pb_localQueueSize := pb_localQueueSize p + 1\<rparr>))"

text \<open>Connected, the function returns true; the call that would publish is a comment.\<close>

definition publishInternal :: "queue_item \<Rightarrow> 'ch publisher \<Rightarrow> bool \<times> 'ch publisher" where
  "publishInternal item p =
     (if \<not> pb_connected p
      then (if pb_localQueueEnabled p then publishToLocal item p else (False, p))
      else (True, p))"

definition publisher_updateStats ::
    "bool \<Rightarrow> nat \<Rightarrow> timing \<Rightarrow> 'ch publisher \<Rightarrow> 'ch publisher" where
  "publisher_updateStats success messageSize tm p =
     (let st = pb_stats p;
          st = (if success
                then st\<lparr>ps_messagesPublished := ps_messagesPublished st + 1,
                        ps_bytesPublished := ps_bytesPublished st + word_of_nat messageSize,
                        ps_lastPublish := tm_now tm\<rparr>
                else st\<lparr>ps_messagesFailed := ps_messagesFailed st + 1\<rparr>);
          (mx, av) = update_timing (tm_duration tm) (ps_maxPublishTime st, ps_avgPublishTime st)
      in p\<lparr>pb_stats := st\<lparr>ps_maxPublishTime := mx, ps_avgPublishTime := av,
             ps_localQueueSize := pb_localQueueSize p,
             ps_localQueueMaxSize := pc_localQueueSize (pb_config p)\<rparr>\<rparr>)"

definition handlePublishError ::
    "string \<Rightarrow> string \<Rightarrow> string \<Rightarrow> 'ch publisher \<Rightarrow> 'ch publisher" where
  "handlePublishError exchange routingKey err p =
     (if pb_errorCallback p
      then p\<lparr>pb_events := pb_events p @
             [Error_Callback ''PUBLISH_ERROR'' err
                (''Exchange: '' @ exchange @ '', RoutingKey: '' @ routingKey)]\<rparr>
      else p)"

definition publish :: "timing \<Rightarrow> queue_item \<Rightarrow> 'ch publisher \<Rightarrow> bool \<times> 'ch publisher" where
  "publish tm item p = (case item of (exchange, routingKey, message) \<Rightarrow>
     if pb_publishingPaused p then (False, p)
     else if \<not> publisher_validateMessage message then (False, p)
     else (case publishInternal item p of (success, p1) \<Rightarrow>
       let p2 = publisher_updateStats success (length (rm_data message)) tm p1
       in (success, if success then p2
                    else handlePublishError exchange routingKey ''Publish failed'' p2)))"

definition publisher_queueName :: "string \<Rightarrow> string \<Rightarrow> string \<Rightarrow> string" where
  "publisher_queueName region imei queueType = region @ ''.'' @ imei @ ''_'' @ queueType"

definition publishToInbound ::
    "timing \<Rightarrow> string \<Rightarrow> string \<Rightarrow> rmessage \<Rightarrow> 'ch publisher \<Rightarrow> bool \<times> 'ch publisher" where
  "publishToInbound tm region imei m = publish tm ([], publisher_queueName region imei ''inbound'', m)"

definition publishToDebug ::
    "timing \<Rightarrow> string \<Rightarrow> string \<Rightarrow> rmessage \<Rightarrow> 'ch publisher \<Rightarrow> bool \<times> 'ch publisher" where
  "publishToDebug tm region imei m = publish tm ([], publisher_queueName region imei ''debug'', m)"

text \<open>\<open>millis\<close> is the clock in milliseconds when the header is written.\<close>

definition publishToDiscard ::
    "timing \<Rightarrow> int \<Rightarrow> string \<Rightarrow> string \<Rightarrow> rmessage \<Rightarrow> string \<Rightarrow> 'ch publisher \<Rightarrow> bool \<times> 'ch publisher" where
  "publishToDiscard tm millis region imei m reason =
     publish tm ([], publisher_queueName region imei ''discard'',
       setHeader ''original_timestamp'' (int_string millis) (setHeader ''discard_reason'' reason m))"

definition publishCommand ::
    "timing \<Rightarrow> string \<Rightarrow> string \<Rightarrow> rmessage \<Rightarrow> 'ch publisher \<Rightarrow> bool \<times> 'ch publisher" where
  "publishCommand tm region imei m = publish tm ([], publisher_queueName region imei ''outbound'', m)"

text \<open>The overloads for JSON build the message first, which may throw.\<close>

definition with_json ::
    "json_lib \<Rightarrow> stamp \<Rightarrow> json \<Rightarrow> (rmessage \<Rightarrow> 'ch publisher \<Rightarrow> bool \<times> 'ch publisher) \<Rightarrow>
      'ch publisher \<Rightarrow> (json_error fault + bool) \<times> 'ch publisher" where
  "with_json L st data f p = (case Message_json L st data of
     Inl e \<Rightarrow> (Inl e, p)
   | Inr m \<Rightarrow> (case f m p of (b, p') \<Rightarrow> (Inr b, p')))"

type_synonym 'ch json_publish = "'ch publisher \<Rightarrow> (json_error fault + bool) \<times> 'ch publisher"

definition publishToInbound_json ::
    "json_lib \<Rightarrow> stamp \<Rightarrow> timing \<Rightarrow> string \<Rightarrow> string \<Rightarrow> json \<Rightarrow> 'ch json_publish" where
  "publishToInbound_json L st tm region imei data = with_json L st data (publishToInbound tm region imei)"

definition publishToDebug_json ::
    "json_lib \<Rightarrow> stamp \<Rightarrow> timing \<Rightarrow> string \<Rightarrow> string \<Rightarrow> json \<Rightarrow> 'ch json_publish" where
  "publishToDebug_json L st tm region imei data = with_json L st data (publishToDebug tm region imei)"

definition publishToDiscard_json ::
    "json_lib \<Rightarrow> stamp \<Rightarrow> timing \<Rightarrow> int \<Rightarrow> string \<Rightarrow> string \<Rightarrow> json \<Rightarrow> string \<Rightarrow> 'ch json_publish" where
  "publishToDiscard_json L st tm millis region imei data reason =
     with_json L st data (\<lambda>m. publishToDiscard tm millis region imei m reason)"

definition publishCommand_json ::
    "json_lib \<Rightarrow> stamp \<Rightarrow> timing \<Rightarrow> string \<Rightarrow> string \<Rightarrow> json \<Rightarrow> 'ch json_publish" where
  "publishCommand_json L st tm region imei command = with_json L st command (publishCommand tm region imei)"

section \<open>Transactions and batches\<close>

definition beginTransaction :: "'ch publisher \<Rightarrow> bool \<times> 'ch publisher" where
  "beginTransaction p =
     (if \<not> pb_connected p then (False, p)
      else if pb_transactionActive p then (True, p)
      else (True, p\<lparr>pb_transactionActive := True\<rparr>))"

definition commitTransaction :: "'ch publisher \<Rightarrow> bool \<times> 'ch publisher" where
  "commitTransaction p =
     (if \<not> pb_transactionActive p then (False, p)
      else (True, p\<lparr>pb_transactionActive := False,
                    pb_stats := (pb_stats p)\<lparr>ps_transactionCount := ps_transactionCount (pb_stats p) + 1\<rparr>\<rparr>))"

definition rollbackTransaction :: "'ch publisher \<Rightarrow> bool \<times> 'ch publisher" where
  "rollbackTransaction p =
     (if \<not> pb_transactionActive p then (False, p)
      else (True, p\<lparr>pb_transactionActive := False,
                    pb_stats := (pb_stats p)\<lparr>ps_transactionRollbacks := ps_transactionRollbacks (pb_stats p) + 1\<rparr>\<rparr>))"

text \<open>The loop over the batch stops at the first message that is not accepted.\<close>

fun publish_each :: "(timing \<times> queue_item) list \<Rightarrow> 'ch publisher \<Rightarrow> bool \<times> 'ch publisher" where
  "publish_each [] p = (True, p)"
| "publish_each ((tm, item) # items) p = (case publish tm item p of
     (True, p') \<Rightarrow> publish_each items p'
   | (False, p') \<Rightarrow> (False, p'))"

definition publishBatch :: "(timing \<times> queue_item) list \<Rightarrow> 'ch publisher \<Rightarrow> bool \<times> 'ch publisher" where
  "publishBatch batch p =
     (if pb_publishingPaused p then (False, p)
      else let p1 = (if pc_useTransactions (pb_config p) then snd (beginTransaction p) else p)
           in (case publish_each batch p1 of (allSuccess, p2) \<Rightarrow>
                (allSuccess,
                 if pc_useTransactions (pb_config p2)
                 then (if allSuccess then snd (commitTransaction p2) else snd (rollbackTransaction p2))
                 else p2)))"

definition publishBatch_same ::
    "string \<Rightarrow> string \<Rightarrow> (timing \<times> rmessage) list \<Rightarrow> 'ch publisher \<Rightarrow> bool \<times> 'ch publisher" where
  "publishBatch_same exchange routingKey ms =
     publishBatch (map (\<lambda>(tm, m). (tm, (exchange, routingKey, m))) ms)"

section \<open>The worker thread\<close>

definition startAsyncPublishing :: "'ch publisher \<Rightarrow> 'ch publisher" where
  "startAsyncPublishing p =
     (if pb_asyncRunning p then p else p\<lparr>pb_asyncRunning := True, pb_asyncThread := True\<rparr>)"

definition publishAsync :: "queue_item \<Rightarrow> 'ch publisher \<Rightarrow> 'ch publisher" where
  "publishAsync item p =
     (let p' = p\<lparr>pb_asyncTasks := pb_asyncTasks p @ [item]\<rparr>
      in if \<not> pb_asyncRunning p' then startAsyncPublishing p' else p')"

definition publishToInboundAsync :: "string \<Rightarrow> string \<Rightarrow> rmessage \<Rightarrow> 'ch publisher \<Rightarrow> 'ch publisher" where
  "publishToInboundAsync region imei m = publishAsync ([], publisher_queueName region imei ''inbound'', m)"

text \<open>One turn of the worker: the oldest task is run, if there is a worker and a task.\<close>

definition run_async_task :: "timing \<Rightarrow> 'ch publisher \<Rightarrow> bool option \<times> 'ch publisher" where
  "run_async_task tm p =
     (case pb_asyncTasks p of
        item # rest \<Rightarrow>
          if pb_asyncThread p \<and> pb_asyncRunning p
          then (case publish tm item (p\<lparr>pb_asyncTasks := rest\<rparr>) of (b, p') \<Rightarrow> (Some b, p'))
          else (None, p)
      | [] \<Rightarrow> (None, p))"

definition stopAsyncPublishing :: "'ch publisher \<Rightarrow> 'ch publisher" where
  "stopAsyncPublishing p = p\<lparr>pb_asyncRunning := False, pb_asyncThread := False\<rparr>"

section \<open>The connection\<close>

text \<open>
  The loop of \<open>processLocalQueue\<close> runs while the mutex of the local queue is held. Publishing a
  message would lock it again if the message were put back, which blocks for ever: \<open>None\<close>.
\<close>

definition publishInternal_locked :: "'ch publisher \<Rightarrow> bool option" where
  "publishInternal_locked p =
     (if \<not> pb_connected p then (if pb_localQueueEnabled p then None else Some False) else Some True)"

fun process_items :: "queue_item list \<Rightarrow> 'ch publisher \<Rightarrow> 'ch publisher option" where
  "process_items [] p = Some p"
| "process_items (item # rest) p =
     (let p' = p\<lparr>pb_localQueue := rest, pb_localQueueSize := pb_localQueueSize p - 1\<rparr>
      in case publishInternal_locked p' of
           None \<Rightarrow> None
         | Some True \<Rightarrow> process_items rest p'
         | Some False \<Rightarrow> Some (p'\<lparr>pb_localQueue := rest @ [item],
                                 pb_localQueueSize := pb_localQueueSize p' + 1\<rparr>))"

definition processLocalQueue :: "'ch publisher \<Rightarrow> 'ch publisher option" where
  "processLocalQueue p =
     (if \<not> pb_connected p \<or> \<not> pb_localQueueEnabled p then Some p
      else process_items (pb_localQueue p) p)"

definition teardownChannel :: "'ch publisher \<Rightarrow> 'ch publisher" where
  "teardownChannel p = p\<lparr>pb_confirmsEnabled := False, pb_channel := None\<rparr>"

definition publisher_teardownConnection :: "'ch publisher \<Rightarrow> 'ch publisher" where
  "publisher_teardownConnection p = (teardownChannel (p\<lparr>pb_connected := False\<rparr>))\<lparr>pb_connection := None\<rparr>"

text \<open>An exception of \<open>createChannel\<close> is caught by \<open>initializeConnection\<close>, the only caller.\<close>

definition initializeChannel :: "'ch connection_decls \<Rightarrow> 'ch publisher \<Rightarrow> bool \<times> 'ch publisher" where
  "initializeChannel D p = (case pb_connection p of
     None \<Rightarrow> (False, p)
   | Some c \<Rightarrow> (case cd_createChannel D c of
       (Inl _, c') \<Rightarrow> (False, p\<lparr>pb_connection := Some c'\<rparr>)
     | (Inr None, c') \<Rightarrow> (False, p\<lparr>pb_connection := Some c', pb_channel := None\<rparr>)
     | (Inr (Some ch), c') \<Rightarrow>
         (True, p\<lparr>pb_connection := Some c', pb_channel := Some ch,
                  pb_confirmsEnabled :=
                    (if pc_confirmEnabled (pb_config p) then True else pb_confirmsEnabled p)\<rparr>)))"

definition publisher_initializeConnection ::
    "'ch connection_decls \<Rightarrow> int \<Rightarrow> ticks \<Rightarrow> 'ch publisher \<Rightarrow> bool \<times> 'ch publisher" where
  "publisher_initializeConnection D address now p =
     (if (case pb_connection p of Some c \<Rightarrow> connection_isConnected c | None \<Rightarrow> False) then (True, p)
      else (case connection_open now (new_connection address (base_config (pb_config p))) of
          (False, c) \<Rightarrow> (False, p\<lparr>pb_connection := Some c\<rparr>)
        | (True, c) \<Rightarrow> initializeChannel D (p\<lparr>pb_connection := Some c, pb_connected := True\<rparr>)))"

definition publisher_onConnectionStateChanged ::
    "connection_state \<Rightarrow> string \<Rightarrow> 'ch publisher \<Rightarrow> 'ch publisher option" where
  "publisher_onConnectionStateChanged state reason p =
     (let p1 = p\<lparr>pb_connected := (state = CS_Connected)\<rparr>
      in case (if pb_connected p1 then processLocalQueue p1 else Some p1) of
           None \<Rightarrow> None
         | Some p2 \<Rightarrow> Some (if pb_connectionCallback p2
             then p2\<lparr>pb_events := pb_events p2 @ [Connection_Callback (pb_connected p2) reason]\<rparr>
             else p2))"

definition onPublishConfirm :: "u64 \<Rightarrow> bool \<Rightarrow> 'ch publisher \<Rightarrow> 'ch publisher" where
  "onPublishConfirm tag ack p =
     (if tag \<in> set (pb_pendingConfirms p)
      then p\<lparr>pb_pendingConfirms := filter (\<lambda>t. t \<noteq> tag) (pb_pendingConfirms p),
             pb_stats := (if ack
               then (pb_stats p)\<lparr>ps_messagesConfirmed := ps_messagesConfirmed (pb_stats p) + 1\<rparr>
               else (pb_stats p)\<lparr>ps_messagesNacked := ps_messagesNacked (pb_stats p) + 1\<rparr>)\<rparr>
      else p)"

definition onPublishReturn :: "rmessage \<Rightarrow> string \<Rightarrow> 'ch publisher \<Rightarrow> 'ch publisher" where
  "onPublishReturn m replyText p =
     (let p' = p\<lparr>pb_stats := (pb_stats p)\<lparr>ps_messagesReturned := ps_messagesReturned (pb_stats p) + 1\<rparr>\<rparr>
      in if pb_returnCallback p' then p'\<lparr>pb_events := pb_events p' @ [Return_Callback m replyText]\<rparr> else p')"

section \<open>The other operations\<close>

definition waitForConfirms :: "'ch publisher \<Rightarrow> bool" where
  "waitForConfirms p = True"

definition waitForConfirmsOrDie :: "'ch publisher \<Rightarrow> bool" where
  "waitForConfirmsOrDie p = (if \<not> waitForConfirms p then False else True)"

definition publisher_isConnected :: "'ch publisher \<Rightarrow> bool" where
  "publisher_isConnected p = pb_connected p"

definition publisher_getConnectionState :: "'ch connection_decls \<Rightarrow> 'ch publisher \<Rightarrow> connection_state" where
  "publisher_getConnectionState D p =
     (case pb_connection p of Some c \<Rightarrow> cd_getState D c | None \<Rightarrow> CS_Disconnected)"

definition publisher_getStats :: "'ch publisher \<Rightarrow> publisher_stats" where
  "publisher_getStats p = copy_publisher_stats (pb_stats p)"

definition publisher_resetStats :: "'ch publisher \<Rightarrow> 'ch publisher" where
  "publisher_resetStats p =
     p\<lparr>pb_stats := new_publisher_stats\<lparr>ps_publisherId := ps_publisherId (pb_stats p)\<rparr>\<rparr>"

definition publisher_updateConfig :: "publisher_config \<Rightarrow> 'ch publisher \<Rightarrow> bool \<times> 'ch publisher" where
  "publisher_updateConfig config p = (True, p\<lparr>pb_config := config\<rparr>)"

definition getLocalQueueSize :: "'ch publisher \<Rightarrow> u64" where
  "getLocalQueueSize p = pb_localQueueSize p"

definition enableLocalQueue :: "bool \<Rightarrow> 'ch publisher \<Rightarrow> 'ch publisher" where
  "enableLocalQueue b p = p\<lparr>pb_localQueueEnabled := b\<rparr>"

definition clearLocalQueue :: "'ch publisher \<Rightarrow> 'ch publisher" where
  "clearLocalQueue p = p\<lparr>pb_localQueue := [], pb_localQueueSize := 0\<rparr>"

definition publisher_ping :: "'ch connection_decls \<Rightarrow> 'ch publisher \<Rightarrow> bool \<times> 'ch publisher" where
  "publisher_ping D p = (case pb_connection p of
     None \<Rightarrow> (False, p)
   | Some c \<Rightarrow> (case cd_ping D c of (b, c') \<Rightarrow> (b, p\<lparr>pb_connection := Some c'\<rparr>)))"

definition publisher_isHealthy :: "'ch connection_decls \<Rightarrow> 'ch publisher \<Rightarrow> bool" where
  "publisher_isHealthy D p \<longleftrightarrow> pb_connected p \<and>
     (case pb_connection p of Some c \<Rightarrow> cd_isHealthy D c | None \<Rightarrow> False)"

definition pausePublishing :: "'ch publisher \<Rightarrow> 'ch publisher" where
  "pausePublishing p = p\<lparr>pb_publishingPaused := True\<rparr>"

definition resumePublishing :: "'ch publisher \<Rightarrow> 'ch publisher option" where
  "resumePublishing p = processLocalQueue (p\<lparr>pb_publishingPaused := False\<rparr>)"

definition publisher_setErrorCallback :: "bool \<Rightarrow> 'ch publisher \<Rightarrow> 'ch publisher" where
  "publisher_setErrorCallback b p = p\<lparr>pb_errorCallback := b\<rparr>"

definition publisher_setConnectionCallback :: "bool \<Rightarrow> 'ch publisher \<Rightarrow> 'ch publisher" where
  "publisher_setConnectionCallback b p = p\<lparr>pb_connectionCallback := b\<rparr>"

definition publisher_setReturnCallback :: "bool \<Rightarrow> 'ch publisher \<Rightarrow> 'ch publisher" where
  "publisher_setReturnCallback b p = p\<lparr>pb_returnCallback := b\<rparr>"

definition publisher_cleanup :: "'ch publisher \<Rightarrow> 'ch publisher" where
  "publisher_cleanup p = clearLocalQueue (publisher_teardownConnection (stopAsyncPublishing p))"

definition publisher_destroy :: "'ch publisher \<Rightarrow> 'ch publisher" where
  "publisher_destroy p = publisher_teardownConnection (stopAsyncPublishing p)"

definition isLocalQueueEnabled :: "'ch publisher \<Rightarrow> bool" where
  "isLocalQueueEnabled p = pb_localQueueEnabled p"

definition isPublishingPaused :: "'ch publisher \<Rightarrow> bool" where
  "isPublishingPaused p = pb_publishingPaused p"

definition publisher_getConfig :: "'ch publisher \<Rightarrow> publisher_config" where
  "publisher_getConfig p = pb_config p"

text \<open>
  \<open>Publisher(Publisher&&)\<close>: the new object, and what is left of the old one. The flag of the
  worker is taken over, the worker and its tasks are not.
\<close>

definition publisher_move :: "'ch publisher \<Rightarrow> 'ch publisher \<times> 'ch publisher" where
  "publisher_move other =
     (other\<lparr>pb_asyncThread := False, pb_asyncTasks := []\<rparr>,
      other\<lparr>pb_connection := None, pb_channel := None, pb_connected := False,
            pb_confirmsEnabled := False, pb_transactionActive := False,
            pb_publishingPaused := False, pb_localQueue := [], pb_localQueueSize := 0,
            pb_localQueueEnabled := False, pb_asyncRunning := False, pb_pendingConfirms := [],
            pb_nextDeliveryTag := 1, pb_errorCallback := False, pb_connectionCallback := False,
            pb_returnCallback := False\<rparr>)"

text \<open>
  Move assignment stops the worker of the target first; the tasks still queued there stay. The
  second component is what is left of the source.
\<close>

definition publisher_move_assign ::
    "'ch publisher \<Rightarrow> 'ch publisher \<Rightarrow> 'ch publisher \<times> 'ch publisher" where
  "publisher_move_assign p other =
     (let p1 = publisher_teardownConnection (stopAsyncPublishing p);
          (taken, left) = publisher_move other
      in (taken\<lparr>pb_asyncThread := pb_asyncThread p1, pb_asyncTasks := pb_asyncTasks p1,
                pb_events := pb_events p1\<rparr>, left))"

section \<open>The factory\<close>

definition createTelemetryPublisher :: "int \<Rightarrow> publisher_config \<Rightarrow> 'ch publisher" where
  "createTelemetryPublisher address config = new_publisher address config"

definition createCommandPublisher :: "int \<Rightarrow> publisher_config \<Rightarrow> 'ch publisher" where
  "createCommandPublisher address config = new_publisher address config"

definition createDebugPublisher :: "int \<Rightarrow> publisher_config \<Rightarrow> 'ch publisher" where
  "createDebugPublisher address config = new_publisher address (config\<lparr>pc_persistentMessages := False\<rparr>)"

definition createHighThroughputPublisher :: "int \<Rightarrow> connection_config \<Rightarrow> 'ch publisher" where
  "createHighThroughputPublisher address c = new_publisher address ((publisher_config_of c)
     \<lparr>pc_confirmEnabled := False, pc_batchSize := 1000, pc_localQueueSize := 50000\<rparr>)"

definition createReliablePublisher :: "int \<Rightarrow> connection_config \<Rightarrow> 'ch publisher" where
  "createReliablePublisher address c = new_publisher address ((publisher_config_of c)
     \<lparr>pc_confirmEnabled := True, pc_useTransactions := True, pc_persistentMessages := True\<rparr>)"

definition createLowLatencyPublisher :: "int \<Rightarrow> connection_config \<Rightarrow> 'ch publisher" where
  "createLowLatencyPublisher address c = new_publisher address ((publisher_config_of c)
     \<lparr>pc_confirmEnabled := False, pc_batchSize := 1, pc_localQueueSize := 100\<rparr>)"

definition publisher_createOptimizedConfig :: "connection_config \<Rightarrow> string \<Rightarrow> publisher_config" where
  "publisher_createOptimizedConfig c optimization =
     (let config = publisher_config_of c
      in if optimization = ''high_throughput''
         then config\<lparr>pc_confirmEnabled := False, pc_batchSize := 1000, pc_localQueueSize := 50000\<rparr>
         else if optimization = ''reliable''
         then config\<lparr>pc_confirmEnabled := True, pc_useTransactions := True, pc_persistentMessages := True\<rparr>
         else if optimization = ''low_latency''
         then config\<lparr>pc_confirmEnabled := False, pc_batchSize := 1, pc_localQueueSize := 100\<rparr>
         else config)"

section \<open>The buffer of unsent messages\<close>

lemma publishToLocal_keeps [simp]:
  "pb_config (snd (publishToLocal x p)) = pb_config p"
  by (simp add: publishToLocal_def)

interpretation pl: bounded_fifo pb_localQueue "\<lambda>p. unat (pc_localQueueSize (pb_config p))" publishToLocal
  by unfold_locales (auto simp: publishToLocal_def)

section \<open>Runs of calls\<close>

text \<open>
  The calls an owner can make, and the turns of the worker. The variants of \<open>publish\<close> for a
  device and its queues are \<open>publish\<close> with a routing key and, for the discard queue, two headers.
  A call that never returns is answered by \<open>P_blocked\<close>.
\<close>

datatype publisher_call =
    P_publish timing queue_item | P_batch "(timing \<times> queue_item) list" | P_async queue_item
  | P_worker timing | P_begin | P_commit | P_rollback | P_pause | P_resume | P_enable bool | P_clear
  | P_updateConfig publisher_config | P_setErrorCallback bool | P_resetStats | P_waitForConfirms
  | P_isConnected | P_getConnectionState | P_ping | P_isHealthy | P_getLocalQueueSize

datatype publisher_answer =
    P_done | P_accepted bool | P_size u64 | P_connection connection_state | P_blocked

fun publisher_step ::
    "'ch connection_decls \<Rightarrow> publisher_call \<Rightarrow> 'ch publisher \<Rightarrow> publisher_answer \<times> 'ch publisher" where
  "publisher_step D (P_publish tm item) p = (case publish tm item p of (b, p') \<Rightarrow> (P_accepted b, p'))"
| "publisher_step D (P_batch batch) p = (case publishBatch batch p of (b, p') \<Rightarrow> (P_accepted b, p'))"
| "publisher_step D (P_async item) p = (P_done, publishAsync item p)"
| "publisher_step D (P_worker tm) p = (case run_async_task tm p of
     (Some b, p') \<Rightarrow> (P_accepted b, p') | (None, p') \<Rightarrow> (P_done, p'))"
| "publisher_step D P_begin p = (case beginTransaction p of (b, p') \<Rightarrow> (P_accepted b, p'))"
| "publisher_step D P_commit p = (case commitTransaction p of (b, p') \<Rightarrow> (P_accepted b, p'))"
| "publisher_step D P_rollback p = (case rollbackTransaction p of (b, p') \<Rightarrow> (P_accepted b, p'))"
| "publisher_step D P_pause p = (P_done, pausePublishing p)"
| "publisher_step D P_resume p = (case resumePublishing p of
     Some p' \<Rightarrow> (P_done, p') | None \<Rightarrow> (P_blocked, p))"
| "publisher_step D (P_enable b) p = (P_done, enableLocalQueue b p)"
| "publisher_step D P_clear p = (P_done, clearLocalQueue p)"
| "publisher_step D (P_updateConfig c) p = (case publisher_updateConfig c p of (b, p') \<Rightarrow> (P_accepted b, p'))"
| "publisher_step D (P_setErrorCallback b) p = (P_done, publisher_setErrorCallback b p)"
| "publisher_step D P_resetStats p = (P_done, publisher_resetStats p)"
| "publisher_step D P_waitForConfirms p = (P_accepted (waitForConfirms p), p)"
| "publisher_step D P_isConnected p = (P_accepted (publisher_isConnected p), p)"
| "publisher_step D P_getConnectionState p = (P_connection (publisher_getConnectionState D p), p)"
| "publisher_step D P_ping p = (case publisher_ping D p of (b, p') \<Rightarrow> (P_accepted b, p'))"
| "publisher_step D P_isHealthy p = (P_accepted (publisher_isHealthy D p), p)"
| "publisher_step D P_getLocalQueueSize p = (P_size (getLocalQueueSize p), p)"

text \<open>
  The specification: an outbox that is never emptied by sending. It has no connection, no
  transaction, no confirms and no statistics.
\<close>

record outbox =
  ob_items :: "queue_item list"
  ob_bound :: nat
  ob_enabled :: bool
  ob_paused :: bool
  ob_worker :: bool
  ob_tasks :: "queue_item list"

definition outbox_put :: "queue_item \<Rightarrow> outbox \<Rightarrow> bool \<times> outbox" where
  "outbox_put item b =
     (if ob_paused b \<or> \<not> publisher_validateMessage (snd (snd item)) \<or> \<not> ob_enabled b \<or>
         ob_bound b \<le> length (ob_items b)
      then (False, b) else (True, b\<lparr>ob_items := ob_items b @ [item]\<rparr>))"

fun outbox_step :: "publisher_call \<Rightarrow> outbox \<Rightarrow> publisher_answer \<times> outbox" where
  "outbox_step (P_publish tm item) b = (case outbox_put item b of (a, b') \<Rightarrow> (P_accepted a, b'))"
| "outbox_step (P_batch batch) b =
     (if ob_paused b then (P_accepted False, b)
      else (case offer_until outbox_put (map snd batch) b of (a, b') \<Rightarrow> (P_accepted a, b')))"
| "outbox_step (P_async item) b = (P_done, b\<lparr>ob_tasks := ob_tasks b @ [item], ob_worker := True\<rparr>)"
| "outbox_step (P_worker tm) b = (case ob_tasks b of
     [] \<Rightarrow> (P_done, b)
   | item # rest \<Rightarrow>
       if ob_worker b
       then (case outbox_put item (b\<lparr>ob_tasks := rest\<rparr>) of (a, b') \<Rightarrow> (P_accepted a, b'))
       else (P_done, b))"
| "outbox_step P_pause b = (P_done, b\<lparr>ob_paused := True\<rparr>)"
| "outbox_step P_resume b = (P_done, b\<lparr>ob_paused := False\<rparr>)"
| "outbox_step (P_enable e) b = (P_done, b\<lparr>ob_enabled := e\<rparr>)"
| "outbox_step P_clear b = (P_done, b\<lparr>ob_items := []\<rparr>)"
| "outbox_step (P_updateConfig c) b = (P_accepted True, b\<lparr>ob_bound := unat (pc_localQueueSize c)\<rparr>)"
| "outbox_step (P_setErrorCallback e) b = (P_done, b)"
| "outbox_step P_resetStats b = (P_done, b)"
| "outbox_step P_waitForConfirms b = (P_accepted True, b)"
| "outbox_step P_getConnectionState b = (P_connection CS_Disconnected, b)"
| "outbox_step P_getLocalQueueSize b = (P_size (word_of_nat (length (ob_items b))), b)"
| "outbox_step _ b = (P_accepted False, b)"

definition outbox_of :: "'ch publisher \<Rightarrow> outbox" where
  "outbox_of p =
     \<lparr>ob_items = pb_localQueue p, ob_bound = unat (pc_localQueueSize (pb_config p)),
      ob_enabled = pb_localQueueEnabled p, ob_paused = pb_publishingPaused p,
      ob_worker = pb_asyncRunning p, ob_tasks = pb_asyncTasks p\<rparr>"

text \<open>What holds of a publisher as long as nothing establishes a connection.\<close>

definition offline :: "'ch publisher \<Rightarrow> bool" where
  "offline p \<longleftrightarrow> \<not> pb_connected p \<and> pb_connection p = None \<and> \<not> pb_transactionActive p \<and>
     pb_localQueueSize p = word_of_nat (length (pb_localQueue p)) \<and>
     (pb_asyncThread p \<longleftrightarrow> pb_asyncRunning p)"

lemma offline_simps:
  "offline p \<Longrightarrow> pb_connected p = False" "offline p \<Longrightarrow> pb_connection p = None"
  "offline p \<Longrightarrow> pb_transactionActive p = False"
  "offline p \<Longrightarrow> pb_localQueueSize p = word_of_nat (length (pb_localQueue p))"
  "offline p \<Longrightarrow> pb_asyncThread p = pb_asyncRunning p"
  by (simp_all add: offline_def)

definition simulates :: "'ch publisher \<Rightarrow> bool \<times> 'ch publisher \<Rightarrow> bool \<times> outbox \<Rightarrow> bool" where
  "simulates p r s \<longleftrightarrow> fst r = fst s \<and> outbox_of (snd r) = snd s \<and> offline (snd r) \<and>
     pb_config (snd r) = pb_config p"

lemma stats_offline [simp]:
  "offline (publisher_updateStats b n tm p) = offline p"
  "outbox_of (publisher_updateStats b n tm p) = outbox_of p"
  "pb_config (publisher_updateStats b n tm p) = pb_config p"
  "offline (handlePublishError e k r p) = offline p"
  "outbox_of (handlePublishError e k r p) = outbox_of p"
  "pb_config (handlePublishError e k r p) = pb_config p"
  by (simp_all add: offline_def outbox_of_def handlePublishError_def publisher_updateStats_def Let_def
      split: prod.split)

lemma outbox_of_sel [simp]:
  "ob_items (outbox_of p) = pb_localQueue p"
  "ob_bound (outbox_of p) = unat (pc_localQueueSize (pb_config p))"
  "ob_enabled (outbox_of p) = pb_localQueueEnabled p"
  "ob_paused (outbox_of p) = pb_publishingPaused p"
  "ob_worker (outbox_of p) = pb_asyncRunning p"
  "ob_tasks (outbox_of p) = pb_asyncTasks p"
  by (simp_all add: outbox_of_def)

lemma publishInternal_simulates:
  assumes "offline p" "\<not> pb_publishingPaused p" "publisher_validateMessage (snd (snd item))"
  shows "simulates p (publishInternal item p) (outbox_put item (outbox_of p))"
  using assms
  by (auto simp: simulates_def publishInternal_def publishToLocal_def outbox_put_def outbox_of_def offline_def)

lemma publish_simulates:
  assumes "offline p"
  shows "simulates p (publish tm item p) (outbox_put item (outbox_of p))"
proof (cases "pb_publishingPaused p \<or> \<not> publisher_validateMessage (snd (snd item))")
  case True
  with assms show ?thesis by (auto simp: simulates_def publish_def outbox_put_def case_prod_beta)
next
  case False
  with publishInternal_simulates [OF assms, of item] show ?thesis
    by (simp add: simulates_def publish_def case_prod_beta Let_def)
qed

lemma publish_each_simulates:
  "offline p \<Longrightarrow> simulates p (publish_each batch p) (offer_until outbox_put (map snd batch) (outbox_of p))"
proof (induction batch arbitrary: p)
  case (Cons x batch)
  obtain tm item where x: "x = (tm, item)" by (rule prod.exhaust)
  obtain b p' where pub: "publish tm item p = (b, p')" by (rule prod.exhaust)
  have sim: "simulates p (b, p') (outbox_put item (outbox_of p))"
    using publish_simulates [OF Cons.prems, of tm item] by (simp add: pub)
  then have "offline p'" by (simp add: simulates_def)
  with sim Cons.IH [of p'] show ?case
    by (auto simp: simulates_def x pub split: prod.splits bool.splits)
qed (simp add: simulates_def)

lemma batch_simulates:
  assumes "offline p"
  shows "simulates p (publishBatch batch p)
    (if pb_publishingPaused p then (False, outbox_of p)
     else offer_until outbox_put (map snd batch) (outbox_of p))"
proof -
  obtain b p' where each: "publish_each batch p = (b, p')" by (rule prod.exhaust)
  have off: "beginTransaction q = (False, q)" "commitTransaction q = (False, q)"
    "rollbackTransaction q = (False, q)" if "offline q" for q :: "'a publisher"
    using that by (simp_all add: beginTransaction_def commitTransaction_def rollbackTransaction_def offline_simps)
  have sim: "simulates p (b, p') (offer_until outbox_put (map snd batch) (outbox_of p))"
    using publish_each_simulates [OF assms, of batch] by (simp add: each)
  then have "offline p'" by (simp add: simulates_def)
  with sim show ?thesis
    by (auto simp: publishBatch_def off assms each simulates_def)
qed

lemma publishAsync_eq:
  "publishAsync item p = (if pb_asyncRunning p then p\<lparr>pb_asyncTasks := pb_asyncTasks p @ [item]\<rparr>
     else p\<lparr>pb_asyncTasks := pb_asyncTasks p @ [item], pb_asyncRunning := True, pb_asyncThread := True\<rparr>)"
  by (simp add: publishAsync_def startAsyncPublishing_def Let_def)

lemma set_tasks:
  "offline (p\<lparr>pb_asyncTasks := ts\<rparr>) = offline p"
  "outbox_of (p\<lparr>pb_asyncTasks := ts\<rparr>) = (outbox_of p)\<lparr>ob_tasks := ts\<rparr>"
  by (simp_all add: offline_def outbox_of_def)

lemma worker_simulates:
  assumes "offline p"
  shows "fst (publisher_step D (P_worker tm) p) = fst (outbox_step (P_worker tm) (outbox_of p))"
    "outbox_of (snd (publisher_step D (P_worker tm) p)) = snd (outbox_step (P_worker tm) (outbox_of p))"
    "offline (snd (publisher_step D (P_worker tm) p))"
proof -
  {
    fix item rest
    assume "pb_asyncTasks p = item # rest" "pb_asyncRunning p"
    moreover have "simulates (p\<lparr>pb_asyncTasks := rest\<rparr>) (publish tm item (p\<lparr>pb_asyncTasks := rest\<rparr>))
        (outbox_put item ((outbox_of p)\<lparr>ob_tasks := rest\<rparr>))"
      using publish_simulates [of "p\<lparr>pb_asyncTasks := rest\<rparr>" tm item] assms by (simp add: set_tasks)
    ultimately have "fst (publisher_step D (P_worker tm) p) = fst (outbox_step (P_worker tm) (outbox_of p)) \<and>
        outbox_of (snd (publisher_step D (P_worker tm) p)) = snd (outbox_step (P_worker tm) (outbox_of p)) \<and>
        offline (snd (publisher_step D (P_worker tm) p))"
      using assms by (simp add: run_async_task_def offline_simps simulates_def case_prod_beta)
  }
  note run = this
  have idle: "fst (publisher_step D (P_worker tm) p) = fst (outbox_step (P_worker tm) (outbox_of p)) \<and>
        outbox_of (snd (publisher_step D (P_worker tm) p)) = snd (outbox_step (P_worker tm) (outbox_of p)) \<and>
        offline (snd (publisher_step D (P_worker tm) p))"
    if "pb_asyncTasks p = [] \<or> \<not> pb_asyncRunning p"
    using that assms by (auto simp: run_async_task_def split: list.split)
  show "fst (publisher_step D (P_worker tm) p) = fst (outbox_step (P_worker tm) (outbox_of p))"
    "outbox_of (snd (publisher_step D (P_worker tm) p)) = snd (outbox_step (P_worker tm) (outbox_of p))"
    "offline (snd (publisher_step D (P_worker tm) p))"
    using run idle by (cases "pb_asyncTasks p"; blast)+
qed

lemma publisher_step_refines:
  assumes "offline p"
  shows "fst (publisher_step D c p) = fst (outbox_step c (outbox_of p)) \<and>
    outbox_of (snd (publisher_step D c p)) = snd (outbox_step c (outbox_of p)) \<and>
    offline (snd (publisher_step D c p))"
proof (cases c)
  case (P_publish tm item)
  with publish_simulates [OF assms, of tm item] show ?thesis by (simp add: simulates_def case_prod_beta)
next
  case (P_batch batch)
  with batch_simulates [OF assms, of batch] show ?thesis by (simp add: simulates_def case_prod_beta)
next
  case (P_worker tm)
  with worker_simulates [OF assms] show ?thesis by simp
next
  case (P_async item)
  with assms show ?thesis by (simp add: publishAsync_eq offline_def outbox_of_def)
qed (use assms in \<open>simp_all add: offline_def outbox_of_def beginTransaction_def commitTransaction_def
  rollbackTransaction_def pausePublishing_def resumePublishing_def processLocalQueue_def enableLocalQueue_def
  clearLocalQueue_def publisher_updateConfig_def publisher_setErrorCallback_def publisher_resetStats_def
  waitForConfirms_def publisher_isConnected_def publisher_getConnectionState_def publisher_ping_def
  publisher_isHealthy_def getLocalQueueSize_def\<close>)

lemma publisher_run_refines:
  assumes "offline p"
  shows "run_log (publisher_step D) cs p = run_log outbox_step cs (outbox_of p) \<and>
    outbox_of (run_state (publisher_step D) cs p) = run_state outbox_step cs (outbox_of p) \<and>
    offline (run_state (publisher_step D) cs p)"
  using assms
proof (induction cs arbitrary: p)
  case (Cons c cs)
  show ?case
    using publisher_step_refines [OF Cons.prems, of D c] Cons.IH [of "snd (publisher_step D c p)"]
    by (simp add: case_prod_beta)
qed simp

lemma outbox_put_cases:
  "outbox_put x b = (False, b) \<or> outbox_put x b = (True, b\<lparr>ob_items := ob_items b @ [x]\<rparr>)"
  by (simp add: outbox_put_def)

lemma offer_until_prefix: "prefix (ob_items b) (ob_items (snd (offer_until outbox_put xs b)))"
proof (induction xs arbitrary: b)
  case (Cons x xs)
  from outbox_put_cases [of x b] Cons.IH [of "b\<lparr>ob_items := ob_items b @ [x]\<rparr>"] show ?case
    by (auto simp: prefix_def)
qed simp

lemma outbox_step_prefix: "c \<noteq> P_clear \<Longrightarrow> prefix (ob_items b) (ob_items (snd (outbox_step c b)))"
proof (induction c b rule: outbox_step.induct)
  case (2 batch b)
  show ?case using offer_until_prefix [of b "map snd batch"] by (simp add: case_prod_beta)
qed (auto simp: outbox_put_def split: list.splits)

lemma outbox_run_prefix:
  "P_clear \<notin> set cs \<Longrightarrow> prefix (ob_items b) (ob_items (run_state outbox_step cs b))"
proof (induction cs arbitrary: b)
  case (Cons c cs)
  then have "prefix (ob_items b) (ob_items (snd (outbox_step c b)))" by (intro outbox_step_prefix) auto
  also have "prefix \<dots> (ob_items (run_state outbox_step cs (snd (outbox_step c b))))" using Cons by simp
  finally show ?case by simp
qed simp

text \<open>
  C10. The publisher is an outbox that is never sent. No call of its interface establishes a
  connection, so every sequence of calls and worker turns answers as the outbox does: a message is
  accepted exactly when it is valid, publishing is not paused and there is room; a batch stores
  its prefix up to the first refusal, transactions or not; transactions never begin, confirms are
  reported although nothing was sent, and nothing but \<open>clearLocalQueue\<close> takes a message out. The
  size that is reported is that of the buffer, and no call blocks.
\<close>

theorem publisher_is_outbox:
  "let p = new_publisher address config; b = outbox_of p; p' = run_state (publisher_step D) cs p
   in run_log (publisher_step D) cs p = run_log outbox_step cs b \<and>
      outbox_of p' = run_state outbox_step cs b \<and>
      getLocalQueueSize p' = word_of_nat (length (pb_localQueue p')) \<and>
      b = \<lparr>ob_items = [], ob_bound = unat (pc_localQueueSize config), ob_enabled = True,
           ob_paused = False, ob_worker = False, ob_tasks = []\<rparr>"
proof -
  have "offline (new_publisher address config)" by (simp add: offline_def new_publisher_def)
  from publisher_run_refines [OF this, of D cs] show ?thesis
    by (simp add: Let_def offline_simps getLocalQueueSize_def outbox_of_def new_publisher_def)
qed

lemma stored_until_cleared:
  assumes "offline p" "P_clear \<notin> set cs"
  shows "prefix (pb_localQueue p) (pb_localQueue (run_state (publisher_step D) cs p))"
  using publisher_run_refines [OF assms(1), of D cs] outbox_run_prefix [OF assms(2), of "outbox_of p"]
  by (metis outbox_of_sel(1))

lemma process_items_connected:
  "pb_connected p \<Longrightarrow> process_items xs p =
    Some (p\<lparr>pb_localQueue := (if xs = [] then pb_localQueue p else []),
            pb_localQueueSize := pb_localQueueSize p - word_of_nat (length xs)\<rparr>)"
  by (induction xs p rule: process_items.induct) (simp_all add: publishInternal_locked_def)

lemma processLocalQueue_connected:
  "pb_connected p \<Longrightarrow> pb_localQueueEnabled p \<Longrightarrow> processLocalQueue p =
    Some (p\<lparr>pb_localQueue := [],
            pb_localQueueSize := pb_localQueueSize p - word_of_nat (length (pb_localQueue p))\<rparr>)"
  by (simp add: processLocalQueue_def process_items_connected)

text \<open>
  A connected publisher keeps and sends nothing. When a connection is reported, the buffer
  is emptied without a message reaching the channel, and from then on \<open>publish\<close> reports success
  for every valid message while neither the buffer nor the channel changes.
\<close>

lemma connected_publisher_keeps_nothing:
  "\<exists>p'. publisher_onConnectionStateChanged CS_Connected reason p = Some p' \<and>
     pb_connected p' \<and> pb_channel p' = pb_channel p \<and> pb_connection p' = pb_connection p \<and>
     pb_localQueue p' = (if pb_localQueueEnabled p then [] else pb_localQueue p) \<and>
     (let r = publish tm item p'
      in fst r = (\<not> pb_publishingPaused p \<and> publisher_validateMessage (snd (snd item))) \<and>
         pb_localQueue (snd r) = pb_localQueue p' \<and> pb_channel (snd r) = pb_channel p' \<and>
         pb_connection (snd r) = pb_connection p')"
proof -
  define p1 where "p1 = p\<lparr>pb_connected := True\<rparr>"
  obtain p2 where p2: "processLocalQueue p1 = Some p2" "pb_connected p2"
      "pb_localQueue p2 = (if pb_localQueueEnabled p then [] else pb_localQueue p)"
      "pb_channel p2 = pb_channel p" "pb_connection p2 = pb_connection p"
      "pb_publishingPaused p2 = pb_publishingPaused p"
    by (cases "pb_localQueueEnabled p")
      (simp_all add: p1_def processLocalQueue_connected, simp add: processLocalQueue_def)
  let ?p' = "if pb_connectionCallback p2
             then p2\<lparr>pb_events := pb_events p2 @ [Connection_Callback (pb_connected p2) reason]\<rparr> else p2"
  have "publisher_onConnectionStateChanged CS_Connected reason p = Some ?p'"
    using p2(1,2) by (simp add: publisher_onConnectionStateChanged_def p1_def)
  moreover have "pb_connected ?p'" using p2(2) by simp
  ultimately show ?thesis
    using p2 by (intro exI [of _ ?p'])
      (simp add: publish_def publishInternal_def case_prod_beta Let_def publisher_updateStats_def)
qed

end
