(* ===== verification/Rabbit_Consumer.thy ===== *)
theory Rabbit_Consumer
  imports Rabbit_Message Rabbit_Connection Ordered_Map Keyed_State
begin

text \<open>
  \<open>rabbitmq_integration::Consumer\<close>, its factory, \<open>MultiQueueConsumer\<close> and \<open>ConsumerPool\<close>
  (\<open>consumer.hpp\<close>, \<open>consumer.cpp\<close>). A call of the owner is a function on the state; the consumer
  threads are modelled turn by turn, so that every interleaving with the calls of the owner is a
  run of the step relation. Dereferencing an empty pointer is undefined behaviour: no next state.
\<close>

section \<open>State\<close>

text \<open>
  A callback gets the consumer tag, the queue name, the message and the delivery tag; \<open>None\<close> is a
  standard exception.
\<close>

type_synonym message_callback = "string \<Rightarrow> string \<Rightarrow> rmessage \<Rightarrow> u64 \<Rightarrow> bool option"

record 'ch consumer_info =
  ci_queueName :: string
  ci_consumerTag :: string
  ci_callback :: "message_callback option"
  ci_channel :: "'ch option"
  ci_active :: bool
  ci_stats :: consumer_stats
  ci_lastActivity :: ticks

definition new_consumer_info ::
    "ticks \<Rightarrow> string \<Rightarrow> string \<Rightarrow> message_callback option \<Rightarrow> 'ch \<Rightarrow> 'ch consumer_info" where
  "new_consumer_info now queue tag cb ch =
     \<lparr>ci_queueName = queue, ci_consumerTag = tag, ci_callback = cb, ci_channel = Some ch,
      ci_active = False, ci_stats = new_consumer_stats, ci_lastActivity = now\<rparr>"

text \<open>
  Moving an information block: the new one and what is left of the old one. Strings and functions
  that were moved from are empty, as in the standard libraries in use.
\<close>

definition consumer_info_move :: "'ch consumer_info \<Rightarrow> 'ch consumer_info \<times> 'ch consumer_info" where
  "consumer_info_move other =
     (other, other\<lparr>ci_queueName := [], ci_consumerTag := [], ci_callback := None, ci_channel := None,
                  ci_stats := (ci_stats other)\<lparr>ns_consumerId := []\<rparr>\<rparr>)"

text \<open>Where a consumer thread stands, and its local variable \<open>info\<close>.\<close>

datatype thread_point = At_Start | At_Insert | At_Loop | Sleeping | At_End | Returned

record 'ch consumer_thread =
  ct_point :: thread_point
  ct_info :: "'ch consumer_info option"

datatype consumer_event =
    Consumer_Error string string string | Consumer_Connection bool string

record 'ch consumer =
  co_config :: consumer_config
  co_connection :: "connection option"
  co_running :: bool
  co_stopping :: bool
  co_consumers :: "(string \<times> 'ch consumer_info) list"
  co_stats :: consumer_stats
  co_threads :: "'ch consumer_thread list"
  co_errorCallback :: bool
  co_connectionCallback :: bool
  co_events :: "consumer_event list"

text \<open>\<open>address\<close> is the address of the object as a number, \<open>now\<close> the clock.\<close>

definition consumer_id :: "int \<Rightarrow> string" where
  "consumer_id address = ''consumer_'' @ int_string address"

definition new_consumer :: "int \<Rightarrow> ticks \<Rightarrow> consumer_config \<Rightarrow> 'ch consumer" where
  "new_consumer address now config =
     \<lparr>co_config = config, co_connection = None, co_running = False, co_stopping = False,
      co_consumers = [],
      co_stats = new_consumer_stats\<lparr>ns_consumerId := consumer_id address, ns_consumerStarted := now\<rparr>,
      co_threads = [], co_errorCallback = False, co_connectionCallback = False, co_events = []\<rparr>"

definition consumer_move :: "'ch consumer \<Rightarrow> 'ch consumer \<times> 'ch consumer" where
  "consumer_move other =
     (other, other\<lparr>co_connection := None, co_running := False, co_stopping := False,
                  co_consumers := [], co_stats := (co_stats other)\<lparr>ns_consumerId := []\<rparr>,
                  co_threads := [], co_errorCallback := False, co_connectionCallback := False\<rparr>)"

section \<open>Starting\<close>

definition validateQueue :: "string \<Rightarrow> bool" where
  "validateQueue q \<longleftrightarrow> q \<noteq> [] \<and> length q \<le> 255"

definition isValidConsumerTag :: "string \<Rightarrow> bool" where
  "isValidConsumerTag t \<longleftrightarrow> t \<noteq> [] \<and> length t \<le> 255"

text \<open>\<open>since_epoch\<close> is the clock in the ticks of \<open>system_clock\<close>.\<close>

definition generateConsumerTag :: "int \<Rightarrow> string \<Rightarrow> string" where
  "generateConsumerTag since_epoch q = ''consumer_'' @ q @ ''_'' @ int_string since_epoch"

definition handleConsumerError :: "string \<Rightarrow> string \<Rightarrow> string \<Rightarrow> 'ch consumer \<Rightarrow> 'ch consumer" where
  "handleConsumerError tag code msg c =
     (if co_errorCallback c
      then c\<lparr>co_events := co_events c @ [Consumer_Error code msg (''Consumer: '' @ tag)]\<rparr> else c)"

text \<open>
  What a call of \<open>startConsuming\<close> meets: the address of a connection it creates, the clock, the
  error of the thread library when no thread can be created.
\<close>

record start_env =
  se_address :: int
  se_since_epoch :: int
  se_now :: ticks
  se_spawn :: "string option"

definition consumer_initializeConnection :: "start_env \<Rightarrow> 'ch consumer \<Rightarrow> bool \<times> 'ch consumer" where
  "consumer_initializeConnection e c =
     (if (case co_connection c of Some cn \<Rightarrow> connection_isConnected cn | None \<Rightarrow> False) then (True, c)
      else (case connection_open (se_now e) (new_connection (se_address e) (base_config (co_config c))) of
          (b, cn) \<Rightarrow> (b, c\<lparr>co_connection := Some cn\<rparr>)))"

text \<open>The information block moves into the new thread; the map gets it from there.\<close>

definition createConsumer ::
    "start_env \<Rightarrow> string \<Rightarrow> string \<Rightarrow> message_callback option \<Rightarrow> 'ch \<Rightarrow> 'ch consumer \<Rightarrow>
      (string + bool) \<times> 'ch consumer" where
  "createConsumer e queue tag cb ch c =
     (let info = (new_consumer_info (se_now e) queue tag cb ch)\<lparr>ci_active := True\<rparr>
      in case se_spawn e of
           Some what \<Rightarrow> (Inl what, c)
         | None \<Rightarrow> (Inr True, c\<lparr>co_threads := co_threads c @
               [\<lparr>ct_point = At_Start, ct_info = Some info\<rparr>]\<rparr>))"

definition startConsuming_tag ::
    "'ch connection_decls \<Rightarrow> start_env \<Rightarrow> string \<Rightarrow> string \<Rightarrow> message_callback option \<Rightarrow> 'ch consumer \<Rightarrow>
      bool \<times> 'ch consumer" where
  "startConsuming_tag D e queue tag cb c =
     (if \<not> validateQueue queue then (False, c)
      else if map_of (co_consumers c) queue \<noteq> None then (False, c)
      else (case consumer_initializeConnection e c of
          (False, c1) \<Rightarrow> (False, c1)
        | (True, c1) \<Rightarrow> (case cd_createChannel D (the (co_connection c1)) of
            (Inl what, cn) \<Rightarrow>
              (False, handleConsumerError [] ''CONSUMER_START_ERROR'' what (c1\<lparr>co_connection := Some cn\<rparr>))
          | (Inr None, cn) \<Rightarrow> (False, c1\<lparr>co_connection := Some cn\<rparr>)
          | (Inr (Some ch), cn) \<Rightarrow>
              (let actual = (if tag = [] then generateConsumerTag (se_since_epoch e) queue else tag)
               in case createConsumer e queue actual cb ch (c1\<lparr>co_connection := Some cn\<rparr>) of
                    (Inl what, c2) \<Rightarrow>
                      (False, handleConsumerError [] ''CONSUMER_START_ERROR'' what c2)
                  | (Inr False, c2) \<Rightarrow> (False, c2)
                  | (Inr True, c2) \<Rightarrow> (True, c2\<lparr>co_running := True\<rparr>)))))"

definition startConsuming ::
    "'ch connection_decls \<Rightarrow> start_env \<Rightarrow> string \<Rightarrow> message_callback option \<Rightarrow> 'ch consumer \<Rightarrow>
      bool \<times> 'ch consumer" where
  "startConsuming D e queue cb c = startConsuming_tag D e queue [] cb c"

definition startConsuming_exchange ::
    "'ch connection_decls \<Rightarrow> start_env \<Rightarrow> string \<Rightarrow> string \<Rightarrow> message_callback option \<Rightarrow> string \<Rightarrow> string \<Rightarrow>
      'ch consumer \<Rightarrow> bool \<times> 'ch consumer" where
  "startConsuming_exchange D e queue tag cb exchangeName routingKey c = startConsuming_tag D e queue tag cb c"

definition startConsuming_config ::
    "'ch connection_decls \<Rightarrow> start_env \<Rightarrow> string \<Rightarrow> message_callback option \<Rightarrow> consumer_config \<Rightarrow>
      'ch consumer \<Rightarrow> bool \<times> 'ch consumer" where
  "startConsuming_config D e queue cb customConfig c =
     (case startConsuming D e queue cb (c\<lparr>co_config := customConfig\<rparr>) of
        (result, c') \<Rightarrow> (result, c'\<lparr>co_config := co_config c\<rparr>))"

section \<open>The consumer threads\<close>

text \<open>
  One turn of a thread in \<open>consumerThreadFunc\<close>: up to the next lock, sleep or test of the loop.
  Each turn that names \<open>info->\<close> needs the pointer; inserting into the map moves it away.
\<close>

definition thread_turn :: "'ch consumer_thread \<Rightarrow> 'ch consumer \<Rightarrow> ('ch consumer_thread \<times> 'ch consumer) option" where
  "thread_turn t c = (case ct_point t of
     At_Start \<Rightarrow> (case ct_info t of
         None \<Rightarrow> None
       | Some info \<Rightarrow> Some (t\<lparr>ct_point := At_Insert\<rparr>, c))
   | At_Insert \<Rightarrow> (case ct_info t of
         None \<Rightarrow> None
       | Some info \<Rightarrow> Some (t\<lparr>ct_point := At_Loop, ct_info := None\<rparr>,
           c\<lparr>co_consumers := om_set (ci_queueName info) info (co_consumers c)\<rparr>))
   | At_Loop \<Rightarrow>
       Some (t\<lparr>ct_point := (if co_running c \<and> \<not> co_stopping c then Sleeping else At_End)\<rparr>, c)
   | Sleeping \<Rightarrow> (case ct_info t of
         None \<Rightarrow> None
       | Some info \<Rightarrow> (case map_of (co_consumers c) (ci_queueName info) of
             None \<Rightarrow> Some (t\<lparr>ct_point := At_End\<rparr>, c)
           | Some entry \<Rightarrow> Some (t\<lparr>ct_point := (if ci_active entry then At_Loop else At_End)\<rparr>, c)))
   | At_End \<Rightarrow> (case ct_info t of
         None \<Rightarrow> None
       | Some info \<Rightarrow> Some (t\<lparr>ct_point := Returned\<rparr>, c))
   | Returned \<Rightarrow> Some (t, c))"

definition consumer_turn :: "nat \<Rightarrow> 'ch consumer \<Rightarrow> 'ch consumer option" where
  "consumer_turn i c = (case thread_turn (co_threads c ! i) c of
     None \<Rightarrow> None
   | Some (t, c') \<Rightarrow> Some (c'\<lparr>co_threads := (co_threads c')[i := t]\<rparr>))"

section \<open>Stopping\<close>

text \<open>
  \<open>stopConsuming()\<close> marks the consumers inactive, waits for every thread, then clears up; while it
  waits it holds no lock.
\<close>

definition stop_begin :: "'ch consumer \<Rightarrow> 'ch consumer" where
  "stop_begin c = c\<lparr>co_stopping := True,
     co_consumers := map (\<lambda>(q, i). (q, i\<lparr>ci_active := False\<rparr>)) (co_consumers c)\<rparr>"

definition threads_returned :: "'ch consumer \<Rightarrow> bool" where
  "threads_returned c \<longleftrightarrow> list_all (\<lambda>t. ct_point t = Returned) (co_threads c)"

definition stop_end :: "'ch consumer \<Rightarrow> 'ch consumer" where
  "stop_end c = c\<lparr>co_threads := [], co_consumers := [], co_running := False, co_stopping := False\<rparr>"

definition stopConsuming :: "string \<Rightarrow> 'ch consumer \<Rightarrow> bool \<times> 'ch consumer" where
  "stopConsuming queue c = (case map_of (co_consumers c) queue of
     None \<Rightarrow> (False, c)
   | Some info \<Rightarrow> (True, c\<lparr>co_consumers := al_del queue (co_consumers c)\<rparr>))"

definition cleanupConsumer :: "string \<Rightarrow> 'ch consumer \<Rightarrow> 'ch consumer" where
  "cleanupConsumer queue c = (case map_of (co_consumers c) queue of
     None \<Rightarrow> c
   | Some info \<Rightarrow> c\<lparr>co_consumers := al_del queue (co_consumers c)\<rparr>)"

definition consumer_teardownConnection :: "'ch consumer \<Rightarrow> 'ch consumer" where
  "consumer_teardownConnection c = c\<lparr>co_connection := None\<rparr>"

text \<open>
  The destructor and \<open>cleanup\<close>: \<open>stopConsuming()\<close> and the end of the connection. \<open>None\<close>: the wait for
  a thread that has not returned.
\<close>

definition consumer_cleanup :: "'ch consumer \<Rightarrow> 'ch consumer option" where
  "consumer_cleanup c =
     (if threads_returned (stop_begin c)
      then Some (consumer_teardownConnection (stop_end (stop_begin c))) else None)"

text \<open>
  Move assignment waits for the threads of the target in the same way; the connection of the target
  is replaced. The second component is what is left of the source.
\<close>

definition consumer_move_assign ::
    "'ch consumer \<Rightarrow> 'ch consumer \<Rightarrow> ('ch consumer \<times> 'ch consumer) option" where
  "consumer_move_assign c other =
     (if threads_returned (stop_begin c) then Some (consumer_move other) else None)"

section \<open>Acknowledging\<close>

definition consumer_isConnected :: "'ch consumer \<Rightarrow> bool" where
  "consumer_isConnected c \<longleftrightarrow>
     (case co_connection c of Some cn \<Rightarrow> connection_isConnected cn | None \<Rightarrow> False)"

definition consumer_getConnectionState :: "'ch connection_decls \<Rightarrow> 'ch consumer \<Rightarrow> connection_state" where
  "consumer_getConnectionState D c =
     (case co_connection c of Some cn \<Rightarrow> cd_getState D cn | None \<Rightarrow> CS_Disconnected)"

definition getMessage :: "string \<Rightarrow> bool \<Rightarrow> 'ch consumer \<Rightarrow> (rmessage \<times> u64) option" where
  "getMessage queue noAck c = None"

definition acknowledge :: "u64 \<Rightarrow> 'ch consumer \<Rightarrow> bool \<times> 'ch consumer" where
  "acknowledge deliveryTag c =
     (if \<not> consumer_isConnected c then (False, c)
      else (True, c\<lparr>co_stats := (co_stats c)
             \<lparr>ns_messagesAcknowledged := ns_messagesAcknowledged (co_stats c) + 1\<rparr>\<rparr>))"

definition acknowledgeMultiple :: "u64 \<Rightarrow> 'ch consumer \<Rightarrow> bool \<times> 'ch consumer" where
  "acknowledgeMultiple deliveryTag c = (if \<not> consumer_isConnected c then (False, c) else (True, c))"

definition reject :: "u64 \<Rightarrow> bool \<Rightarrow> 'ch consumer \<Rightarrow> bool \<times> 'ch consumer" where
  "reject deliveryTag requeue c =
     (if \<not> consumer_isConnected c then (False, c)
      else (True, c\<lparr>co_stats := (if requeue
             then (co_stats c)\<lparr>ns_messagesRequeued := ns_messagesRequeued (co_stats c) + 1\<rparr>
             else (co_stats c)\<lparr>ns_messagesRejected := ns_messagesRejected (co_stats c) + 1\<rparr>)\<rparr>))"

definition rejectMultiple :: "u64 \<Rightarrow> bool \<Rightarrow> 'ch consumer \<Rightarrow> bool \<times> 'ch consumer" where
  "rejectMultiple deliveryTag requeue c = (if \<not> consumer_isConnected c then (False, c) else (True, c))"

definition nack :: "u64 \<Rightarrow> bool \<Rightarrow> bool \<Rightarrow> 'ch consumer \<Rightarrow> bool \<times> 'ch consumer" where
  "nack deliveryTag multiple requeue c = (if \<not> consumer_isConnected c then (False, c) else (True, c))"

section \<open>Messages and statistics\<close>

text \<open>\<open>updateAggregatedStats\<close>: six counters are summed over the map, everything else is reset.\<close>

definition add_consumer_stats :: "consumer_stats \<Rightarrow> consumer_stats \<Rightarrow> consumer_stats" where
  "add_consumer_stats a s = a
     \<lparr>ns_messagesReceived := ns_messagesReceived a + ns_messagesReceived s,
      ns_messagesAcknowledged := ns_messagesAcknowledged a + ns_messagesAcknowledged s,
      ns_messagesRejected := ns_messagesRejected a + ns_messagesRejected s,
      ns_messagesRequeued := ns_messagesRequeued a + ns_messagesRequeued s,
      ns_messagesUnacked := ns_messagesUnacked a + ns_messagesUnacked s,
      ns_bytesReceived := ns_bytesReceived a + ns_bytesReceived s\<rparr>"

definition updateAggregatedStats :: "'ch consumer \<Rightarrow> 'ch consumer" where
  "updateAggregatedStats c = c\<lparr>co_stats :=
     foldl (\<lambda>a (q, info). add_consumer_stats a (ci_stats info))
       (new_consumer_stats\<lparr>ns_consumerId := ns_consumerId (co_stats c),
                           ns_consumerStarted := ns_consumerStarted (co_stats c)\<rparr>)
       (co_consumers c)\<rparr>"

text \<open>How long the processing took in milliseconds, and the time it ended.\<close>

type_synonym processing_time = "ticks \<times> ticks"

definition count_processed :: "bool \<Rightarrow> processing_time \<Rightarrow> consumer_stats \<Rightarrow> consumer_stats" where
  "count_processed ok tm st =
     (case update_timing (fst tm) (ns_maxProcessingTime st, ns_avgProcessingTime st) of (mx, av) \<Rightarrow>
       (if ok then st\<lparr>ns_messagesAcknowledged := ns_messagesAcknowledged st + 1\<rparr>
        else st\<lparr>ns_messagesRejected := ns_messagesRejected st + 1\<rparr>)
       \<lparr>ns_messagesReceived := ns_messagesReceived st + 1, ns_lastMessage := snd tm,
        ns_maxProcessingTime := mx, ns_avgProcessingTime := av\<rparr>)"

text \<open>
  The information block a message is processed for is the one in the map. Nothing calls
  \<open>processMessage\<close>.
\<close>

definition updateStatsForConsumer ::
    "string \<Rightarrow> 'ch consumer_info \<Rightarrow> bool \<Rightarrow> processing_time \<Rightarrow> 'ch consumer \<Rightarrow> 'ch consumer" where
  "updateStatsForConsumer q info ok tm c =
     updateAggregatedStats (c\<lparr>co_consumers :=
       om_set q (info\<lparr>ci_stats := count_processed ok tm (ci_stats info)\<rparr>) (co_consumers c)\<rparr>)"

definition processMessage ::
    "processing_time \<Rightarrow> string \<Rightarrow> 'ch consumer_info \<Rightarrow> rmessage \<Rightarrow> u64 \<Rightarrow> 'ch consumer \<Rightarrow>
      bool \<times> 'ch consumer" where
  "processMessage tm q info m deliveryTag c =
     (case (case ci_callback info of
              None \<Rightarrow> None
            | Some f \<Rightarrow> f (ci_consumerTag info) (ci_queueName info) m deliveryTag) of
        None \<Rightarrow> (False, c)
      | Some result \<Rightarrow> (result, updateStatsForConsumer q info result tm c))"

definition consumer_getStats :: "'ch consumer \<Rightarrow> consumer_stats" where
  "consumer_getStats c = copy_consumer_stats (co_stats c)"

definition getStatsForQueue :: "string \<Rightarrow> 'ch consumer \<Rightarrow> consumer_stats" where
  "getStatsForQueue q c = (case map_of (co_consumers c) q of
     Some info \<Rightarrow> copy_consumer_stats (ci_stats info) | None \<Rightarrow> new_consumer_stats)"

definition consumer_resetStats :: "int \<Rightarrow> ticks \<Rightarrow> 'ch consumer \<Rightarrow> 'ch consumer" where
  "consumer_resetStats address now c = c\<lparr>
     co_stats := new_consumer_stats\<lparr>ns_consumerId := consumer_id address, ns_consumerStarted := now\<rparr>,
     co_consumers := map (\<lambda>(q, i). (q, i\<lparr>ci_stats := new_consumer_stats\<rparr>)) (co_consumers c)\<rparr>"

definition getActiveConsumers :: "'ch consumer \<Rightarrow> string list" where
  "getActiveConsumers c = map fst (filter (\<lambda>(q, i). ci_active i) (co_consumers c))"

text \<open>\<open>getConsumerInfo\<close> moves the information out of the map although it is a query.\<close>

definition getConsumerInfo :: "'ch consumer \<Rightarrow> 'ch consumer_info list \<times> 'ch consumer" where
  "getConsumerInfo c =
     (map (\<lambda>(q, i). fst (consumer_info_move i)) (co_consumers c),
      c\<lparr>co_consumers := map (\<lambda>(q, i). (q, snd (consumer_info_move i))) (co_consumers c)\<rparr>)"

definition consumer_updateConfig :: "consumer_config \<Rightarrow> 'ch consumer \<Rightarrow> bool \<times> 'ch consumer" where
  "consumer_updateConfig config c = (True, c\<lparr>co_config := config\<rparr>)"

definition consumer_setErrorCallback :: "bool \<Rightarrow> 'ch consumer \<Rightarrow> 'ch consumer" where
  "consumer_setErrorCallback b c = c\<lparr>co_errorCallback := b\<rparr>"

definition consumer_setConnectionCallback :: "bool \<Rightarrow> 'ch consumer \<Rightarrow> 'ch consumer" where
  "consumer_setConnectionCallback b c = c\<lparr>co_connectionCallback := b\<rparr>"

definition consumer_onConnectionStateChanged ::
    "connection_state \<Rightarrow> string \<Rightarrow> 'ch consumer \<Rightarrow> 'ch consumer" where
  "consumer_onConnectionStateChanged state reason c =
     (if co_connectionCallback c
      then c\<lparr>co_events := co_events c @ [Consumer_Connection (state = CS_Connected) reason]\<rparr> else c)"

section \<open>The factory\<close>

text \<open>The consumers for commands, telemetry and debugging are plain ones.\<close>

definition createCommandConsumer :: "int \<Rightarrow> ticks \<Rightarrow> consumer_config \<Rightarrow> 'ch consumer" where
  "createCommandConsumer address now config = new_consumer address now config"

definition createTelemetryConsumer :: "int \<Rightarrow> ticks \<Rightarrow> consumer_config \<Rightarrow> 'ch consumer" where
  "createTelemetryConsumer address now config = new_consumer address now config"

definition createDebugConsumer :: "int \<Rightarrow> ticks \<Rightarrow> consumer_config \<Rightarrow> 'ch consumer" where
  "createDebugConsumer address now config = new_consumer address now config"

definition createHighThroughputConsumer :: "int \<Rightarrow> ticks \<Rightarrow> connection_config \<Rightarrow> 'ch consumer" where
  "createHighThroughputConsumer address now c =
     new_consumer address now ((consumer_config_of c)\<lparr>sc_prefetchCount := 100, sc_autoAck := True\<rparr>)"

definition createReliableConsumer :: "int \<Rightarrow> ticks \<Rightarrow> connection_config \<Rightarrow> 'ch consumer" where
  "createReliableConsumer address now c =
     new_consumer address now ((consumer_config_of c)
       \<lparr>sc_prefetchCount := 1, sc_autoAck := False, sc_autoRecover := True\<rparr>)"

definition createLowLatencyConsumer :: "int \<Rightarrow> ticks \<Rightarrow> connection_config \<Rightarrow> 'ch consumer" where
  "createLowLatencyConsumer address now c =
     new_consumer address now ((consumer_config_of c)\<lparr>sc_prefetchCount := 10, sc_ackTimeout := 1000\<rparr>)"

definition consumer_createOptimizedConfig :: "connection_config \<Rightarrow> string \<Rightarrow> consumer_config" where
  "consumer_createOptimizedConfig c optimization =
     (let config = consumer_config_of c
      in if optimization = ''high_throughput''
         then config\<lparr>sc_prefetchCount := 100, sc_autoAck := True\<rparr>
         else if optimization = ''reliable''
         then config\<lparr>sc_prefetchCount := 1, sc_autoAck := False, sc_autoRecover := True\<rparr>
         else if optimization = ''low_latency''
         then config\<lparr>sc_prefetchCount := 10, sc_ackTimeout := 1000\<rparr>
         else config)"

section \<open>Many queues\<close>

record 'ch multi_consumer =
  mq_config :: consumer_config
  mq_running :: bool
  mq_callbacks :: "(string \<times> message_callback option) list"
  mq_consumers :: "'ch consumer list"

definition new_multi_consumer :: "consumer_config \<Rightarrow> 'ch multi_consumer" where
  "new_multi_consumer config =
     \<lparr>mq_config = config, mq_running = False, mq_callbacks = [], mq_consumers = []\<rparr>"

definition addQueue :: "string \<Rightarrow> message_callback option \<Rightarrow> 'ch multi_consumer \<Rightarrow> bool \<times> 'ch multi_consumer" where
  "addQueue q cb m = (True, m\<lparr>mq_callbacks := om_set q cb (mq_callbacks m)\<rparr>)"

definition removeQueue :: "string \<Rightarrow> 'ch multi_consumer \<Rightarrow> bool \<times> 'ch multi_consumer" where
  "removeQueue q m = (True, m\<lparr>mq_callbacks := al_del q (mq_callbacks m)\<rparr>)"

definition device_queue :: "string \<Rightarrow> string \<Rightarrow> string \<Rightarrow> string" where
  "device_queue region imei suffix = region @ ''.'' @ imei @ suffix"

definition addDevice ::
    "string \<Rightarrow> string \<Rightarrow> message_callback option \<Rightarrow> 'ch multi_consumer \<Rightarrow> bool \<times> 'ch multi_consumer" where
  "addDevice region imei cb m =
     (case addQueue (device_queue region imei ''_inbound'') cb m of (b1, m1) \<Rightarrow>
       (case addQueue (device_queue region imei ''_outbound'') cb m1 of (b2, m2) \<Rightarrow> (b1 \<and> b2, m2)))"

definition removeDevice :: "string \<Rightarrow> string \<Rightarrow> 'ch multi_consumer \<Rightarrow> bool \<times> 'ch multi_consumer" where
  "removeDevice region imei m =
     (case removeQueue (device_queue region imei ''_inbound'') m of (b1, m1) \<Rightarrow>
       (case removeQueue (device_queue region imei ''_outbound'') m1 of (b2, m2) \<Rightarrow> (b1 \<and> b2, m2)))"

text \<open>
  One consumer per queue; one that cannot start is destroyed again, and no thread of it exists.
  \<open>env\<close> is what the construction and the start of the consumer of a queue meet.
\<close>

definition start_queues ::
    "'ch connection_decls \<Rightarrow> (string \<Rightarrow> int \<times> start_env) \<Rightarrow> consumer_config \<Rightarrow>
      (string \<times> message_callback option) list \<Rightarrow> 'ch consumer list" where
  "start_queues D env config qs = concat (map (\<lambda>(q, cb).
     case startConsuming D (snd (env q)) q cb (new_consumer (fst (env q)) (se_now (snd (env q))) config) of
       (b, c) \<Rightarrow> if b then [c] else []) qs)"

definition multi_start ::
    "'ch connection_decls \<Rightarrow> (string \<Rightarrow> int \<times> start_env) \<Rightarrow> 'ch multi_consumer \<Rightarrow> bool \<times> 'ch multi_consumer" where
  "multi_start D env m =
     (if mq_running m then (True, m)
      else (True, m\<lparr>mq_consumers := mq_consumers m @ start_queues D env (mq_config m) (mq_callbacks m),
                    mq_running := True\<rparr>))"

definition multi_stop :: "'ch multi_consumer \<Rightarrow> 'ch multi_consumer option" where
  "multi_stop m =
     (if list_all (\<lambda>c. consumer_cleanup c \<noteq> None) (mq_consumers m)
      then Some (m\<lparr>mq_running := False, mq_consumers := []\<rparr>) else None)"

definition multi_isRunning :: "'ch multi_consumer \<Rightarrow> bool" where
  "multi_isRunning m = mq_running m"

text \<open>The sum over several consumers takes four counters.\<close>

definition aggregate_stats :: "'ch consumer list \<Rightarrow> consumer_stats" where
  "aggregate_stats cs = foldl (\<lambda>a c. let s = consumer_getStats c in
     a\<lparr>ns_messagesReceived := ns_messagesReceived a + ns_messagesReceived s,
       ns_messagesAcknowledged := ns_messagesAcknowledged a + ns_messagesAcknowledged s,
       ns_messagesRejected := ns_messagesRejected a + ns_messagesRejected s,
       ns_bytesReceived := ns_bytesReceived a + ns_bytesReceived s\<rparr>) new_consumer_stats cs"

definition multi_getAggregatedStats :: "'ch multi_consumer \<Rightarrow> consumer_stats" where
  "multi_getAggregatedStats m = aggregate_stats (mq_consumers m)"

definition getPerQueueStats :: "'ch multi_consumer \<Rightarrow> (string \<times> consumer_stats) list" where
  "getPerQueueStats m = []"

definition multi_updateConfig :: "consumer_config \<Rightarrow> 'ch multi_consumer \<Rightarrow> 'ch multi_consumer" where
  "multi_updateConfig config m = m\<lparr>mq_config := config\<rparr>"

section \<open>The pool\<close>

record 'ch consumer_pool =
  cp_config :: consumer_config
  cp_poolSize :: u64
  cp_running :: bool
  cp_consumers :: "'ch consumer list"

definition new_consumer_pool :: "consumer_config \<Rightarrow> u64 \<Rightarrow> 'ch consumer_pool" where
  "new_consumer_pool config poolSize =
     \<lparr>cp_config = config, cp_poolSize = poolSize, cp_running = False, cp_consumers = []\<rparr>"

text \<open>\<open>env\<close>: the address and the clock for the i-th consumer. The pool is empty before.\<close>

definition initializePool :: "(nat \<Rightarrow> int \<times> ticks) \<Rightarrow> 'ch consumer_pool \<Rightarrow> 'ch consumer_pool" where
  "initializePool env p = p\<lparr>cp_consumers :=
     map (\<lambda>i. new_consumer (fst (env i)) (snd (env i)) (cp_config p)) [0..<unat (cp_poolSize p)]\<rparr>"

definition consumer_pool_start :: "(nat \<Rightarrow> int \<times> ticks) \<Rightarrow> 'ch consumer_pool \<Rightarrow> bool \<times> 'ch consumer_pool" where
  "consumer_pool_start env p =
     (if cp_running p then (True, p) else (True, (initializePool env p)\<lparr>cp_running := True\<rparr>))"

definition consumer_pool_stop :: "'ch consumer_pool \<Rightarrow> 'ch consumer_pool option" where
  "consumer_pool_stop p =
     (if list_all (\<lambda>c. consumer_cleanup c \<noteq> None) (cp_consumers p)
      then Some (p\<lparr>cp_running := False, cp_consumers := []\<rparr>) else None)"

definition addConsumer ::
    "'ch connection_decls \<Rightarrow> start_env \<Rightarrow> string \<Rightarrow> message_callback option \<Rightarrow> 'ch consumer_pool \<Rightarrow>
      bool \<times> 'ch consumer_pool" where
  "addConsumer D e q cb p =
     (if \<not> cp_running p then (False, p)
      else (case cp_consumers p of
          [] \<Rightarrow> (False, p)
        | c # cs \<Rightarrow> (case startConsuming D e q cb c of (b, c') \<Rightarrow> (b, p\<lparr>cp_consumers := c' # cs\<rparr>))))"

fun remove_from :: "string \<Rightarrow> 'ch consumer list \<Rightarrow> bool \<times> 'ch consumer list" where
  "remove_from q [] = (False, [])"
| "remove_from q (c # cs) = (case stopConsuming q c of
     (True, c') \<Rightarrow> (True, c' # cs)
   | (False, c') \<Rightarrow> (case remove_from q cs of (b, cs') \<Rightarrow> (b, c' # cs')))"

definition cleanupPool :: "'ch consumer_pool \<Rightarrow> 'ch consumer_pool option" where
  "cleanupPool p =
     (if list_all (\<lambda>c. consumer_cleanup c \<noteq> None) (cp_consumers p)
      then Some (p\<lparr>cp_consumers := []\<rparr>) else None)"

definition consumer_pool_isRunning :: "'ch consumer_pool \<Rightarrow> bool" where
  "consumer_pool_isRunning p = cp_running p"

text \<open>\<open>performHealthCheck\<close> looks at every consumer and logs; it gives how many are not connected.\<close>

definition performHealthCheck :: "'ch consumer_pool \<Rightarrow> nat" where
  "performHealthCheck p = length (filter (\<lambda>c. \<not> consumer_isConnected c) (cp_consumers p))"

lemma consumer_pool_stop_cleanup: "consumer_pool_stop p = map_option (\<lambda>p. p\<lparr>cp_running := False\<rparr>) (cleanupPool p)"
  by (simp add: consumer_pool_stop_def cleanupPool_def)

definition removeConsumer :: "string \<Rightarrow> 'ch consumer_pool \<Rightarrow> bool \<times> 'ch consumer_pool" where
  "removeConsumer q p = (case remove_from q (cp_consumers p) of (b, cs) \<Rightarrow> (b, p\<lparr>cp_consumers := cs\<rparr>))"

definition consumer_pool_getAggregatedStats :: "'ch consumer_pool \<Rightarrow> consumer_stats" where
  "consumer_pool_getAggregatedStats p = aggregate_stats (cp_consumers p)"

definition getIndividualStats :: "'ch consumer_pool \<Rightarrow> consumer_stats list" where
  "getIndividualStats p = map consumer_getStats (cp_consumers p)"

section \<open>The whole program\<close>

text \<open>
  The calls of the owner other than \<open>stopConsuming()\<close>, and the state after each. A callback that
  the owner passes is only stored.
\<close>

datatype consumer_call =
    K_start start_env string string "message_callback option"
  | K_start_config start_env string "message_callback option" consumer_config
  | K_stop string | K_acknowledge u64 | K_reject u64 bool | K_getConsumerInfo
  | K_resetStats int ticks | K_updateConfig consumer_config | K_setErrorCallback bool
  | K_setConnectionCallback bool

fun consumer_after :: "'ch connection_decls \<Rightarrow> consumer_call \<Rightarrow> 'ch consumer \<Rightarrow> 'ch consumer" where
  "consumer_after D (K_start e q tag cb) c = snd (startConsuming_tag D e q tag cb c)"
| "consumer_after D (K_start_config e q cb config) c = snd (startConsuming_config D e q cb config c)"
| "consumer_after D (K_stop q) c = snd (stopConsuming q c)"
| "consumer_after D (K_acknowledge t) c = snd (acknowledge t c)"
| "consumer_after D (K_reject t requeue) c = snd (reject t requeue c)"
| "consumer_after D K_getConsumerInfo c = snd (getConsumerInfo c)"
| "consumer_after D (K_resetStats a now) c = consumer_resetStats a now c"
| "consumer_after D (K_updateConfig config) c = snd (consumer_updateConfig config c)"
| "consumer_after D (K_setErrorCallback b) c = consumer_setErrorCallback b c"
| "consumer_after D (K_setConnectionCallback b) c = consumer_setConnectionCallback b c"

text \<open>
  The owner is between two calls or waits in \<open>stopConsuming()\<close>; \<open>Undefined\<close> is reached when a
  thread uses an empty pointer.
\<close>

datatype owner = Free | Joining

datatype 'ch program = Running owner "'ch consumer" | Undefined

inductive program_step :: "'ch connection_decls \<Rightarrow> 'ch program \<Rightarrow> 'ch program \<Rightarrow> bool" for D where
  call: "program_step D (Running Free c) (Running Free (consumer_after D k c))"
| stop: "program_step D (Running Free c) (Running Joining (stop_begin c))"
| joined: "threads_returned c \<Longrightarrow> program_step D (Running Joining c) (Running Free (stop_end c))"
| turn: "i < length (co_threads c) \<Longrightarrow> consumer_turn i c = Some c' \<Longrightarrow>
    program_step D (Running w c) (Running w c')"
| fault: "i < length (co_threads c) \<Longrightarrow> consumer_turn i c = None \<Longrightarrow>
    program_step D (Running w c) Undefined"

inductive_cases program_step_joined: "program_step D (Running Joining c) (Running Free c')"

abbreviation program_run :: "'ch connection_decls \<Rightarrow> 'ch consumer \<Rightarrow> 'ch program \<Rightarrow> bool" where
  "program_run D c \<equiv> (program_step D)\<^sup>*\<^sup>* (Running Free c)"

section \<open>Threads keep or have lost their information\<close>

definition thread_ok :: "'ch consumer_thread \<Rightarrow> bool" where
  "thread_ok t \<longleftrightarrow> (case ct_info t of
     Some info \<Rightarrow> ct_point t \<in> {At_Start, At_Insert} \<and> ns_messagesReceived (ci_stats info) = 0
   | None \<Rightarrow> ct_point t \<in> {At_Loop, Sleeping, At_End})"

definition undelivered :: "'ch consumer \<Rightarrow> bool" where
  "undelivered c \<longleftrightarrow> list_all thread_ok (co_threads c) \<and>
     list_all (\<lambda>e. ns_messagesReceived (ci_stats (snd e)) = 0) (co_consumers c) \<and>
     ns_messagesReceived (co_stats c) = 0"

lemma list_all_om_set_pairs:
  "list_all P m \<Longrightarrow> P (k, v) \<Longrightarrow> list_all P (om_set k v m)"
  by (induction k v m rule: om_set.induct) auto

lemma list_all_al_del: "list_all P m \<Longrightarrow> list_all P (al_del k m)"
  by (auto simp: al_del_def list_all_iff)

lemma undelivered_frame:
  "co_threads c' = co_threads c \<Longrightarrow> co_consumers c' = co_consumers c \<Longrightarrow>
    ns_messagesReceived (co_stats c') = ns_messagesReceived (co_stats c) \<Longrightarrow> undelivered c' = undelivered c"
  by (simp add: undelivered_def)

lemma undelivered_updates [simp]:
  "undelivered (c\<lparr>co_config := f\<rparr>) = undelivered c"
  "undelivered (c\<lparr>co_connection := n\<rparr>) = undelivered c"
  "undelivered (c\<lparr>co_running := b\<rparr>) = undelivered c"
  "undelivered (c\<lparr>co_errorCallback := b\<rparr>) = undelivered c"
  "undelivered (c\<lparr>co_connectionCallback := b\<rparr>) = undelivered c"
  "undelivered (handleConsumerError t e m c) = undelivered c"
  by (simp_all add: undelivered_def handleConsumerError_def)

lemma createConsumer_undelivered:
  "undelivered c \<Longrightarrow> undelivered (snd (createConsumer e q tag cb ch c))"
  by (simp add: createConsumer_def Let_def undelivered_def thread_ok_def new_consumer_info_def
      new_consumer_stats_def split: option.split)

lemma initializeConnection_undelivered [simp]:
  "undelivered (snd (consumer_initializeConnection e c)) = undelivered c"
  by (simp add: consumer_initializeConnection_def split: prod.split)

lemma startConsuming_undelivered:
  assumes "undelivered c"
  shows "undelivered (snd (startConsuming_tag D e q tag cb c))"
proof -
  obtain b c1 where ini: "consumer_initializeConnection e c = (b, c1)" by (rule prod.exhaust)
  then have c1: "undelivered c1" using initializeConnection_undelivered [of e c] assms by simp
  obtain r cn where ch: "cd_createChannel D (the (co_connection c1)) = (r, cn)" by (rule prod.exhaust)
  have "undelivered (snd (createConsumer e q t cb h (c1\<lparr>co_connection := Some cn\<rparr>)))" for t h
    by (rule createConsumer_undelivered) (simp add: c1)
  with assms c1 show ?thesis
    by (simp add: startConsuming_tag_def ini ch Let_def case_prod_beta split: bool.split sum.split option.split)
qed

lemma consumer_after_undelivered: "undelivered c \<Longrightarrow> undelivered (consumer_after D k c)"
proof (cases k)
  case (K_start e q tag cb)
  then show "undelivered c \<Longrightarrow> ?thesis" by (simp add: startConsuming_undelivered)
next
  case (K_start_config e q cb config)
  assume "undelivered c"
  then have "undelivered (snd (startConsuming_tag D e q [] cb (c\<lparr>co_config := config\<rparr>)))"
    by (intro startConsuming_undelivered) simp
  then show ?thesis
    by (simp add: K_start_config startConsuming_config_def startConsuming_def case_prod_beta)
qed (auto simp: undelivered_def stopConsuming_def acknowledge_def reject_def getConsumerInfo_def
    consumer_info_move_def consumer_resetStats_def consumer_updateConfig_def consumer_setErrorCallback_def
    consumer_setConnectionCallback_def new_consumer_stats_def list_all_al_del list.pred_map list.pred_True comp_def case_prod_beta
    split: option.split)

lemma stop_undelivered:
  "undelivered c \<Longrightarrow> undelivered (stop_begin c)" "undelivered c \<Longrightarrow> undelivered (stop_end c)"
  by (simp_all add: undelivered_def stop_begin_def stop_end_def list.pred_map comp_def case_prod_beta)

lemma thread_turn_undelivered:
  assumes "undelivered c" "thread_ok t" "thread_turn t c = Some (t', c')"
  shows "thread_ok t' \<and> undelivered c' \<and> co_threads c' = co_threads c"
  using assms
  by (auto simp: thread_turn_def thread_ok_def undelivered_def list_all_om_set_pairs
      split: thread_point.splits option.splits if_splits)

lemma list_all_update: "list_all P xs \<Longrightarrow> P x \<Longrightarrow> list_all P (xs[i := x])"
  by (induction xs arbitrary: i) (auto split: nat.split)

lemma consumer_turn_undelivered:
  assumes "undelivered c" "i < length (co_threads c)" "consumer_turn i c = Some c'"
  shows "undelivered c'"
proof -
  obtain t c1 where t: "thread_turn (co_threads c ! i) c = Some (t, c1)"
      "c' = c1\<lparr>co_threads := (co_threads c1)[i := t]\<rparr>"
    using assms(3) by (auto simp: consumer_turn_def split: option.splits)
  have "thread_ok (co_threads c ! i)" using assms(1,2) by (simp add: undelivered_def list_all_length)
  from thread_turn_undelivered [OF assms(1) this t(1)]
  have "thread_ok t" and c1: "undelivered c1" by simp_all
  then have "list_all thread_ok ((co_threads c1)[i := t])"
    by (intro list_all_update) (simp_all add: undelivered_def)
  with c1 show ?thesis by (simp add: t(2) undelivered_def)
qed

lemma program_undelivered:
  assumes "program_run D c s" "undelivered c"
  shows "case s of Running w c' \<Rightarrow> undelivered c' | Undefined \<Rightarrow> True"
  using assms(1)
proof (induction rule: rtranclp_induct)
  case (step s s')
  from step(2,3) show ?case
    by cases (auto intro: consumer_after_undelivered stop_undelivered consumer_turn_undelivered)
qed (simp add: assms(2))

text \<open>A thread left alone, for a number of turns: \<open>None\<close> once it used an empty pointer.\<close>

fun turns_alone :: "nat \<Rightarrow> nat \<Rightarrow> 'ch consumer \<Rightarrow> 'ch consumer option" where
  "turns_alone i 0 c = Some c"
| "turns_alone i (Suc n) c = (case consumer_turn i c of None \<Rightarrow> None | Some c' \<Rightarrow> turns_alone i n c')"

lemma consumer_turn_None:
  "thread_turn (co_threads c ! i) c = None \<Longrightarrow> consumer_turn i c = None"
  by (simp add: consumer_turn_def)

lemma consumer_turn_Some:
  "thread_turn (co_threads c ! i) c = Some (t, c1) \<Longrightarrow>
    consumer_turn i c = Some (c1\<lparr>co_threads := (co_threads c1)[i := t]\<rparr>)"
  by (simp add: consumer_turn_def)

lemma empty_pointer_faults:
  assumes "i < length (co_threads c)" "ct_info (co_threads c ! i) = None"
    "ct_point (co_threads c ! i) \<noteq> Returned"
  shows "turns_alone i 2 c = None"
proof (cases "ct_point (co_threads c ! i) = At_Loop")
  case True
  obtain c1 where 1: "consumer_turn i c = Some c1" "ct_info (co_threads c1 ! i) = None"
      "ct_point (co_threads c1 ! i) \<in> {Sleeping, At_End}"
    using assms True by (auto simp: consumer_turn_def thread_turn_def)
  then have "consumer_turn i c1 = None" by (auto simp: consumer_turn_def thread_turn_def)
  with 1 show ?thesis by (simp add: numeral_2_eq_2)
next
  case False
  with assms have "consumer_turn i c = None"
    by (cases "ct_point (co_threads c ! i)") (auto simp: consumer_turn_def thread_turn_def)
  then show ?thesis by (simp add: numeral_2_eq_2)
qed

lemma turns_alone_add:
  "turns_alone i (m + n) c = (case turns_alone i m c of None \<Rightarrow> None | Some c' \<Rightarrow> turns_alone i n c')"
  by (induction m arbitrary: c) (simp_all split: option.split)

lemma ok_thread_faults:
  assumes "i < length (co_threads c)" "thread_ok (co_threads c ! i)"
  shows "turns_alone i 4 c = None"
proof (cases "ct_info (co_threads c ! i)")
  case None
  with assms have "turns_alone i 2 c = None"
    by (intro empty_pointer_faults) (auto simp: thread_ok_def)
  then show ?thesis using turns_alone_add [of i 2 2 c] by simp
next
  case (Some info)
  have ins: "\<exists>c'. consumer_turn i d = Some c' \<and> turns_alone i 2 c' = None"
    if d: "i < length (co_threads d)" "ct_info (co_threads d ! i) = Some info'" "ct_point (co_threads d ! i) = At_Insert"
    for d info'
  proof -
    obtain d' where "consumer_turn i d = Some d'" "i < length (co_threads d')"
        "ct_info (co_threads d' ! i) = None" "ct_point (co_threads d' ! i) = At_Loop"
      using d by (auto simp: consumer_turn_def thread_turn_def)
    then show ?thesis using empty_pointer_faults [of i d'] by auto
  qed
  show ?thesis
  proof (cases "ct_point (co_threads c ! i) = At_Insert")
    case True
    with ins [OF assms(1) Some] have "turns_alone i 3 c = None" by (auto simp: numeral_3_eq_3 numeral_2_eq_2)
    then show ?thesis using turns_alone_add [of i 3 1 c] by simp
  next
    case False
    with assms Some have st: "ct_point (co_threads c ! i) = At_Start" by (auto simp: thread_ok_def)
    obtain c' where "consumer_turn i c = Some c'" "i < length (co_threads c')"
        "ct_info (co_threads c' ! i) = Some info" "ct_point (co_threads c' ! i) = At_Insert"
      using assms(1) Some st by (auto simp: consumer_turn_def thread_turn_def)
    with ins [of c' info] show ?thesis by (auto simp: eval_nat_numeral)
  qed
qed

lemma new_consumer_undelivered: "undelivered (new_consumer address now config)"
  by (simp add: undelivered_def new_consumer_def new_consumer_stats_def)

section \<open>Properties of the threads\<close>

text \<open>
  C9. Every consumer thread uses an empty pointer. The thread moves its information into the map
  and reads the queue name through the moved pointer afterwards, in the loop and at its end. So in
  every reachable state of the program, whatever the owner did and however the threads were
  interleaved, any thread that exists brings the program to undefined behaviour within four turns
  of its own.
\<close>

theorem consumer_threads_fault:
  assumes "program_run D (new_consumer address now config) (Running w c)" "i < length (co_threads c)"
  shows "turns_alone i 4 c = None"
proof -
  have "undelivered c"
    using program_undelivered [OF assms(1) new_consumer_undelivered] by simp
  then have "thread_ok (co_threads c ! i)" using assms(2) by (simp add: undelivered_def list_all_length)
  with assms(2) show ?thesis by (rule ok_thread_faults)
qed

text \<open>
  C25. No consumer thread ever returns, and no message is ever delivered. In every reachable
  state that is still running, no fault having ended the program, the waits of \<open>stopConsuming()\<close> and of the
  destructor can end only if no thread was ever started; and the received counters, of the whole and
  of every queue, are zero: \<open>processMessage\<close> is not called by anything.
\<close>

theorem consumer_never_returns:
  assumes "program_run D (new_consumer address now config) (Running w c)"
  shows "(consumer_cleanup c \<noteq> None \<longleftrightarrow> co_threads c = []) \<and>
    (threads_returned c \<longleftrightarrow> co_threads c = []) \<and>
    ns_messagesReceived (consumer_getStats c) = 0 \<and> ns_messagesReceived (getStatsForQueue q c) = 0"
proof -
  have und: "undelivered c"
    using program_undelivered [OF assms new_consumer_undelivered] by simp
  have "\<not> ct_point t = Returned" if "t \<in> set (co_threads c)" for t
    using und that by (auto simp: undelivered_def list_all_iff thread_ok_def split: option.splits)
  then have "threads_returned c \<longleftrightarrow> co_threads c = []"
    by (cases "co_threads c") (auto simp: threads_returned_def)
  moreover have "ns_messagesReceived (getStatsForQueue q c) = 0"
    using und
    by (auto simp: getStatsForQueue_def stats_copied undelivered_def list_all_iff new_consumer_stats_def
        split: option.split dest!: map_of_SomeD)
  ultimately show ?thesis
    using und by (simp add: consumer_cleanup_def threads_returned_def stop_begin_def
        consumer_getStats_def stats_copied undelivered_def)
qed

text \<open>A connection that hands out channels, a start of one consumer, and three turns of its thread.\<close>

definition sample_decls :: "unit connection_decls" where
  "sample_decls = \<lparr>cd_createChannel = (\<lambda>c. (Inr (Some ()), c)), cd_getState = cn_state,
     cd_ping = (\<lambda>c. (True, c)), cd_isHealthy = connection_isConnected\<rparr>"

definition sample_start :: start_env where
  "sample_start = \<lparr>se_address = 64, se_since_epoch = 1000, se_now = 1, se_spawn = None\<rparr>"

definition started_consumer :: "unit consumer" where
  "started_consumer = consumer_after sample_decls (K_start sample_start ''q'' ''t'' None)
     (new_consumer 8 0 default_consumer_config)"

lemma started_consumer_runs:
  "program_run sample_decls (new_consumer 8 0 default_consumer_config) (Running Joining (stop_begin started_consumer))"
  unfolding started_consumer_def
  by (rule converse_rtranclp_into_rtranclp, rule program_step.call, rule r_into_rtranclp, rule program_step.stop)

lemma started_consumer_thread:
  "length (co_threads (stop_begin started_consumer)) = 1" "co_running started_consumer"
  by (simp_all add: started_consumer_def stop_begin_def startConsuming_tag_def validateQueue_def
      new_consumer_def consumer_initializeConnection_def connection_open_def new_connection_def
      sample_decls_def sample_start_def createConsumer_def Let_def)

lemma consumer_threads_fault_witness:
  "turns_alone 0 4 (stop_begin started_consumer) = None"
  by (rule consumer_threads_fault [OF started_consumer_runs]) (simp add: started_consumer_thread)

lemma consumer_never_returns_witness:
  "\<not> threads_returned (stop_begin started_consumer) \<and>
    ns_messagesReceived (getStatsForQueue ''q'' (stop_begin started_consumer)) = 0"
  using consumer_never_returns [OF started_consumer_runs, of "''q''"] started_consumer_thread(1) by force

section \<open>Statistics\<close>

lemma aggregate_fold:
  fixes f :: "consumer_stats \<Rightarrow> u64"
  assumes "\<And>a s. f (add_consumer_stats a s) = f a + f s"
  shows "f (foldl (\<lambda>a (q, info). add_consumer_stats a (ci_stats info)) a xs) =
    f a + sum_list (map (\<lambda>e. f (ci_stats (snd e))) xs)"
  by (induction xs arbitrary: a) (simp_all add: assms case_prod_beta add_ac)

lemma add_consumer_stats_sel [simp]:
  "ns_messagesReceived (add_consumer_stats a s) = ns_messagesReceived a + ns_messagesReceived s"
  "ns_messagesAcknowledged (add_consumer_stats a s) = ns_messagesAcknowledged a + ns_messagesAcknowledged s"
  "ns_messagesRejected (add_consumer_stats a s) = ns_messagesRejected a + ns_messagesRejected s"
  "ns_messagesRequeued (add_consumer_stats a s) = ns_messagesRequeued a + ns_messagesRequeued s"
  "ns_messagesUnacked (add_consumer_stats a s) = ns_messagesUnacked a + ns_messagesUnacked s"
  "ns_bytesReceived (add_consumer_stats a s) = ns_bytesReceived a + ns_bytesReceived s"
  by (simp_all add: add_consumer_stats_def)

text \<open>
  What the statistics of a consumer say. When they are brought up to date, each counter is
  the sum over the queues that are consumed at that time; what \<open>acknowledge\<close> and \<open>reject\<close> had
  counted for the owner is forgotten. Counters wrap at 64 bits.
\<close>

lemma aggregated_statistics:
  "let st = consumer_getStats (updateAggregatedStats c);
       total = (\<lambda>f. sum_list (map (\<lambda>e. f (ci_stats (snd e))) (co_consumers c)))
   in ns_messagesReceived st = total ns_messagesReceived \<and>
      ns_messagesAcknowledged st = total ns_messagesAcknowledged \<and>
      ns_messagesRejected st = total ns_messagesRejected \<and>
      ns_messagesRequeued st = total ns_messagesRequeued \<and>
      ns_messagesUnacked st = total ns_messagesUnacked \<and>
      ns_bytesReceived st = total ns_bytesReceived \<and>
      updateAggregatedStats (snd (acknowledge tag c)) = updateAggregatedStats c \<and>
      updateAggregatedStats (snd (reject tag requeue c)) = updateAggregatedStats c"
proof -
  have "updateAggregatedStats (snd (acknowledge tag c)) = updateAggregatedStats c"
    "updateAggregatedStats (snd (reject tag requeue c)) = updateAggregatedStats c"
    by (simp_all add: updateAggregatedStats_def acknowledge_def reject_def)
  moreover have "co_stats (updateAggregatedStats c) = foldl (\<lambda>a (q, info). add_consumer_stats a (ci_stats info))
       (new_consumer_stats\<lparr>ns_consumerId := ns_consumerId (co_stats c),
                           ns_consumerStarted := ns_consumerStarted (co_stats c)\<rparr>) (co_consumers c)"
    by (simp add: updateAggregatedStats_def)
  ultimately show ?thesis
    by (simp add: consumer_getStats_def stats_copied aggregate_fold new_consumer_stats_def)
qed

section \<open>The pool\<close>

text \<open>The calls on a started pool and the turns of the threads of its consumers.\<close>

datatype pool_call =
    Pool_add start_env string "message_callback option" | Pool_remove string | Pool_turn nat nat

fun pool_after :: "'ch connection_decls \<Rightarrow> pool_call \<Rightarrow> 'ch consumer_pool \<Rightarrow> 'ch consumer_pool option" where
  "pool_after D (Pool_add e q cb) p = Some (snd (addConsumer D e q cb p))"
| "pool_after D (Pool_remove q) p = Some (snd (removeConsumer q p))"
| "pool_after D (Pool_turn i j) p =
     (if i < length (cp_consumers p) \<and> j < length (co_threads (cp_consumers p ! i))
      then (case consumer_turn j (cp_consumers p ! i) of
          None \<Rightarrow> None
        | Some c \<Rightarrow> Some (p\<lparr>cp_consumers := (cp_consumers p)[i := c]\<rparr>))
      else Some p)"

fun pool_run :: "'ch connection_decls \<Rightarrow> pool_call list \<Rightarrow> 'ch consumer_pool \<Rightarrow> 'ch consumer_pool option" where
  "pool_run D [] p = Some p"
| "pool_run D (k # ks) p = (case pool_after D k p of None \<Rightarrow> None | Some p' \<Rightarrow> pool_run D ks p')"

definition idle_consumer :: "'ch consumer \<Rightarrow> bool" where
  "idle_consumer c \<longleftrightarrow> co_threads c = [] \<and> co_consumers c = []"

lemma remove_from_idle: "list_all idle_consumer cs \<Longrightarrow> remove_from q cs = (False, cs)"
  by (induction cs) (simp_all add: idle_consumer_def stopConsuming_def)

lemma remove_from_tail:
  "list_all idle_consumer cs \<Longrightarrow> \<exists>c'. snd (remove_from q (c # cs)) = c' # cs"
  by (simp add: remove_from_idle split: prod.split bool.split)

lemma pool_after_tail:
  assumes "cp_consumers p = c # cs" "list_all idle_consumer cs" "pool_after D k p = Some p'"
  shows "\<exists>c'. cp_consumers p' = c' # cs"
proof (cases k)
  case (Pool_add e q cb)
  with assms show ?thesis by (auto simp: addConsumer_def split: prod.splits)
next
  case (Pool_remove q)
  with assms remove_from_tail [OF assms(2), of q c] show ?thesis
    by (auto simp: removeConsumer_def case_prod_beta)
next
  case (Pool_turn i j)
  have "\<not> j < length (co_threads ((c # cs) ! Suc n))" if "Suc n < length (c # cs)" for n
    using assms(2) that by (simp add: list_all_length idle_consumer_def)
  with Pool_turn assms show ?thesis
    by (cases i) (auto split: if_splits option.splits)
qed

lemma pool_run_tail:
  assumes "list_all idle_consumer cs"
  shows "cp_consumers p = c # cs \<Longrightarrow> pool_run D ks p = Some p' \<Longrightarrow> tl (cp_consumers p') = cs"
proof (induction ks arbitrary: p c)
  case (Cons k ks)
  then obtain p1 where p1: "pool_after D k p = Some p1" "pool_run D ks p1 = Some p'"
    by (auto split: option.splits)
  obtain c1 where "cp_consumers p1 = c1 # cs"
    using pool_after_tail [OF Cons.prems(1) assms p1(1)] by blast
  then show ?case using p1(2) by (rule Cons.IH)
qed simp

text \<open>
  C38. A pool uses its first consumer only. Whatever queues are added and removed and however the
  threads run, the other consumers of a started pool are exactly as they were created: the size of
  the pool has no effect on the work.
\<close>

theorem pool_uses_first_consumer:
  assumes "pool_run D ks (snd (consumer_pool_start env (new_consumer_pool config n))) = Some p"
  shows "tl (cp_consumers p) =
    map (\<lambda>i. new_consumer (fst (env i)) (snd (env i)) config) [1..<unat n]"
proof (cases "unat n")
  case 0
  let ?p = "snd (consumer_pool_start env (new_consumer_pool config n))"
  have empty: "cp_consumers p = []" if "pool_run D ks p0 = Some p" "cp_consumers p0 = []" for p0 p ks
    using that
  proof (induction ks arbitrary: p0)
    case (Cons k ks)
    then show ?case by (cases k) (auto simp: addConsumer_def removeConsumer_def split: if_splits)
  qed simp
  show ?thesis
    using empty [OF assms] 0
    by (simp add: consumer_pool_start_def new_consumer_pool_def initializePool_def)
next
  case (Suc m)
  let ?mk = "\<lambda>i. new_consumer (fst (env i)) (snd (env i)) config"
  have "cp_consumers (snd (consumer_pool_start env (new_consumer_pool config n))) = ?mk 0 # map ?mk [1..<unat n]"
    by (simp add: consumer_pool_start_def new_consumer_pool_def initializePool_def Suc upt_conv_Cons
        del: upt_Suc)
  moreover have "list_all idle_consumer (map ?mk [1..<unat n])"
    by (simp add: list_all_iff idle_consumer_def new_consumer_def)
  ultimately show ?thesis using assms by (intro pool_run_tail)
qed

definition sample_pool :: "unit consumer_pool" where
  "sample_pool = snd (consumer_pool_start (\<lambda>i. (int i, 0)) (new_consumer_pool default_consumer_config 2))"

lemma pool_uses_first_consumer_witness:
  "\<exists>p. pool_run sample_decls [Pool_add sample_start ''q'' None, Pool_turn 0 0] sample_pool = Some p \<and>
     length (co_threads (hd (cp_consumers p))) = 1 \<and>
     tl (cp_consumers p) = [new_consumer 1 0 default_consumer_config]"
proof -
  have "\<exists>p. pool_run sample_decls [Pool_add sample_start ''q'' None, Pool_turn 0 0] sample_pool = Some p \<and>
      length (co_threads (hd (cp_consumers p))) = 1"
    by (simp add: sample_pool_def consumer_pool_start_def new_consumer_pool_def initializePool_def
        addConsumer_def startConsuming_def startConsuming_tag_def validateQueue_def new_consumer_def
        consumer_initializeConnection_def connection_open_def new_connection_def sample_decls_def
        sample_start_def createConsumer_def consumer_turn_def thread_turn_def upt_conv_Cons)
  then obtain p where p: "pool_run sample_decls [Pool_add sample_start ''q'' None, Pool_turn 0 0] sample_pool = Some p"
      "length (co_threads (hd (cp_consumers p))) = 1" by blast
  from pool_uses_first_consumer [OF p(1) [unfolded sample_pool_def]] p show ?thesis
    by (simp add: upt_conv_Cons)
qed

end
