(* ===== verification/Metrics_Collector.thy ===== *)
theory Metrics_Collector
  imports Ieee_Float Cpp_Strings Ordered_Map Keyed_State
begin

text \<open>
  \<open>rabbitmq_integration::metrics\<close>, the collecting half (\<open>metrics.hpp\<close>, \<open>metrics.cpp\<close>): the metric
  structures, the collector behind \<open>MetricsCollector\<close>, its life cycle and the global instance.
  Prometheus is a library: what the collector tells it is recorded call by call. Sizes and
  counters wrap at 64 bits.
\<close>

section \<open>Structures\<close>

record metrics_config =
  mf_enablePrometheus :: bool
  mf_enableGateway :: bool
  mf_gatewayUrl :: string
  mf_jobName :: string
  mf_labels :: "(string \<times> string) list"
  mf_metricsPort :: int
  mf_metricsPath :: string
  mf_healthPath :: string
  mf_collectionInterval :: ticks
  mf_pushInterval :: ticks
  mf_enablePeriodicLogging :: bool
  mf_loggingInterval :: ticks

definition default_metrics_config :: metrics_config where
  "default_metrics_config =
     \<lparr>mf_enablePrometheus = True, mf_enableGateway = False, mf_gatewayUrl = [],
      mf_jobName = ''rabbitmq-integration'', mf_labels = [], mf_metricsPort = 8080,
      mf_metricsPath = ''/metrics'', mf_healthPath = ''/health'', mf_collectionInterval = 10,
      mf_pushInterval = 60, mf_enablePeriodicLogging = False, mf_loggingInterval = 300\<rparr>"

record connection_metrics =
  km_attempts :: u64
  km_successes :: u64
  km_failures :: u64
  km_reconnects :: u64
  km_totalLatency :: ticks
  km_lastConnectionTime :: ticks
  km_lastDisconnectionTime :: ticks

record publisher_metrics =
  um_messagesPublished :: u64
  um_failures :: u64
  um_confirms :: u64
  um_retries :: u64
  um_batchesPublished :: u64
  um_totalBatchSize :: u64
  um_localQueueSize :: u64
  um_totalLatency :: ticks
  um_lastPublishTime :: ticks

record consumer_metrics =
  nm_messagesConsumed :: u64
  nm_messagesAcknowledged :: u64
  nm_messagesRejected :: u64
  nm_messagesRequeued :: u64
  nm_cancellations :: u64
  nm_activeConsumers :: u64
  nm_totalProcessingTime :: ticks
  nm_lastMessageTime :: ticks

record queue_metrics =
  qm_queuesCreated :: u64
  qm_queuesDeleted :: u64
  qm_queuesPurged :: u64
  qm_totalDepth :: u64
  qm_queueDepths :: "(string \<times> u64) list"

record system_metrics =
  ym_memoryUsage :: u64
  ym_cpuUsage :: fp
  ym_errors :: u64
  ym_startTime :: ticks
  ym_uptime :: ticks

record metrics_snapshot =
  ss_timestamp :: ticks
  ss_connection :: connection_metrics
  ss_publisher :: publisher_metrics
  ss_consumer :: consumer_metrics
  ss_queue :: queue_metrics
  ss_system :: system_metrics

definition new_connection_metrics :: connection_metrics where
  "new_connection_metrics =
     \<lparr>km_attempts = 0, km_successes = 0, km_failures = 0, km_reconnects = 0, km_totalLatency = 0,
      km_lastConnectionTime = 0, km_lastDisconnectionTime = 0\<rparr>"

definition new_publisher_metrics :: publisher_metrics where
  "new_publisher_metrics =
     \<lparr>um_messagesPublished = 0, um_failures = 0, um_confirms = 0, um_retries = 0,
      um_batchesPublished = 0, um_totalBatchSize = 0, um_localQueueSize = 0, um_totalLatency = 0,
      um_lastPublishTime = 0\<rparr>"

definition new_consumer_metrics :: consumer_metrics where
  "new_consumer_metrics =
     \<lparr>nm_messagesConsumed = 0, nm_messagesAcknowledged = 0, nm_messagesRejected = 0,
      nm_messagesRequeued = 0, nm_cancellations = 0, nm_activeConsumers = 0,
      nm_totalProcessingTime = 0, nm_lastMessageTime = 0\<rparr>"

definition new_queue_metrics :: queue_metrics where
  "new_queue_metrics =
     \<lparr>qm_queuesCreated = 0, qm_queuesDeleted = 0, qm_queuesPurged = 0, qm_totalDepth = 0,
      qm_queueDepths = []\<rparr>"

definition new_system_metrics :: system_metrics where
  "new_system_metrics =
     \<lparr>ym_memoryUsage = 0, ym_cpuUsage = Fin 0, ym_errors = 0, ym_startTime = 0, ym_uptime = 0\<rparr>"

definition new_snapshot :: "ticks \<Rightarrow> metrics_snapshot" where
  "new_snapshot now =
     \<lparr>ss_timestamp = now, ss_connection = new_connection_metrics, ss_publisher = new_publisher_metrics,
      ss_consumer = new_consumer_metrics, ss_queue = new_queue_metrics, ss_system = new_system_metrics\<rparr>"

section \<open>Calls of the Prometheus library\<close>

text \<open>The members of \<open>PrometheusMetrics\<close>, and what is done to them.\<close>

datatype prom_metric =
    PM_connectionAttempts | PM_connectionSuccesses | PM_connectionFailures | PM_currentConnections
  | PM_connectionLatency | PM_messagesPublished | PM_publishFailures | PM_publishConfirms
  | PM_publishRetries | PM_publishLatency | PM_localQueueSize | PM_batchesPublished
  | PM_messagesConsumed | PM_messagesAcknowledged | PM_messagesRejected | PM_consumerCancellations
  | PM_processingLatency | PM_activeConsumers | PM_queuesCreated | PM_queuesDeleted
  | PM_queuesPurged | PM_queueDepth | PM_memoryUsage | PM_cpuUsage | PM_errors

datatype prom_call =
    Increment prom_metric | Decrement prom_metric | Observe prom_metric fp | Set_Gauge prom_metric fp

text \<open>The family name and labels under which each member is registered.\<close>

fun prom_name :: "prom_metric \<Rightarrow> string \<times> (string \<times> string) list" where
  "prom_name PM_connectionAttempts = (''rabbitmq_integration_connections_total'', [(''type'', ''attempts'')])"
| "prom_name PM_connectionSuccesses = (''rabbitmq_integration_connections_total'', [(''type'', ''successes'')])"
| "prom_name PM_connectionFailures = (''rabbitmq_integration_connections_total'', [(''type'', ''failures'')])"
| "prom_name PM_currentConnections = (''rabbitmq_integration_current_connections'', [])"
| "prom_name PM_connectionLatency = (''rabbitmq_integration_connection_duration_seconds'', [])"
| "prom_name PM_messagesPublished = (''rabbitmq_integration_messages_published_total'', [(''status'', ''success'')])"
| "prom_name PM_publishFailures = (''rabbitmq_integration_messages_published_total'', [(''status'', ''failure'')])"
| "prom_name PM_publishConfirms = (''rabbitmq_integration_messages_published_total'', [(''status'', ''confirmed'')])"
| "prom_name PM_publishRetries = (''rabbitmq_integration_messages_published_total'', [(''status'', ''retried'')])"
| "prom_name PM_publishLatency = (''rabbitmq_integration_publish_duration_seconds'', [])"
| "prom_name PM_localQueueSize = (''rabbitmq_integration_local_queue_size'', [])"
| "prom_name PM_batchesPublished = (''rabbitmq_integration_batches_published_total'', [])"
| "prom_name PM_messagesConsumed = (''rabbitmq_integration_messages_consumed_total'', [(''status'', ''received'')])"
| "prom_name PM_messagesAcknowledged = (''rabbitmq_integration_messages_consumed_total'', [(''status'', ''acknowledged'')])"
| "prom_name PM_messagesRejected = (''rabbitmq_integration_messages_consumed_total'', [(''status'', ''rejected'')])"
| "prom_name PM_consumerCancellations = (''rabbitmq_integration_consumer_cancellations_total'', [])"
| "prom_name PM_processingLatency = (''rabbitmq_integration_message_processing_duration_seconds'', [])"
| "prom_name PM_activeConsumers = (''rabbitmq_integration_active_consumers'', [])"
| "prom_name PM_queuesCreated = (''rabbitmq_integration_queue_operations_total'', [(''operation'', ''created'')])"
| "prom_name PM_queuesDeleted = (''rabbitmq_integration_queue_operations_total'', [(''operation'', ''deleted'')])"
| "prom_name PM_queuesPurged = (''rabbitmq_integration_queue_operations_total'', [(''operation'', ''purged'')])"
| "prom_name PM_queueDepth = (''rabbitmq_integration_queue_depth'', [])"
| "prom_name PM_memoryUsage = (''rabbitmq_integration_memory_usage_bytes'', [])"
| "prom_name PM_cpuUsage = (''rabbitmq_integration_cpu_usage_percent'', [])"
| "prom_name PM_errors = (''rabbitmq_integration_errors_total'', [])"

definition seconds_of :: "ticks \<Rightarrow> fp" where
  "seconds_of latency = dbl_div (f64 (of_int latency)) 1000"

definition double_of_size :: "u64 \<Rightarrow> fp" where
  "double_of_size n = f64 (of_nat (unat n))"

section \<open>The collector\<close>

text \<open>\<open>mc_prom\<close> is \<open>None\<close> without Prometheus, otherwise the calls made so far.\<close>

record collector =
  mc_config :: metrics_config
  mc_running :: bool
  mc_prom :: "prom_call list option"
  mc_gateway :: bool
  mc_metricsThread :: bool
  mc_collectionThread :: bool
  mc_connection :: connection_metrics
  mc_publisher :: publisher_metrics
  mc_consumer :: consumer_metrics
  mc_queue :: queue_metrics
  mc_system :: system_metrics
  mc_queueDepths :: "(string \<times> u64) list"

definition new_collector :: "metrics_config \<Rightarrow> collector" where
  "new_collector config =
     \<lparr>mc_config = config, mc_running = False,
      mc_prom = (if mf_enablePrometheus config then Some [] else None),
      mc_gateway = (mf_enablePrometheus config \<and> mf_enableGateway config \<and> mf_gatewayUrl config \<noteq> []),
      mc_metricsThread = False, mc_collectionThread = False,
      mc_connection = new_connection_metrics, mc_publisher = new_publisher_metrics,
      mc_consumer = new_consumer_metrics, mc_queue = new_queue_metrics,
      mc_system = new_system_metrics, mc_queueDepths = []\<rparr>"

text \<open>
  \<open>server_error\<close> and \<open>collection_error\<close>: creating the thread throws. The exception of the first is
  caught and leaves the collector marked as running; that of the second leaves \<open>start\<close>: \<open>None\<close>.
\<close>

definition collector_start :: "bool \<Rightarrow> bool \<Rightarrow> collector \<Rightarrow> bool option \<times> collector" where
  "collector_start server_error collection_error c =
     (if mc_running c then (Some True, c)
      else let c1 = c\<lparr>mc_running := True\<rparr>;
               server = mf_enablePrometheus (mc_config c) \<and> mf_metricsPort (mc_config c) > 0;
               c2 = (if server \<and> \<not> server_error then c1\<lparr>mc_metricsThread := True\<rparr> else c1)
           in if server \<and> server_error then (Some False, c1)
              else if collection_error then (None, c2)
              else (Some True, c2\<lparr>mc_collectionThread := True\<rparr>))"

definition collector_stop :: "collector \<Rightarrow> collector" where
  "collector_stop c =
     (if \<not> mc_running c then c
      else c\<lparr>mc_running := False, mc_metricsThread := False, mc_collectionThread := False\<rparr>)"

definition tell :: "prom_call list \<Rightarrow> collector \<Rightarrow> collector" where
  "tell calls c = c\<lparr>mc_prom := (case mc_prom c of None \<Rightarrow> None | Some l \<Rightarrow> Some (l @ calls))\<rparr>"

definition recordConnectionAttempt :: "collector \<Rightarrow> collector" where
  "recordConnectionAttempt c = (tell [Increment PM_connectionAttempts] c)
     \<lparr>mc_connection := (mc_connection c)\<lparr>km_attempts := km_attempts (mc_connection c) + 1\<rparr>\<rparr>"

definition recordConnectionSuccess :: "ticks \<Rightarrow> collector \<Rightarrow> collector" where
  "recordConnectionSuccess latency c =
     (tell [Increment PM_connectionSuccesses, Observe PM_connectionLatency (seconds_of latency),
            Increment PM_currentConnections] c)
     \<lparr>mc_connection := (mc_connection c)\<lparr>km_successes := km_successes (mc_connection c) + 1,
                        km_totalLatency := km_totalLatency (mc_connection c) + latency\<rparr>\<rparr>"

definition recordConnectionFailure :: "collector \<Rightarrow> collector" where
  "recordConnectionFailure c = (tell [Increment PM_connectionFailures] c)
     \<lparr>mc_connection := (mc_connection c)\<lparr>km_failures := km_failures (mc_connection c) + 1\<rparr>\<rparr>"

definition recordConnectionClosed :: "collector \<Rightarrow> collector" where
  "recordConnectionClosed c = tell [Decrement PM_currentConnections] c"

definition recordMessagePublished :: "ticks \<Rightarrow> collector \<Rightarrow> collector" where
  "recordMessagePublished latency c =
     (tell [Increment PM_messagesPublished, Observe PM_publishLatency (seconds_of latency)] c)
     \<lparr>mc_publisher := (mc_publisher c)
        \<lparr>um_messagesPublished := um_messagesPublished (mc_publisher c) + 1,
         um_totalLatency := um_totalLatency (mc_publisher c) + latency\<rparr>\<rparr>"

definition recordPublishFailure :: "collector \<Rightarrow> collector" where
  "recordPublishFailure c = (tell [Increment PM_publishFailures] c)
     \<lparr>mc_publisher := (mc_publisher c)\<lparr>um_failures := um_failures (mc_publisher c) + 1\<rparr>\<rparr>"

definition recordPublishConfirm :: "collector \<Rightarrow> collector" where
  "recordPublishConfirm c = (tell [Increment PM_publishConfirms] c)
     \<lparr>mc_publisher := (mc_publisher c)\<lparr>um_confirms := um_confirms (mc_publisher c) + 1\<rparr>\<rparr>"

definition recordPublishRetry :: "collector \<Rightarrow> collector" where
  "recordPublishRetry c = (tell [Increment PM_publishRetries] c)
     \<lparr>mc_publisher := (mc_publisher c)\<lparr>um_retries := um_retries (mc_publisher c) + 1\<rparr>\<rparr>"

definition recordBatchPublished :: "u64 \<Rightarrow> collector \<Rightarrow> collector" where
  "recordBatchPublished batchSize c = (tell [Increment PM_batchesPublished] c)
     \<lparr>mc_publisher := (mc_publisher c)
        \<lparr>um_batchesPublished := um_batchesPublished (mc_publisher c) + 1,
         um_totalBatchSize := um_totalBatchSize (mc_publisher c) + batchSize\<rparr>\<rparr>"

definition updateLocalQueueSize :: "u64 \<Rightarrow> collector \<Rightarrow> collector" where
  "updateLocalQueueSize n c = (tell [Set_Gauge PM_localQueueSize (double_of_size n)] c)
     \<lparr>mc_publisher := (mc_publisher c)\<lparr>um_localQueueSize := n\<rparr>\<rparr>"

definition recordMessageConsumed :: "ticks \<Rightarrow> collector \<Rightarrow> collector" where
  "recordMessageConsumed processingTime c =
     (tell [Increment PM_messagesConsumed, Observe PM_processingLatency (seconds_of processingTime)] c)
     \<lparr>mc_consumer := (mc_consumer c)
        \<lparr>nm_messagesConsumed := nm_messagesConsumed (mc_consumer c) + 1,
         nm_totalProcessingTime := nm_totalProcessingTime (mc_consumer c) + processingTime\<rparr>\<rparr>"

definition recordMessageAcknowledged :: "collector \<Rightarrow> collector" where
  "recordMessageAcknowledged c = (tell [Increment PM_messagesAcknowledged] c)
     \<lparr>mc_consumer := (mc_consumer c)
        \<lparr>nm_messagesAcknowledged := nm_messagesAcknowledged (mc_consumer c) + 1\<rparr>\<rparr>"

definition recordMessageRejected :: "collector \<Rightarrow> collector" where
  "recordMessageRejected c = (tell [Increment PM_messagesRejected] c)
     \<lparr>mc_consumer := (mc_consumer c)
        \<lparr>nm_messagesRejected := nm_messagesRejected (mc_consumer c) + 1\<rparr>\<rparr>"

definition recordConsumerCancellation :: "collector \<Rightarrow> collector" where
  "recordConsumerCancellation c = (tell [Increment PM_consumerCancellations] c)
     \<lparr>mc_consumer := (mc_consumer c)\<lparr>nm_cancellations := nm_cancellations (mc_consumer c) + 1\<rparr>\<rparr>"

definition updateActiveConsumers :: "u64 \<Rightarrow> collector \<Rightarrow> collector" where
  "updateActiveConsumers n c = (tell [Set_Gauge PM_activeConsumers (double_of_size n)] c)
     \<lparr>mc_consumer := (mc_consumer c)\<lparr>nm_activeConsumers := n\<rparr>\<rparr>"

definition recordQueueCreated :: "collector \<Rightarrow> collector" where
  "recordQueueCreated c = (tell [Increment PM_queuesCreated] c)
     \<lparr>mc_queue := (mc_queue c)\<lparr>qm_queuesCreated := qm_queuesCreated (mc_queue c) + 1\<rparr>\<rparr>"

definition recordQueueDeleted :: "collector \<Rightarrow> collector" where
  "recordQueueDeleted c = (tell [Increment PM_queuesDeleted] c)
     \<lparr>mc_queue := (mc_queue c)\<lparr>qm_queuesDeleted := qm_queuesDeleted (mc_queue c) + 1\<rparr>\<rparr>"

definition recordQueuePurged :: "collector \<Rightarrow> collector" where
  "recordQueuePurged c = (tell [Increment PM_queuesPurged] c)
     \<lparr>mc_queue := (mc_queue c)\<lparr>qm_queuesPurged := qm_queuesPurged (mc_queue c) + 1\<rparr>\<rparr>"

text \<open>
  With Prometheus the gauge gets the total over all queues; the collector's own total is the depth
  of the queue reported last.
\<close>

definition sum_depths :: "(string \<times> u64) list \<Rightarrow> u64" where
  "sum_depths m = foldl (\<lambda>t (q, d). t + d) 0 m"

definition updateQueueDepth :: "string \<Rightarrow> u64 \<Rightarrow> collector \<Rightarrow> collector" where
  "updateQueueDepth q depth c =
     (let c1 = (case mc_prom c of
                  None \<Rightarrow> c
                | Some l \<Rightarrow>
                    (let m = om_set q depth (mc_queueDepths c)
                     in tell [Set_Gauge PM_queueDepth (double_of_size (sum_depths m))]
                          (c\<lparr>mc_queueDepths := m\<rparr>)))
      in c1\<lparr>mc_queue := (mc_queue c)\<lparr>qm_totalDepth := depth\<rparr>\<rparr>)"

definition recordError :: "string \<Rightarrow> string \<Rightarrow> collector \<Rightarrow> collector" where
  "recordError context err c = (tell [Increment PM_errors] c)
     \<lparr>mc_system := (mc_system c)\<lparr>ym_errors := ym_errors (mc_system c) + 1\<rparr>\<rparr>"

definition updateMemoryUsage :: "u64 \<Rightarrow> collector \<Rightarrow> collector" where
  "updateMemoryUsage bytes c = (tell [Set_Gauge PM_memoryUsage (double_of_size bytes)] c)
     \<lparr>mc_system := (mc_system c)\<lparr>ym_memoryUsage := bytes\<rparr>\<rparr>"

definition updateCpuUsage :: "fp \<Rightarrow> collector \<Rightarrow> collector" where
  "updateCpuUsage percentage c = (tell [Set_Gauge PM_cpuUsage percentage] c)
     \<lparr>mc_system := (mc_system c)\<lparr>ym_cpuUsage := percentage\<rparr>\<rparr>"

definition getSnapshot :: "ticks \<Rightarrow> collector \<Rightarrow> metrics_snapshot" where
  "getSnapshot now c =
     \<lparr>ss_timestamp = now, ss_connection = mc_connection c, ss_publisher = mc_publisher c,
      ss_consumer = mc_consumer c, ss_queue = mc_queue c, ss_system = mc_system c\<rparr>"

text \<open>
  \<open>push\<close> is the answer of the push gateway: \<open>None\<close> for an exception, else whether the code is \<open>Ok\<close>.
\<close>

definition pushToGateway :: "bool option \<Rightarrow> collector \<Rightarrow> bool" where
  "pushToGateway push c \<longleftrightarrow> mc_gateway c \<and> mc_prom c \<noteq> None \<and> push = Some True"

section \<open>System metrics\<close>

text \<open>The words of a line, as extraction into strings finds them.\<close>

fun words_from :: "string \<Rightarrow> string \<Rightarrow> string list" where
  "words_from w [] = (if w = [] then [] else [w])"
| "words_from w (c # s) =
     (if is_space c then (if w = [] then words_from [] s else w # words_from [] s)
      else words_from (w @ [c]) s)"

text \<open>\<open>file\<close>: the lines of \<open>/proc/self/status\<close>. The kilobytes are turned into bytes.\<close>

fun getCurrentMemoryUsage :: "string list \<Rightarrow> sto_error + u64" where
  "getCurrentMemoryUsage [] = Inr 0"
| "getCurrentMemoryUsage (line # file) =
     (if take 6 line = ''VmRSS:''
      then (case words_from [] line of
          label # value # _ \<Rightarrow>
            (case stoul 10 value of Inl e \<Rightarrow> Inl e | Inr kb \<Rightarrow> Inr (kb * 1024))
        | _ \<Rightarrow> Inl Invalid_Argument)
      else getCurrentMemoryUsage file)"

text \<open>
  \<open>wall\<close>: milliseconds since the last call, \<open>cpu\<close>: processor time since then, in \<open>clock()\<close> ticks of a
  microsecond. Neither clock runs backwards.
\<close>

definition getCurrentCpuUsage :: "ticks \<Rightarrow> int \<Rightarrow> fp" where
  "getCurrentCpuUsage wall cpu =
     (let used = cpu * 1000 div 1000000;
          usage = (if wall > 0 then dbl_mul (dbl_div (f64 (of_int used)) (of_int wall)) (Fin 100) else Fin 0);
          floored = (if fp_lt (Fin 0) usage then usage else Fin 0)
      in dbl_min (Fin 100) floored)"

text \<open>
  A round of the collection thread. An exception while the memory is read ends the round;
  otherwise the metrics are pushed when it is time. \<open>now\<close> and \<open>lastPush\<close> are in seconds, and the
  answer of the gateway is not used.
\<close>

record collection_env =
  ce_status :: "string list"
  ce_wall :: ticks
  ce_cpu :: int
  ce_now :: ticks

definition collectSystemMetrics :: "collection_env \<Rightarrow> collector \<Rightarrow> sto_error + collector" where
  "collectSystemMetrics e c = (case getCurrentMemoryUsage (ce_status e) of
     Inl x \<Rightarrow> Inl x
   | Inr bytes \<Rightarrow> Inr (updateCpuUsage (getCurrentCpuUsage (ce_wall e) (ce_cpu e)) (updateMemoryUsage bytes c)))"

definition collect_round ::
    "collection_env \<Rightarrow> ticks \<times> collector \<Rightarrow> bool \<times> ticks \<times> collector" where
  "collect_round e s = (case s of (lastPush, c) \<Rightarrow>
     (case collectSystemMetrics e c of
        Inl x \<Rightarrow> (False, lastPush, c)
      | Inr c' \<Rightarrow>
          if mf_enableGateway (mc_config c') \<and> mf_pushInterval (mc_config c') > 0 \<and>
             ce_now e - lastPush \<ge> mf_pushInterval (mc_config c')
          then (True, ce_now e, c') else (False, lastPush, c')))"

section \<open>The global collector\<close>

definition getGlobalMetricsCollector :: "collector option \<Rightarrow> collector \<times> collector option" where
  "getGlobalMetricsCollector g = (case g of
     Some c \<Rightarrow> (c, g)
   | None \<Rightarrow> (let c = new_collector default_metrics_config in (c, Some c)))"

definition initializeGlobalMetricsCollector :: "metrics_config \<Rightarrow> collector option \<Rightarrow> collector option" where
  "initializeGlobalMetricsCollector config g = Some (new_collector config)"

definition shutdownGlobalMetricsCollector :: "collector option \<Rightarrow> collector option" where
  "shutdownGlobalMetricsCollector g = (case g of Some c \<Rightarrow> None | None \<Rightarrow> g)"

section \<open>Runs of events\<close>

datatype metric_event =
    EV_attempt | EV_success ticks | EV_failure | EV_closed | EV_published ticks | EV_publishFailure
  | EV_confirm | EV_retry | EV_batch u64 | EV_localQueueSize u64 | EV_consumed ticks
  | EV_acknowledged | EV_rejected | EV_cancelled | EV_activeConsumers u64 | EV_queueCreated
  | EV_queueDeleted | EV_queuePurged | EV_queueDepth string u64 | EV_error string string
  | EV_memory u64 | EV_cpu fp

fun collector_after :: "metric_event \<Rightarrow> collector \<Rightarrow> collector" where
  "collector_after EV_attempt c = recordConnectionAttempt c"
| "collector_after (EV_success t) c = recordConnectionSuccess t c"
| "collector_after EV_failure c = recordConnectionFailure c"
| "collector_after EV_closed c = recordConnectionClosed c"
| "collector_after (EV_published t) c = recordMessagePublished t c"
| "collector_after EV_publishFailure c = recordPublishFailure c"
| "collector_after EV_confirm c = recordPublishConfirm c"
| "collector_after EV_retry c = recordPublishRetry c"
| "collector_after (EV_batch n) c = recordBatchPublished n c"
| "collector_after (EV_localQueueSize n) c = updateLocalQueueSize n c"
| "collector_after (EV_consumed t) c = recordMessageConsumed t c"
| "collector_after EV_acknowledged c = recordMessageAcknowledged c"
| "collector_after EV_rejected c = recordMessageRejected c"
| "collector_after EV_cancelled c = recordConsumerCancellation c"
| "collector_after (EV_activeConsumers n) c = updateActiveConsumers n c"
| "collector_after EV_queueCreated c = recordQueueCreated c"
| "collector_after EV_queueDeleted c = recordQueueDeleted c"
| "collector_after EV_queuePurged c = recordQueuePurged c"
| "collector_after (EV_queueDepth q n) c = updateQueueDepth q n c"
| "collector_after (EV_error context err) c = recordError context err c"
| "collector_after (EV_memory n) c = updateMemoryUsage n c"
| "collector_after (EV_cpu x) c = updateCpuUsage x c"

text \<open>The counter an event is for, and where a snapshot shows a counter.\<close>

fun event_counter :: "metric_event \<Rightarrow> prom_metric option" where
  "event_counter EV_attempt = Some PM_connectionAttempts"
| "event_counter (EV_success t) = Some PM_connectionSuccesses"
| "event_counter EV_failure = Some PM_connectionFailures"
| "event_counter (EV_published t) = Some PM_messagesPublished"
| "event_counter EV_publishFailure = Some PM_publishFailures"
| "event_counter EV_confirm = Some PM_publishConfirms"
| "event_counter EV_retry = Some PM_publishRetries"
| "event_counter (EV_batch n) = Some PM_batchesPublished"
| "event_counter (EV_consumed t) = Some PM_messagesConsumed"
| "event_counter EV_acknowledged = Some PM_messagesAcknowledged"
| "event_counter EV_rejected = Some PM_messagesRejected"
| "event_counter EV_cancelled = Some PM_consumerCancellations"
| "event_counter EV_queueCreated = Some PM_queuesCreated"
| "event_counter EV_queueDeleted = Some PM_queuesDeleted"
| "event_counter EV_queuePurged = Some PM_queuesPurged"
| "event_counter (EV_error context err) = Some PM_errors"
| "event_counter _ = None"

fun counter_value :: "metrics_snapshot \<Rightarrow> prom_metric \<Rightarrow> u64 option" where
  "counter_value s PM_connectionAttempts = Some (km_attempts (ss_connection s))"
| "counter_value s PM_connectionSuccesses = Some (km_successes (ss_connection s))"
| "counter_value s PM_connectionFailures = Some (km_failures (ss_connection s))"
| "counter_value s PM_messagesPublished = Some (um_messagesPublished (ss_publisher s))"
| "counter_value s PM_publishFailures = Some (um_failures (ss_publisher s))"
| "counter_value s PM_publishConfirms = Some (um_confirms (ss_publisher s))"
| "counter_value s PM_publishRetries = Some (um_retries (ss_publisher s))"
| "counter_value s PM_batchesPublished = Some (um_batchesPublished (ss_publisher s))"
| "counter_value s PM_messagesConsumed = Some (nm_messagesConsumed (ss_consumer s))"
| "counter_value s PM_messagesAcknowledged = Some (nm_messagesAcknowledged (ss_consumer s))"
| "counter_value s PM_messagesRejected = Some (nm_messagesRejected (ss_consumer s))"
| "counter_value s PM_consumerCancellations = Some (nm_cancellations (ss_consumer s))"
| "counter_value s PM_queuesCreated = Some (qm_queuesCreated (ss_queue s))"
| "counter_value s PM_queuesDeleted = Some (qm_queuesDeleted (ss_queue s))"
| "counter_value s PM_queuesPurged = Some (qm_queuesPurged (ss_queue s))"
| "counter_value s PM_errors = Some (ym_errors (ss_system s))"
| "counter_value s _ = None"

section \<open>What is counted\<close>

text \<open>The increments of a metric among the calls made to Prometheus.\<close>

definition told :: "prom_metric \<Rightarrow> collector \<Rightarrow> nat" where
  "told m c = (case mc_prom c of None \<Rightarrow> 0 | Some l \<Rightarrow> count_list l (Increment m))"

lemma tell_frame [simp]:
  "mc_config (tell l c) = mc_config c" "mc_connection (tell l c) = mc_connection c"
  "mc_publisher (tell l c) = mc_publisher c" "mc_consumer (tell l c) = mc_consumer c"
  "mc_queue (tell l c) = mc_queue c" "mc_system (tell l c) = mc_system c"
  "mc_prom (tell l c) = map_option (\<lambda>k. k @ l) (mc_prom c)"
  by (simp_all add: tell_def split: option.split)

lemma depth_frame [simp]:
  "mc_connection (updateQueueDepth q d c) = mc_connection c"
  "mc_publisher (updateQueueDepth q d c) = mc_publisher c"
  "mc_consumer (updateQueueDepth q d c) = mc_consumer c"
  "mc_queue (updateQueueDepth q d c) = (mc_queue c)\<lparr>qm_totalDepth := d\<rparr>"
  "mc_system (updateQueueDepth q d c) = mc_system c"
  "mc_prom (updateQueueDepth q d c) =
    map_option (\<lambda>k. k @ [Set_Gauge PM_queueDepth (double_of_size (sum_depths (om_set q d (mc_queueDepths c))))])
      (mc_prom c)"
  by (simp_all add: updateQueueDepth_def Let_def split: option.split)

lemmas record_defs =
  recordConnectionAttempt_def recordConnectionSuccess_def recordConnectionFailure_def
  recordConnectionClosed_def recordMessagePublished_def recordPublishFailure_def
  recordPublishConfirm_def recordPublishRetry_def recordBatchPublished_def updateLocalQueueSize_def
  recordMessageConsumed_def recordMessageAcknowledged_def recordMessageRejected_def
  recordConsumerCancellation_def updateActiveConsumers_def recordQueueCreated_def
  recordQueueDeleted_def recordQueuePurged_def recordError_def updateMemoryUsage_def updateCpuUsage_def

lemma told_step:
  assumes "mc_prom c = Some l" "counter_value s m \<noteq> None"
  shows "told m (collector_after e c) = told m c + (if event_counter e = Some m then 1 else 0)"
  using assms by (cases e) (auto simp: told_def record_defs)

lemma prom_step: "mc_prom (collector_after e c) = None \<longleftrightarrow> mc_prom c = None"
  by (cases e) (simp_all add: record_defs)

lemma counter_step:
  assumes "counter_value (getSnapshot now c) m = Some v"
  shows "counter_value (getSnapshot now (collector_after e c)) m =
    Some (v + (if event_counter e = Some m then 1 else 0))"
proof (cases "event_counter e = Some m")
  case True
  then show ?thesis using assms by (cases e) (auto simp: record_defs getSnapshot_def)
next
  case False
  then show ?thesis using assms by (cases m; cases e) (auto simp: record_defs getSnapshot_def)
qed

abbreviation collect_events :: "metric_event list \<Rightarrow> collector \<Rightarrow> collector" where
  "collect_events evs c \<equiv> foldl (\<lambda>c e. collector_after e c) c evs"

definition is_counter :: "prom_metric \<Rightarrow> bool" where
  "is_counter m \<longleftrightarrow> counter_value (new_snapshot 0) m \<noteq> None"

definition events_for :: "prom_metric \<Rightarrow> metric_event list \<Rightarrow> nat" where
  "events_for m evs = length (filter (\<lambda>e. event_counter e = Some m) evs)"

lemma counter_run:
  "counter_value (getSnapshot now c) m = Some v \<Longrightarrow>
    counter_value (getSnapshot now (collect_events evs c)) m = Some (v + word_of_nat (events_for m evs))"
proof (induction evs arbitrary: c v)
  case (Cons e evs)
  from Cons.IH [OF counter_step [OF Cons.prems, of e]] show ?case
    by (simp add: events_for_def add_ac)
qed (simp add: events_for_def)

lemma counter_domain: "counter_value s m = None \<longleftrightarrow> \<not> is_counter m"
  by (cases m) (simp_all add: is_counter_def)

lemma told_run:
  "mc_prom c \<noteq> None \<Longrightarrow> is_counter m \<Longrightarrow> told m (collect_events evs c) = told m c + events_for m evs"
proof (induction evs arbitrary: c)
  case (Cons e evs)
  then obtain l where "mc_prom c = Some l" by auto
  then have "told m (collector_after e c) = told m c + (if event_counter e = Some m then 1 else 0)"
    by (rule told_step [where s = "new_snapshot 0"]) (use Cons.prems in \<open>simp add: is_counter_def\<close>)
  with Cons.IH [of "collector_after e c"] Cons.prems show ?case
    by (simp add: prom_step events_for_def)
qed (simp add: events_for_def)

lemma never_recorded:
  "qm_queueDepths (mc_queue (collect_events evs c)) = qm_queueDepths (mc_queue c) \<and>
   km_reconnects (mc_connection (collect_events evs c)) = km_reconnects (mc_connection c) \<and>
   nm_messagesRequeued (mc_consumer (collect_events evs c)) = nm_messagesRequeued (mc_consumer c)"
proof (induction evs arbitrary: c)
  case (Cons e evs)
  from Cons.IH [of "collector_after e c"] show ?case by (cases e) (simp_all add: record_defs)
qed simp

lemma new_collector_counters: "is_counter m \<Longrightarrow> counter_value (getSnapshot now (new_collector config)) m = Some 0"
  by (cases m) (simp_all add: is_counter_def getSnapshot_def new_collector_def new_connection_metrics_def
      new_publisher_metrics_def new_consumer_metrics_def new_queue_metrics_def new_system_metrics_def)

text \<open>
  C39. The collector counts every event once. After any sequence of events each counter of a
  snapshot is the number of events recorded for it, and with Prometheus enabled the library was
  told of exactly as many increments. Three fields that the aggregation, the report and the alert
  rules read are never filled: the depths of single queues, reconnects and requeued messages.
\<close>

theorem collector_counts:
  "let c = collect_events evs (new_collector config); s = getSnapshot now c
   in counter_value s m = (if is_counter m then Some (word_of_nat (events_for m evs)) else None) \<and>
      told m c = (if mf_enablePrometheus config \<and> is_counter m then events_for m evs else told m c) \<and>
      qm_queueDepths (ss_queue s) = [] \<and> km_reconnects (ss_connection s) = 0 \<and>
      nm_messagesRequeued (ss_consumer s) = 0"
proof -
  let ?c = "collect_events evs (new_collector config)"
  have "counter_value (getSnapshot now ?c) m = (if is_counter m then Some (word_of_nat (events_for m evs)) else None)"
    using counter_run [OF new_collector_counters [of m now config]]
    by (cases "is_counter m") (simp_all add: counter_domain)
  moreover have "told m ?c = events_for m evs" if "mf_enablePrometheus config" "is_counter m"
    using told_run [where c = "new_collector config" and m = m and evs = evs] that by (simp add: new_collector_def told_def)
  ultimately show ?thesis
    using never_recorded [where evs = evs and c = "new_collector config"]
    by (simp add: Let_def getSnapshot_def new_collector_def new_queue_metrics_def new_connection_metrics_def
        new_consumer_metrics_def)
qed

text \<open>
  The two totals of the queue depths: the snapshot shows the depth of the queue reported last,
  the gauge the sum over all queues.
\<close>

lemma queue_depth_shown:
  "qm_totalDepth (ss_queue (getSnapshot now (updateQueueDepth q d c))) = d"
  by (simp add: getSnapshot_def)

lemma sum_depths_eq: "sum_depths m = sum_list (map snd m)"
proof -
  have "foldl (\<lambda>t (q, d). t + d) a m = a + sum_list (map snd m)" for a
    by (induction m arbitrary: a) (simp_all add: case_prod_beta add_ac)
  then show ?thesis by (simp add: sum_depths_def)
qed

text \<open>The processor usage is a percentage, whatever the clocks say.\<close>

lemma cpu_usage_bounds:
  "fp_le (Fin 0) (getCurrentCpuUsage wall cpu) \<and> fp_le (getCurrentCpuUsage wall cpu) (Fin 100)"
proof -
  have "fp_le (Fin 0) (dbl_min (Fin 100) (if fp_lt (Fin 0) x then x else Fin 0)) \<and>
      fp_le (dbl_min (Fin 100) (if fp_lt (Fin 0) x then x else Fin 0)) (Fin 100)" for x
    by (cases x) (auto simp: dbl_min_def)
  then show ?thesis by (simp add: getCurrentCpuUsage_def Let_def)
qed

end
