(* ===== verification/Metrics_Reports.thy ===== *)
theory Metrics_Reports
  imports Metrics_Collector
begin

text \<open>
  \<open>rabbitmq_integration::metrics\<close>, what is made of the snapshots (\<open>metrics.hpp\<close>): timers and the
  helpers of publisher, consumer and connection, the health check, the aggregation over several
  instances, the printed report, the Prometheus text and the alerts with their cooldown.
\<close>

section \<open>Timers and helpers\<close>

text \<open>A timer is its start; the clocks count nanoseconds and do not run backwards.\<close>

definition timer_elapsed :: "ticks \<Rightarrow> ticks \<Rightarrow> ticks" where
  "timer_elapsed now start = (now - start) div 1000000"

definition onPublishStart :: "ticks \<Rightarrow> ticks \<times> collector \<Rightarrow> ticks \<times> collector" where
  "onPublishStart now h = (now, snd h)"

definition onPublishSuccess :: "ticks \<Rightarrow> ticks \<times> collector \<Rightarrow> ticks \<times> collector" where
  "onPublishSuccess now h = (fst h, recordMessagePublished (timer_elapsed now (fst h)) (snd h))"

definition onMessageReceived :: "ticks \<Rightarrow> ticks \<times> collector \<Rightarrow> ticks \<times> collector" where
  "onMessageReceived now h = (now, snd h)"

definition onMessageProcessed :: "ticks \<Rightarrow> ticks \<times> collector \<Rightarrow> ticks \<times> collector" where
  "onMessageProcessed now h = (fst h, recordMessageConsumed (timer_elapsed now (fst h)) (snd h))"

definition onConnectionAttempt :: "ticks \<Rightarrow> ticks \<times> collector \<Rightarrow> ticks \<times> collector" where
  "onConnectionAttempt now h = (now, recordConnectionAttempt (snd h))"

definition onConnectionSuccess :: "ticks \<Rightarrow> ticks \<times> collector \<Rightarrow> ticks \<times> collector" where
  "onConnectionSuccess now h = (fst h, recordConnectionSuccess (timer_elapsed now (fst h)) (snd h))"

text \<open>
  The helpers count what they are told: apart from the timer, a call of a helper is a call of the
  collector.
\<close>

definition timer_reset :: "ticks \<Rightarrow> ticks \<Rightarrow> ticks" where
  "timer_reset now start = now"

definition metrics_helper :: "ticks \<Rightarrow> collector \<Rightarrow> ticks \<times> collector" where
  "metrics_helper now c = (now, c)"

definition helper_publishFailure :: "ticks \<times> collector \<Rightarrow> ticks \<times> collector" where
  "helper_publishFailure h = (fst h, recordPublishFailure (snd h))"

definition helper_publishConfirm :: "ticks \<times> collector \<Rightarrow> ticks \<times> collector" where
  "helper_publishConfirm h = (fst h, recordPublishConfirm (snd h))"

definition helper_publishRetry :: "ticks \<times> collector \<Rightarrow> ticks \<times> collector" where
  "helper_publishRetry h = (fst h, recordPublishRetry (snd h))"

definition helper_batchPublished :: "u64 \<Rightarrow> ticks \<times> collector \<Rightarrow> ticks \<times> collector" where
  "helper_batchPublished n h = (fst h, recordBatchPublished n (snd h))"

definition helper_localQueueSize :: "u64 \<Rightarrow> ticks \<times> collector \<Rightarrow> ticks \<times> collector" where
  "helper_localQueueSize n h = (fst h, updateLocalQueueSize n (snd h))"

definition helper_acknowledged :: "ticks \<times> collector \<Rightarrow> ticks \<times> collector" where
  "helper_acknowledged h = (fst h, recordMessageAcknowledged (snd h))"

definition helper_rejected :: "ticks \<times> collector \<Rightarrow> ticks \<times> collector" where
  "helper_rejected h = (fst h, recordMessageRejected (snd h))"

definition helper_cancelled :: "ticks \<times> collector \<Rightarrow> ticks \<times> collector" where
  "helper_cancelled h = (fst h, recordConsumerCancellation (snd h))"

definition helper_activeConsumers :: "u64 \<Rightarrow> ticks \<times> collector \<Rightarrow> ticks \<times> collector" where
  "helper_activeConsumers n h = (fst h, updateActiveConsumers n (snd h))"

definition helper_connectionFailure :: "ticks \<times> collector \<Rightarrow> ticks \<times> collector" where
  "helper_connectionFailure h = (fst h, recordConnectionFailure (snd h))"

definition helper_connectionClosed :: "ticks \<times> collector \<Rightarrow> ticks \<times> collector" where
  "helper_connectionClosed h = (fst h, recordConnectionClosed (snd h))"

text \<open>
  One helper serves one operation at a time: when two overlap, the first is given the time since the
  second one began.
\<close>

lemma overlapping_publishes:
  "onPublishSuccess t3 (onPublishStart t2 (onPublishStart t1 h)) =
     (t2, recordMessagePublished (timer_elapsed t3 t2) (snd h))"
  by (simp add: onPublishSuccess_def onPublishStart_def)

text \<open>A scoped timer hands the time of its scope to the function it was made with.\<close>

definition scoped_timer :: "(ticks \<Rightarrow> 'a) \<Rightarrow> ticks \<Rightarrow> ticks \<Rightarrow> 'a" where
  "scoped_timer func start now = func (timer_elapsed now start)"

section \<open>Health\<close>

record health_status =
  hs_healthy :: bool
  hs_status :: string
  hs_details :: "(string \<times> string) list"
  hs_timestamp :: ticks

text \<open>\<open>n > m * share\<close>, compared as doubles\<close>

definition above_share :: "u64 \<Rightarrow> u64 \<Rightarrow> rat \<Rightarrow> bool" where
  "above_share n m share \<longleftrightarrow> fp_lt (dbl_mul (double_of_size m) (f64 share)) (double_of_size n)"

definition unhealthy_if :: "bool \<Rightarrow> string \<Rightarrow> string \<Rightarrow> health_status \<Rightarrow> health_status" where
  "unhealthy_if b key why h =
     (if b then h\<lparr>hs_healthy := False, hs_details := om_set key why (hs_details h)\<rparr> else h)"

definition warn_if :: "bool \<Rightarrow> string \<Rightarrow> string \<Rightarrow> health_status \<Rightarrow> health_status" where
  "warn_if b key why h = (if b then h\<lparr>hs_details := om_set key why (hs_details h)\<rparr> else h)"

definition health_checks :: "metrics_snapshot \<Rightarrow> health_status \<Rightarrow> health_status" where
  "health_checks s h =
     unhealthy_if (ym_errors (ss_system s) > 100) ''errors'' ''High error count''
      (warn_if (fp_lt (Fin 80) (ym_cpuUsage (ss_system s))) ''cpu'' ''High CPU usage''
       (warn_if (ym_memoryUsage (ss_system s) > 1024 * 1024 * 1024) ''memory'' ''High memory usage''
        (unhealthy_if (above_share (nm_messagesRejected (ss_consumer s)) (nm_messagesConsumed (ss_consumer s)) (5/100))
           ''consumer'' ''High message rejection rate''
         (unhealthy_if (above_share (um_failures (ss_publisher s)) (um_messagesPublished (ss_publisher s)) (5/100))
            ''publisher'' ''High publish failure rate''
          (unhealthy_if (above_share (km_failures (ss_connection s)) (km_successes (ss_connection s)) (10/100))
             ''connection'' ''High failure rate'' h)))))"

definition checkHealth :: "ticks \<Rightarrow> metrics_snapshot \<Rightarrow> health_status" where
  "checkHealth now s =
     (let h = health_checks s
                \<lparr>hs_healthy = True, hs_status = ''OK'', hs_details = [], hs_timestamp = now\<rparr>
      in if \<not> hs_healthy h then h\<lparr>hs_status := ''UNHEALTHY''\<rparr>
         else if hs_details h \<noteq> [] then h\<lparr>hs_status := ''WARNING''\<rparr> else h)"

section \<open>Aggregation\<close>

type_synonym aggregator = "(string \<times> metrics_snapshot) list"

definition addSnapshot :: "string \<Rightarrow> metrics_snapshot \<Rightarrow> aggregator \<Rightarrow> aggregator" where
  "addSnapshot i s a = om_set i s a"

definition removeInstance :: "string \<Rightarrow> aggregator \<Rightarrow> aggregator" where
  "removeInstance i a = al_del i a"

definition getInstanceCount :: "aggregator \<Rightarrow> nat" where
  "getInstanceCount a = length a"

definition aggregator_clear :: "aggregator \<Rightarrow> aggregator" where
  "aggregator_clear a = []"

text \<open>\<open>for (const auto& [q, d] : ds) m[q] += d\<close>\<close>

definition add_depth :: "(string \<times> u64) list \<Rightarrow> string \<times> u64 \<Rightarrow> (string \<times> u64) list" where
  "add_depth m e =
     om_set (fst e) ((case map_of m (fst e) of None \<Rightarrow> 0 | Some w \<Rightarrow> w) + snd e) m"

definition add_snapshot :: "metrics_snapshot \<Rightarrow> metrics_snapshot \<Rightarrow> metrics_snapshot" where
  "add_snapshot a s = a
     \<lparr>ss_connection := (ss_connection a)
        \<lparr>km_attempts := km_attempts (ss_connection a) + km_attempts (ss_connection s),
         km_successes := km_successes (ss_connection a) + km_successes (ss_connection s),
         km_failures := km_failures (ss_connection a) + km_failures (ss_connection s),
         km_reconnects := km_reconnects (ss_connection a) + km_reconnects (ss_connection s),
         km_totalLatency := km_totalLatency (ss_connection a) + km_totalLatency (ss_connection s)\<rparr>,
      ss_publisher := (ss_publisher a)
        \<lparr>um_messagesPublished := um_messagesPublished (ss_publisher a) + um_messagesPublished (ss_publisher s),
         um_failures := um_failures (ss_publisher a) + um_failures (ss_publisher s),
         um_confirms := um_confirms (ss_publisher a) + um_confirms (ss_publisher s),
         um_retries := um_retries (ss_publisher a) + um_retries (ss_publisher s),
         um_batchesPublished := um_batchesPublished (ss_publisher a) + um_batchesPublished (ss_publisher s),
         um_totalBatchSize := um_totalBatchSize (ss_publisher a) + um_totalBatchSize (ss_publisher s),
         um_localQueueSize := um_localQueueSize (ss_publisher a) + um_localQueueSize (ss_publisher s),
         um_totalLatency := um_totalLatency (ss_publisher a) + um_totalLatency (ss_publisher s)\<rparr>,
      ss_consumer := (ss_consumer a)
        \<lparr>nm_messagesConsumed := nm_messagesConsumed (ss_consumer a) + nm_messagesConsumed (ss_consumer s),
         nm_messagesAcknowledged := nm_messagesAcknowledged (ss_consumer a) + nm_messagesAcknowledged (ss_consumer s),
         nm_messagesRejected := nm_messagesRejected (ss_consumer a) + nm_messagesRejected (ss_consumer s),
         nm_messagesRequeued := nm_messagesRequeued (ss_consumer a) + nm_messagesRequeued (ss_consumer s),
         nm_cancellations := nm_cancellations (ss_consumer a) + nm_cancellations (ss_consumer s),
         nm_activeConsumers := nm_activeConsumers (ss_consumer a) + nm_activeConsumers (ss_consumer s),
         nm_totalProcessingTime := nm_totalProcessingTime (ss_consumer a) + nm_totalProcessingTime (ss_consumer s)\<rparr>,
      ss_queue := (ss_queue a)
        \<lparr>qm_queuesCreated := qm_queuesCreated (ss_queue a) + qm_queuesCreated (ss_queue s),
         qm_queuesDeleted := qm_queuesDeleted (ss_queue a) + qm_queuesDeleted (ss_queue s),
         qm_queuesPurged := qm_queuesPurged (ss_queue a) + qm_queuesPurged (ss_queue s),
         qm_totalDepth := qm_totalDepth (ss_queue a) + qm_totalDepth (ss_queue s),
         qm_queueDepths := foldl add_depth (qm_queueDepths (ss_queue a)) (qm_queueDepths (ss_queue s))\<rparr>,
      ss_system := (ss_system a)
        \<lparr>ym_memoryUsage := ym_memoryUsage (ss_system a) + ym_memoryUsage (ss_system s),
         ym_cpuUsage := dbl_add (ym_cpuUsage (ss_system a)) (ym_cpuUsage (ss_system s)),
         ym_errors := ym_errors (ss_system a) + ym_errors (ss_system s)\<rparr>\<rparr>"

definition getAggregatedSnapshot :: "ticks \<Rightarrow> aggregator \<Rightarrow> metrics_snapshot" where
  "getAggregatedSnapshot now a =
     (let t = foldl (\<lambda>t e. add_snapshot t (snd e)) (new_snapshot now) a
      in if a \<noteq> []
         then t\<lparr>ss_system := (ss_system t)
                  \<lparr>ym_cpuUsage := dbl_div (ym_cpuUsage (ss_system t)) (rnd64 (of_nat (length a)))\<rparr>\<rparr>
         else t)"

section \<open>Alerts\<close>

text \<open>A condition is a function of the owner; those of the default rules follow below.\<close>

record alert_rule =
  ar_name :: string
  ar_description :: string
  ar_condition :: "metrics_snapshot \<Rightarrow> bool"
  ar_cooldown :: ticks
  ar_severity :: string

record alert =
  al_name :: string
  al_description :: string
  al_severity :: string
  al_timestamp :: ticks
  al_snapshot :: metrics_snapshot

record alerter =
  at_rules :: "alert_rule list"
  at_lastAlerts :: "(string \<times> ticks) list"

definition new_alerter :: alerter where
  "new_alerter = \<lparr>at_rules = [], at_lastAlerts = []\<rparr>"

definition addRule :: "alert_rule \<Rightarrow> alerter \<Rightarrow> alerter" where
  "addRule r a = a\<lparr>at_rules := at_rules a @ [r]\<rparr>"

definition alert_of :: "ticks \<Rightarrow> metrics_snapshot \<Rightarrow> alert_rule \<Rightarrow> alert" where
  "alert_of now s r =
     \<lparr>al_name = ar_name r, al_description = ar_description r, al_severity = ar_severity r,
      al_timestamp = now, al_snapshot = s\<rparr>"

text \<open>Clock and cooldown in the same unit.\<close>

definition cooling :: "ticks \<Rightarrow> (string \<times> ticks) list \<Rightarrow> alert_rule \<Rightarrow> bool" where
  "cooling now prev r \<longleftrightarrow>
     (case map_of prev (ar_name r) of None \<Rightarrow> False | Some t \<Rightarrow> now - t < ar_cooldown r)"

fun check_rules ::
    "ticks \<Rightarrow> metrics_snapshot \<Rightarrow> alert_rule list \<Rightarrow> (string \<times> ticks) list \<Rightarrow>
      alert_rule list \<times> (string \<times> ticks) list" where
  "check_rules now s [] prev = ([], prev)"
| "check_rules now s (r # rs) prev =
     (if cooling now prev r then check_rules now s rs prev
      else if ar_condition r s
      then (case check_rules now s rs (om_set (ar_name r) now prev) of (fired, prev') \<Rightarrow> (r # fired, prev'))
      else check_rules now s rs prev)"

definition checkAlerts :: "ticks \<Rightarrow> metrics_snapshot \<Rightarrow> alerter \<Rightarrow> alert list \<times> alerter" where
  "checkAlerts now s a = (case check_rules now s (at_rules a) (at_lastAlerts a) of
     (fired, prev) \<Rightarrow> (map (alert_of now s) fired, a\<lparr>at_lastAlerts := prev\<rparr>))"

definition rate_above :: "u64 \<Rightarrow> u64 \<Rightarrow> rat \<Rightarrow> bool" where
  "rate_above n m share \<longleftrightarrow>
     fp_lt (f64 share) (dbl_div (double_of_size n) (rnd64 (of_nat (unat m))))"

definition default_rules :: "alert_rule list" where
  "default_rules =
     [\<lparr>ar_name = ''high_connection_failures'', ar_description = ''Connection failure rate is high'',
       ar_condition = (\<lambda>s. km_attempts (ss_connection s) > 10 \<and>
         rate_above (km_failures (ss_connection s)) (km_attempts (ss_connection s)) (20/100)),
       ar_cooldown = 300, ar_severity = ''critical''\<rparr>,
      \<lparr>ar_name = ''high_publish_failures'', ar_description = ''Publish failure rate is high'',
       ar_condition = (\<lambda>s.
         let sent = um_messagesPublished (ss_publisher s) + um_failures (ss_publisher s)
         in sent > 100 \<and> rate_above (um_failures (ss_publisher s)) sent (5/100)),
       ar_cooldown = 180, ar_severity = ''warning''\<rparr>,
      \<lparr>ar_name = ''large_local_queue'', ar_description = ''Local queue size is large'',
       ar_condition = (\<lambda>s. um_localQueueSize (ss_publisher s) > 10000),
       ar_cooldown = 600, ar_severity = ''warning''\<rparr>,
      \<lparr>ar_name = ''high_memory_usage'', ar_description = ''Memory usage is high'',
       ar_condition = (\<lambda>s. ym_memoryUsage (ss_system s) > 1024 * 1024 * 1024),
       ar_cooldown = 300, ar_severity = ''warning''\<rparr>,
      \<lparr>ar_name = ''high_cpu_usage'', ar_description = ''CPU usage is high'',
       ar_condition = (\<lambda>s. fp_lt (Fin 80) (ym_cpuUsage (ss_system s))),
       ar_cooldown = 300, ar_severity = ''warning''\<rparr>]"

definition setupDefaultRules :: "alerter \<Rightarrow> alerter" where
  "setupDefaultRules a = foldl (\<lambda>a r. addRule r a) a default_rules"

section \<open>Printed numbers\<close>

text \<open>\<open>std::fixed\<close> with one digit after the point\<close>

fun fp_fixed1 :: "fp \<Rightarrow> string" where
  "fp_fixed1 (Fin x) =
     (let n = nat (round_half_even (\<bar>x\<bar> * 10))
      in (if x < 0 then ''-'' else []) @ dec_string (n div 10) @ ''.'' @ dec_string (n mod 10))"
| "fp_fixed1 (Inf neg) = (if neg then ''-inf'' else ''inf'')"
| "fp_fixed1 NaN = ''nan''"

text \<open>
  The default format of \<open>operator<<\<close>: six significant digits without trailing zeros, with an
  exponent below \<open>-4\<close> and from \<open>6\<close> on. \<open>ilog10\<close> is the exponent of a positive number.
\<close>

definition ilog10 :: "rat \<Rightarrow> int" where
  "ilog10 x = (if 1 \<le> x then int (length (dec_string (nat \<lfloor>x\<rfloor>))) - 1
     else - int (length (dec_string (nat (\<lceil>1 / x\<rceil> - 1)))))"

definition strip_zeros :: "string \<Rightarrow> string" where
  "strip_zeros s = rev (dropWhile (\<lambda>c. c = CHR ''0'') (rev s))"

definition with_fraction :: "string \<Rightarrow> string \<Rightarrow> string" where
  "with_fraction whole rest =
     (if strip_zeros rest = [] then whole else whole @ ''.'' @ strip_zeros rest)"

definition six_digits :: "rat \<Rightarrow> int \<times> string" where
  "six_digits x =
     (let e = ilog10 x; r = round_half_even (x / 10 powi (e - 5))
      in if r = 1000000 then (e + 1, ''100000'') else (e, dec_string (nat r)))"

fun fp_default :: "fp \<Rightarrow> string" where
  "fp_default (Fin x) =
     (if x = 0 then ''0''
      else (case six_digits \<bar>x\<bar> of (e, ds) \<Rightarrow>
        (if x < 0 then ''-'' else []) @
        (if e < -4 \<or> 6 \<le> e
         then with_fraction (take 1 ds) (drop 1 ds) @ (if e < 0 then ''e-'' else ''e+'') @
              (let s = dec_string (nat \<bar>e\<bar>) in if length s < 2 then ''0'' @ s else s)
         else if 0 \<le> e then with_fraction (take (nat e + 1) ds) (drop (nat e + 1) ds)
         else with_fraction ''0'' (replicate (nat (- e) - 1) CHR ''0'' @ ds))))"
| "fp_default (Inf neg) = (if neg then ''-inf'' else ''inf'')"
| "fp_default NaN = ''nan''"

section \<open>The report\<close>

definition formatTimestamp :: "ticks \<Rightarrow> string" where
  "formatTimestamp tp = utc_time '' '' '' UTC'' tp"

definition calculatePercentage :: "u64 \<Rightarrow> u64 \<Rightarrow> fp" where
  "calculatePercentage numerator denominator =
     (if denominator = 0 then Fin 0
      else dbl_mul (dbl_div (double_of_size numerator) (rnd64 (of_nat (unat denominator)))) (Fin 100))"

text \<open>The loop divides at most four times, so its counter is the number of units that are left.\<close>

fun scale_bytes :: "nat \<Rightarrow> fp \<Rightarrow> nat \<Rightarrow> fp \<times> nat" where
  "scale_bytes 0 x unit = (x, unit)"
| "scale_bytes (Suc n) x unit =
     (if fp_le (Fin 1024) x then scale_bytes n (dbl_div x 1024) (unit + 1) else (x, unit))"

definition formatBytes :: "u64 \<Rightarrow> string" where
  "formatBytes bytes = (case scale_bytes 4 (double_of_size bytes) 0 of (x, unit) \<Rightarrow>
     fp_fixed1 x @ '' '' @ [''B'', ''KB'', ''MB'', ''GB'', ''TB''] ! unit)"

definition show_size :: "u64 \<Rightarrow> string" where
  "show_size n = dec_string (unat n)"

definition report_line :: "string \<Rightarrow> string \<Rightarrow> string" where
  "report_line label value = ''  '' @ label @ '': '' @ value @ [CHR 0x0A]"

text \<open>A signed total divided by an unsigned count is an unsigned division.\<close>

definition mean_of :: "ticks \<Rightarrow> u64 \<Rightarrow> string" where
  "mean_of t n = show_size (word_of_int t div n) @ ''ms''"

definition generateTextReport :: "metrics_snapshot \<Rightarrow> string" where
  "generateTextReport s =
     (let k = ss_connection s; u = ss_publisher s; n = ss_consumer s; q = ss_queue s; y = ss_system s;
          nl = [CHR 0x0A]
      in concat
       [''RabbitMQ Integration Metrics Report'', nl, ''==================================='', nl,
        ''Timestamp: '', formatTimestamp (ss_timestamp s), nl, nl,
        ''Connection Metrics:'', nl,
        report_line ''Attempts'' (show_size (km_attempts k)),
        report_line ''Successes'' (show_size (km_successes k)),
        report_line ''Failures'' (show_size (km_failures k)),
        report_line ''Success Rate'' (fp_default (calculatePercentage (km_successes k) (km_attempts k)) @ ''%''),
        if km_attempts k > 0 then report_line ''Avg Latency'' (mean_of (km_totalLatency k) (km_attempts k)) else [],
        nl,
        ''Publisher Metrics:'', nl,
        report_line ''Messages Published'' (show_size (um_messagesPublished u)),
        report_line ''Publish Failures'' (show_size (um_failures u)),
        report_line ''Publish Confirms'' (show_size (um_confirms u)),
        report_line ''Publish Retries'' (show_size (um_retries u)),
        report_line ''Batches Published'' (show_size (um_batchesPublished u)),
        report_line ''Local Queue Size'' (show_size (um_localQueueSize u)),
        report_line ''Success Rate'' (fp_default (calculatePercentage (um_messagesPublished u)
          (um_messagesPublished u + um_failures u)) @ ''%''),
        if um_batchesPublished u > 0
        then report_line ''Avg Batch Size'' (show_size (um_totalBatchSize u div um_batchesPublished u)) else [],
        nl,
        ''Consumer Metrics:'', nl,
        report_line ''Messages Consumed'' (show_size (nm_messagesConsumed n)),
        report_line ''Messages Acknowledged'' (show_size (nm_messagesAcknowledged n)),
        report_line ''Messages Rejected'' (show_size (nm_messagesRejected n)),
        report_line ''Active Consumers'' (show_size (nm_activeConsumers n)),
        report_line ''Ack Rate'' (fp_default (calculatePercentage (nm_messagesAcknowledged n)
          (nm_messagesConsumed n)) @ ''%''),
        if nm_messagesConsumed n > 0
        then report_line ''Avg Processing Time'' (mean_of (nm_totalProcessingTime n) (nm_messagesConsumed n)) else [],
        nl,
        ''Queue Metrics:'', nl,
        report_line ''Queues Created'' (show_size (qm_queuesCreated q)),
        report_line ''Queues Deleted'' (show_size (qm_queuesDeleted q)),
        report_line ''Queues Purged'' (show_size (qm_queuesPurged q)),
        report_line ''Total Queue Depth'' (show_size (qm_totalDepth q)),
        report_line ''Active Queues'' (dec_string (length (qm_queueDepths q))),
        nl,
        ''System Metrics:'', nl,
        report_line ''Memory Usage'' (formatBytes (ym_memoryUsage y)),
        report_line ''CPU Usage'' (fp_fixed1 (ym_cpuUsage y) @ ''%''),
        report_line ''Total Errors'' (show_size (ym_errors y))])"

section \<open>The Prometheus text\<close>

definition prom_sample :: "string \<Rightarrow> string \<Rightarrow> string \<Rightarrow> u64 \<Rightarrow> string" where
  "prom_sample name help kind value =
     ''# HELP '' @ name @ '' '' @ help @ [CHR 0x0A] @ ''# TYPE '' @ name @ '' '' @ kind @ [CHR 0x0A] @
     name @ '' '' @ show_size value @ [CHR 0x0A]"

definition exportPrometheus :: "metrics_snapshot \<Rightarrow> string" where
  "exportPrometheus s =
     prom_sample ''rabbitmq_integration_connection_attempts_total'' ''Total connection attempts''
       ''counter'' (km_attempts (ss_connection s)) @
     prom_sample ''rabbitmq_integration_messages_published_total'' ''Messages published''
       ''counter'' (um_messagesPublished (ss_publisher s)) @
     prom_sample ''rabbitmq_integration_messages_consumed_total'' ''Messages consumed''
       ''counter'' (nm_messagesConsumed (ss_consumer s)) @
     prom_sample ''rabbitmq_integration_memory_usage_bytes'' ''Memory usage in bytes''
       ''gauge'' (ym_memoryUsage (ss_system s))"

section \<open>Health and report\<close>

lemma unhealthy_if_sel [simp]:
  "hs_healthy (unhealthy_if b k w h) = (hs_healthy h \<and> \<not> b)"
  "hs_status (unhealthy_if b k w h) = hs_status h"
  "hs_details (unhealthy_if b k w h) = [] \<longleftrightarrow> hs_details h = [] \<and> \<not> b"
  by (cases "hs_details h"; auto simp: unhealthy_if_def split: if_splits)+

lemma warn_if_sel [simp]:
  "hs_healthy (warn_if b k w h) = hs_healthy h"
  "hs_status (warn_if b k w h) = hs_status h"
  "hs_details (warn_if b k w h) = [] \<longleftrightarrow> hs_details h = [] \<and> \<not> b"
  by (cases "hs_details h"; auto simp: warn_if_def split: if_splits)+

text \<open>The verdict: failures make it unhealthy, high memory or processor usage only a warning.\<close>

lemma health_verdict:
  "let bad = above_share (km_failures (ss_connection s)) (km_successes (ss_connection s)) (10/100) \<or>
         above_share (um_failures (ss_publisher s)) (um_messagesPublished (ss_publisher s)) (5/100) \<or>
         above_share (nm_messagesRejected (ss_consumer s)) (nm_messagesConsumed (ss_consumer s)) (5/100) \<or>
         100 < ym_errors (ss_system s);
       high = 1024 * 1024 * 1024 < ym_memoryUsage (ss_system s) \<or> fp_lt (Fin 80) (ym_cpuUsage (ss_system s))
   in (hs_healthy (checkHealth now s) \<longleftrightarrow> \<not> bad) \<and>
      hs_status (checkHealth now s) =
        (if bad then ''UNHEALTHY'' else if high then ''WARNING'' else ''OK'')"
  by (auto simp: checkHealth_def health_checks_def Let_def)

text \<open>The index into the table of units is within its five entries.\<close>

lemma scale_bytes_unit: "snd (scale_bytes n x unit) \<le> unit + n"
proof (induction n x unit rule: scale_bytes.induct)
  case (2 n x unit)
  then show ?case by simp
qed simp

section \<open>Aggregation\<close>

lemma add_snapshot_fold:
  fixes f :: "metrics_snapshot \<Rightarrow> 'a::comm_monoid_add"
  assumes "\<And>t s. f (add_snapshot t s) = f t + f s"
  shows "f (foldl (\<lambda>t e. add_snapshot t (snd e)) t a) = f t + sum_list (map (\<lambda>e. f (snd e)) a)"
  by (induction a arbitrary: t) (simp_all add: assms add_ac)

lemma add_snapshot_sel [simp]:
  "km_attempts (ss_connection (add_snapshot t s)) = km_attempts (ss_connection t) + km_attempts (ss_connection s)"
  "km_successes (ss_connection (add_snapshot t s)) = km_successes (ss_connection t) + km_successes (ss_connection s)"
  "km_failures (ss_connection (add_snapshot t s)) = km_failures (ss_connection t) + km_failures (ss_connection s)"
  "um_messagesPublished (ss_publisher (add_snapshot t s)) =
    um_messagesPublished (ss_publisher t) + um_messagesPublished (ss_publisher s)"
  "um_failures (ss_publisher (add_snapshot t s)) = um_failures (ss_publisher t) + um_failures (ss_publisher s)"
  "um_localQueueSize (ss_publisher (add_snapshot t s)) =
    um_localQueueSize (ss_publisher t) + um_localQueueSize (ss_publisher s)"
  "nm_messagesConsumed (ss_consumer (add_snapshot t s)) =
    nm_messagesConsumed (ss_consumer t) + nm_messagesConsumed (ss_consumer s)"
  "nm_messagesRejected (ss_consumer (add_snapshot t s)) =
    nm_messagesRejected (ss_consumer t) + nm_messagesRejected (ss_consumer s)"
  "nm_activeConsumers (ss_consumer (add_snapshot t s)) =
    nm_activeConsumers (ss_consumer t) + nm_activeConsumers (ss_consumer s)"
  "qm_totalDepth (ss_queue (add_snapshot t s)) = qm_totalDepth (ss_queue t) + qm_totalDepth (ss_queue s)"
  "ym_memoryUsage (ss_system (add_snapshot t s)) = ym_memoryUsage (ss_system t) + ym_memoryUsage (ss_system s)"
  "ym_errors (ss_system (add_snapshot t s)) = ym_errors (ss_system t) + ym_errors (ss_system s)"
  by (simp_all add: add_snapshot_def)

lemma aggregated_sel:
  "ss_connection (getAggregatedSnapshot now a) = ss_connection (foldl (\<lambda>t e. add_snapshot t (snd e)) (new_snapshot now) a)"
  "ss_publisher (getAggregatedSnapshot now a) = ss_publisher (foldl (\<lambda>t e. add_snapshot t (snd e)) (new_snapshot now) a)"
  "ss_consumer (getAggregatedSnapshot now a) = ss_consumer (foldl (\<lambda>t e. add_snapshot t (snd e)) (new_snapshot now) a)"
  "ss_queue (getAggregatedSnapshot now a) = ss_queue (foldl (\<lambda>t e. add_snapshot t (snd e)) (new_snapshot now) a)"
  "ym_memoryUsage (ss_system (getAggregatedSnapshot now a)) =
    ym_memoryUsage (ss_system (foldl (\<lambda>t e. add_snapshot t (snd e)) (new_snapshot now) a))"
  "ym_errors (ss_system (getAggregatedSnapshot now a)) =
    ym_errors (ss_system (foldl (\<lambda>t e. add_snapshot t (snd e)) (new_snapshot now) a))"
  by (simp_all add: getAggregatedSnapshot_def Let_def)

lemma new_snapshot_sel:
  "ss_connection (new_snapshot now) = new_connection_metrics" "ss_publisher (new_snapshot now) = new_publisher_metrics"
  "ss_consumer (new_snapshot now) = new_consumer_metrics" "ss_queue (new_snapshot now) = new_queue_metrics"
  "ss_system (new_snapshot now) = new_system_metrics"
  by (simp_all add: new_snapshot_def)

text \<open>Each total is the sum over the instances, whatever order they were added in.\<close>

lemma aggregation_sums:
  "let t = getAggregatedSnapshot now a; total = (\<lambda>f. sum_list (map (\<lambda>e. f (snd e)) a))
   in km_attempts (ss_connection t) = total (\<lambda>s. km_attempts (ss_connection s)) \<and>
      km_failures (ss_connection t) = total (\<lambda>s. km_failures (ss_connection s)) \<and>
      um_messagesPublished (ss_publisher t) = total (\<lambda>s. um_messagesPublished (ss_publisher s)) \<and>
      um_failures (ss_publisher t) = total (\<lambda>s. um_failures (ss_publisher s)) \<and>
      nm_messagesConsumed (ss_consumer t) = total (\<lambda>s. nm_messagesConsumed (ss_consumer s)) \<and>
      nm_messagesRejected (ss_consumer t) = total (\<lambda>s. nm_messagesRejected (ss_consumer s)) \<and>
      qm_totalDepth (ss_queue t) = total (\<lambda>s. qm_totalDepth (ss_queue s)) \<and>
      ym_memoryUsage (ss_system t) = total (\<lambda>s. ym_memoryUsage (ss_system s)) \<and>
      ym_errors (ss_system t) = total (\<lambda>s. ym_errors (ss_system s))"
  by (simp add: Let_def aggregated_sel new_snapshot_sel new_connection_metrics_def new_publisher_metrics_def
      new_consumer_metrics_def new_queue_metrics_def new_system_metrics_def
      add_snapshot_fold [where f = "\<lambda>s. km_attempts (ss_connection s)"]
      add_snapshot_fold [where f = "\<lambda>s. km_failures (ss_connection s)"]
      add_snapshot_fold [where f = "\<lambda>s. um_messagesPublished (ss_publisher s)"]
      add_snapshot_fold [where f = "\<lambda>s. um_failures (ss_publisher s)"]
      add_snapshot_fold [where f = "\<lambda>s. nm_messagesConsumed (ss_consumer s)"]
      add_snapshot_fold [where f = "\<lambda>s. nm_messagesRejected (ss_consumer s)"]
      add_snapshot_fold [where f = "\<lambda>s. qm_totalDepth (ss_queue s)"]
      add_snapshot_fold [where f = "\<lambda>s. ym_memoryUsage (ss_system s)"]
      add_snapshot_fold [where f = "\<lambda>s. ym_errors (ss_system s)"])

text \<open>The depth of a queue, nothing for a queue without an entry.\<close>

definition depth_of :: "string \<Rightarrow> (string \<times> u64) list \<Rightarrow> u64" where
  "depth_of q m = (case map_of m q of None \<Rightarrow> 0 | Some d \<Rightarrow> d)"

lemma add_depth_of:
  assumes "om_wf m"
  shows "om_wf (add_depth m e)" "depth_of q (add_depth m e) = depth_of q m + (if fst e = q then snd e else 0)"
  using assms by (auto simp: add_depth_def depth_of_def split: option.split)

lemma fold_add_depth:
  assumes "om_wf m" "distinct (map fst ds)"
  shows "om_wf (foldl add_depth m ds) \<and> depth_of q (foldl add_depth m ds) = depth_of q m + depth_of q ds"
  using assms
proof (induction ds arbitrary: m)
  case (Cons e ds)
  have "depth_of q (e # ds) = (if fst e = q then snd e else 0) + depth_of q ds"
    using Cons.prems(2) by (cases e) (force simp: depth_of_def split: option.split dest: map_of_SomeD)
  with Cons.IH [of "add_depth m e"] Cons.prems add_depth_of(1) [OF Cons.prems(1), of e]
      add_depth_of(2) [OF Cons.prems(1), of q e] show ?case
    by (simp add: add_ac)
qed (simp add: depth_of_def)

lemma aggregated_depths:
  assumes "list_all (\<lambda>e. om_wf (qm_queueDepths (ss_queue (snd e)))) a"
  shows "depth_of q (qm_queueDepths (ss_queue (getAggregatedSnapshot now a))) =
    sum_list (map (\<lambda>e. depth_of q (qm_queueDepths (ss_queue (snd e)))) a)"
proof -
  have "om_wf (qm_queueDepths (ss_queue t)) \<Longrightarrow>
      depth_of q (qm_queueDepths (ss_queue (foldl (\<lambda>t e. add_snapshot t (snd e)) t a))) =
      depth_of q (qm_queueDepths (ss_queue t)) + sum_list (map (\<lambda>e. depth_of q (qm_queueDepths (ss_queue (snd e)))) a)"
    for t
    using assms
  proof (induction a arbitrary: t)
    case (Cons e a)
    have "om_wf (qm_queueDepths (ss_queue (add_snapshot t (snd e)))) \<and>
        depth_of q (qm_queueDepths (ss_queue (add_snapshot t (snd e)))) =
        depth_of q (qm_queueDepths (ss_queue t)) + depth_of q (qm_queueDepths (ss_queue (snd e)))"
      using fold_add_depth [OF Cons.prems(1) om_wf_distinct] Cons.prems(2) by (simp add: add_snapshot_def)
    with Cons.IH [of "add_snapshot t (snd e)"] Cons.prems show ?case by (simp add: add_ac)
  qed simp
  from this [of "new_snapshot now"] show ?thesis
    by (simp add: aggregated_sel new_snapshot_sel new_queue_metrics_def depth_of_def)
qed

section \<open>Alerts\<close>

text \<open>The alerts of a sequence of checks, and the rules that raised them.\<close>

fun run_alerts :: "(ticks \<times> metrics_snapshot) list \<Rightarrow> alerter \<Rightarrow> alert list" where
  "run_alerts [] a = []"
| "run_alerts ((now, s) # calls) a = (case checkAlerts now s a of (al, a') \<Rightarrow> al @ run_alerts calls a')"

fun fired_rules ::
    "(ticks \<times> metrics_snapshot) list \<Rightarrow> alert_rule list \<Rightarrow> (string \<times> ticks) list \<Rightarrow> (ticks \<times> alert_rule) list" where
  "fired_rules [] rs prev = []"
| "fired_rules ((now, s) # calls) rs prev = (case check_rules now s rs prev of
     (fired, prev') \<Rightarrow> map (Pair now) fired @ fired_rules calls rs prev')"

lemma run_alerts_fired:
  "map (\<lambda>x. (al_timestamp x, al_name x)) (run_alerts calls a) =
    map (\<lambda>(t, r). (t, ar_name r)) (fired_rules calls (at_rules a) (at_lastAlerts a))"
proof (induction calls a rule: run_alerts.induct)
  case (2 now s calls a)
  obtain fired prev where st: "check_rules now s (at_rules a) (at_lastAlerts a) = (fired, prev)" by (rule prod.exhaust)
  then have "checkAlerts now s a = (map (alert_of now s) fired, a\<lparr>at_lastAlerts := prev\<rparr>)"
    by (simp add: checkAlerts_def)
  with 2 st show ?case by (simp add: alert_of_def)
qed simp

definition spaced :: "(ticks \<times> alert_rule) list \<Rightarrow> bool" where
  "spaced = sorted_wrt (\<lambda>e e'. ar_name (snd e) = ar_name (snd e') \<longrightarrow> fst e + ar_cooldown (snd e') \<le> fst e')"

definition remembered :: "(ticks \<times> alert_rule) list \<Rightarrow> (string \<times> ticks) list \<Rightarrow> bool" where
  "remembered l prev \<longleftrightarrow> om_wf prev \<and>
     (\<forall>e\<in>set l. \<exists>t. map_of prev (ar_name (snd e)) = Some t \<and> fst e \<le> t)"

lemma fire_spaced:
  assumes "spaced l" "remembered l prev" "\<not> cooling now prev r" "0 \<le> ar_cooldown r"
  shows "spaced (l @ [(now, r)])" "remembered (l @ [(now, r)]) (om_set (ar_name r) now prev)"
proof -
  have late: "t + ar_cooldown r \<le> now" if "map_of prev (ar_name r) = Some t" for t
    using assms(3) that by (simp add: cooling_def)
  have "fst e + ar_cooldown r \<le> now" if "e \<in> set l" "ar_name (snd e) = ar_name r" for e
    using assms(2) that late by (force simp: remembered_def)
  with assms(1) show "spaced (l @ [(now, r)])" by (auto simp: spaced_def sorted_wrt_append)
  show "remembered (l @ [(now, r)]) (om_set (ar_name r) now prev)"
    using assms(2,4) late by (fastforce simp: remembered_def)
qed

lemma check_rules_spaced:
  assumes "spaced l" "remembered l prev" "\<forall>r\<in>set rs. 0 \<le> ar_cooldown r"
    "check_rules now s rs prev = (fired, prev')"
  shows "spaced (l @ map (Pair now) fired) \<and> remembered (l @ map (Pair now) fired) prev' \<and> set fired \<subseteq> set rs"
  using assms
proof (induction rs arbitrary: l prev fired prev')
  case (Cons r rs)
  show ?case
  proof (cases "cooling now prev r \<or> \<not> ar_condition r s")
    case True
    then have "check_rules now s rs prev = (fired, prev')" using Cons.prems(4) by (auto split: if_splits)
    with Cons.IH [OF Cons.prems(1,2)] Cons.prems(3) show ?thesis by auto
  next
    case False
    then obtain f where f: "check_rules now s rs (om_set (ar_name r) now prev) = (f, prev')" "fired = r # f"
      using Cons.prems(4) by (auto split: prod.splits)
    have "spaced (l @ [(now, r)])" "remembered (l @ [(now, r)]) (om_set (ar_name r) now prev)"
      using fire_spaced [OF Cons.prems(1,2)] False Cons.prems(3) by simp_all
    from Cons.IH [OF this _ f(1)] Cons.prems(3) f(2) show ?thesis by auto
  qed
qed simp

lemma fired_rules_spaced:
  assumes "spaced l" "remembered l prev" "\<forall>r\<in>set rs. 0 \<le> ar_cooldown r"
  shows "spaced (l @ fired_rules calls rs prev) \<and> snd ` set (fired_rules calls rs prev) \<subseteq> set rs"
  using assms(1,2)
proof (induction calls arbitrary: l prev)
  case (Cons c calls)
  obtain now s where c: "c = (now, s)" by (rule prod.exhaust)
  obtain fired prev' where st: "check_rules now s rs prev = (fired, prev')" by (rule prod.exhaust)
  note step = check_rules_spaced [OF Cons.prems assms(3) st]
  with Cons.IH [of "l @ map (Pair now) fired" prev'] show ?case by (auto simp: c st)
qed simp

text \<open>
  C20. Alerts keep their cooldown. In any sequence of checks, at any clock readings, two alerts of
  the same name are at least the cooldown of a rule of that name apart, several rules of one name
  and clocks that run backwards included, when no rule has a negative cooldown.
\<close>

theorem alert_cooldown:
  assumes "\<forall>r\<in>set (at_rules a). 0 \<le> ar_cooldown r" "at_lastAlerts a = []"
    and "i < j" "j < length (run_alerts calls a)"
    and "al_name (run_alerts calls a ! i) = al_name (run_alerts calls a ! j)"
  shows "\<exists>r\<in>set (at_rules a). ar_name r = al_name (run_alerts calls a ! j) \<and>
    al_timestamp (run_alerts calls a ! i) + ar_cooldown r \<le> al_timestamp (run_alerts calls a ! j)"
proof -
  let ?al = "run_alerts calls a" and ?fr = "fired_rules calls (at_rules a) []"
  have eq: "map (\<lambda>x. (al_timestamp x, al_name x)) ?al = map (\<lambda>(t, r). (t, ar_name r)) ?fr"
    using run_alerts_fired [of calls a] assms(2) by simp
  from arg_cong [OF this, of length] have len: "length ?fr = length ?al" by (simp only: length_map)
  have sel: "al_timestamp (?al ! k) = fst (?fr ! k) \<and> al_name (?al ! k) = ar_name (snd (?fr ! k))"
    if "k < length ?al" for k
  proof -
    have "(al_timestamp (?al ! k), al_name (?al ! k)) = (\<lambda>(t, r). (t, ar_name r)) (?fr ! k)"
      using arg_cong [OF eq, of "\<lambda>xs. xs ! k"] that len by (simp only: nth_map)
    then show ?thesis by (simp add: case_prod_beta)
  qed
  have i: "i < length ?al" using assms(3,4) by simp
  have sp: "spaced ?fr" and sub: "snd ` set ?fr \<subseteq> set (at_rules a)"
    using fired_rules_spaced [of "[]" "[]" "at_rules a" calls] assms(1) by (simp_all add: spaced_def remembered_def)
  have gap: "ar_name (snd (?fr ! i)) = ar_name (snd (?fr ! j)) \<longrightarrow>
      fst (?fr ! i) + ar_cooldown (snd (?fr ! j)) \<le> fst (?fr ! j)"
    by (rule sorted_wrt_nth_less [OF sp [unfolded spaced_def] assms(3)]) (simp only: len assms(4))
  have rule: "snd (?fr ! j) \<in> set (at_rules a)"
    using sub nth_mem [of j ?fr] assms(4) by (simp only: len) blast
  show ?thesis
  proof (rule bexI [OF _ rule], rule conjI)
    show "ar_name (snd (?fr ! j)) = al_name (?al ! j)" using sel [OF assms(4)] by (simp only:)
    show "al_timestamp (?al ! i) + ar_cooldown (snd (?fr ! j)) \<le> al_timestamp (?al ! j)"
      using gap assms(5) sel [OF i] sel [OF assms(4)] by (simp only:)
  qed
qed

text \<open>
  With distinct names a check raises exactly the alerts of the rules whose condition holds and
  that are not cooling down.
\<close>

lemma check_rules_exact:
  assumes "distinct (map ar_name rs)" "om_wf prev"
  shows "fst (check_rules now s rs prev) = filter (\<lambda>r. \<not> cooling now prev r \<and> ar_condition r s) rs"
proof -
  have gen: "fst (check_rules now s rs prev) = filter (\<lambda>r. \<not> cooling now p0 r \<and> ar_condition r s) rs"
    if "distinct (map ar_name rs)" "om_wf prev" "\<forall>r\<in>set rs. map_of prev (ar_name r) = map_of p0 (ar_name r)"
    for rs prev p0
    using that
  proof (induction rs arbitrary: prev)
    case (Cons r rs)
    have same: "cooling now prev r = cooling now p0 r" using Cons.prems(3) by (simp add: cooling_def)
    have "\<forall>r'\<in>set rs. map_of (om_set (ar_name r) now prev) (ar_name r') = map_of p0 (ar_name r')"
      using Cons.prems by (auto simp: image_iff)
    then have "fst (check_rules now s rs (om_set (ar_name r) now prev)) =
        filter (\<lambda>r. \<not> cooling now p0 r \<and> ar_condition r s) rs"
      using Cons.prems by (intro Cons.IH) auto
    moreover have "fst (check_rules now s rs prev) = filter (\<lambda>r. \<not> cooling now p0 r \<and> ar_condition r s) rs"
      using Cons.prems by (intro Cons.IH) auto
    ultimately show ?case using same by (simp add: case_prod_beta)
  qed simp
  show ?thesis using gen [OF assms] by simp
qed

lemma default_rules_fine:
  "distinct (map ar_name default_rules)" "\<forall>r\<in>set default_rules. 0 \<le> ar_cooldown r"
  "at_rules (setupDefaultRules new_alerter) = default_rules" "at_lastAlerts (setupDefaultRules new_alerter) = []"
  by (simp_all add: default_rules_def setupDefaultRules_def addRule_def new_alerter_def)

text \<open>A snapshot with a long local queue, checked three times: only the first and the last alert.\<close>

definition long_queue :: metrics_snapshot where
  "long_queue = (new_snapshot 0)\<lparr>ss_publisher := new_publisher_metrics\<lparr>um_localQueueSize := 10001\<rparr>\<rparr>"

lemma long_queue_alerts:
  "map (\<lambda>x. (al_timestamp x, al_name x))
     (run_alerts [(0, long_queue), (599, long_queue), (600, long_queue)] (setupDefaultRules new_alerter)) =
   [(0, ''large_local_queue''), (600, ''large_local_queue'')]"
  unfolding run_alerts_fired default_rules_fine
  by (simp add: default_rules_def cooling_def long_queue_def
      new_snapshot_def new_connection_metrics_def new_publisher_metrics_def new_system_metrics_def)

lemma alert_cooldown_witness:
  "let al = run_alerts [(0, long_queue), (599, long_queue), (600, long_queue)] (setupDefaultRules new_alerter)
   in \<exists>r\<in>set default_rules. ar_name r = al_name (al ! 1) \<and> al_timestamp (al ! 0) + ar_cooldown r \<le> al_timestamp (al ! 1)"
proof -
  let ?al = "run_alerts [(0, long_queue), (599, long_queue), (600, long_queue)] (setupDefaultRules new_alerter)"
  have len: "length ?al = 2" using arg_cong [OF long_queue_alerts, of length] by simp
  then have "al_name (?al ! 0) = al_name (?al ! 1)"
    using arg_cong [OF long_queue_alerts, of "\<lambda>xs. snd (xs ! 0)"] arg_cong [OF long_queue_alerts, of "\<lambda>xs. snd (xs ! 1)"]
    by simp
  with alert_cooldown [of "setupDefaultRules new_alerter" 0 1
      "[(0, long_queue), (599, long_queue), (600, long_queue)]"] len
  show ?thesis by (simp add: default_rules_fine Let_def)
qed

end
