(* ===== verification/Message_Json.thy ===== *)
theory Message_Json
  imports Proto_Message Json_Values Cpp_Strings
begin

text \<open>
  \<open>protocol_parser::Message::toJson\<close> (\<open>message.cpp\<close>): the JSON value of a device message. The fields
  become an object in the order of their names whatever the order of the field map.
\<close>

definition hex_text :: "u8 list \<Rightarrow> string" where
  "hex_text bs = concat (map (\<lambda>b. hex_byte b) bs)"

text \<open>The visitor: what each alternative of a field value becomes.\<close>

fun field_json :: "fvalue \<Rightarrow> json" where
  "field_json VMono = JNull"
| "field_json (VBool b) = JBool b"
| "field_json (VI8 w) = JInt (sint w)"
| "field_json (VU8 w) = JInt (uint w)"
| "field_json (VI16 w) = JInt (sint w)"
| "field_json (VU16 w) = JInt (uint w)"
| "field_json (VI32 w) = JInt (sint w)"
| "field_json (VU32 w) = JInt (uint w)"
| "field_json (VI64 w) = JInt (sint w)"
| "field_json (VU64 w) = JInt (uint w)"
| "field_json (VFloat w) = JReal (float_val w)"
| "field_json (VDouble w) = JReal (double_val w)"
| "field_json (VString s) = JStr s"
| "field_json (VBinary bs) = JStr (hex_text bs)"

fun severity_number :: "error_severity \<Rightarrow> int" where
  "severity_number Sev_WARNING = 0"
| "severity_number Sev_ERROR = 1"
| "severity_number Sev_CRITICAL = 2"

definition error_json :: "validation_error \<Rightarrow> json" where
  "error_json e = json_object
     [(''message'', JStr (ve_message e)), (''field'', JStr (ve_field e)),
      (''severity'', JInt (severity_number (ve_severity e)))]"

definition version_json :: "protocol_version \<Rightarrow> json" where
  "version_json v = json_object [(''major'', JInt (uint (major v))), (''minor'', JInt (uint (minor v)))]"

definition fields_json :: "(string \<times> fvalue) list \<Rightarrow> json" where
  "fields_json fs = json_object (map (\<lambda>(name, v). (name, field_json v)) fs)"

definition toJson :: "message \<Rightarrow> json" where
  "toJson m = json_object
     ([(''imei'', JStr (m_imei m)), (''sequence'', JInt (uint (m_sequence m))),
       (''messageType'', JInt (uint (message_type_byte (m_type m)))),
       (''version'', version_json (m_version m)),
       (''timestamp'', JStr (utc_time ''T'' ''Z'' (m_timestamp m))),
       (''fields'', fields_json (m_fields m))] @
      (if m_errors m = [] then [] else [(''validationErrors'', JArr (map error_json (m_errors m)))]))"

section \<open>What the document holds\<close>

lemma fields_json_eq:
  "fields_json fs = (if fs = [] then JNull
     else JObj (om_merge (map (\<lambda>(name, v). (name, field_json v)) fs) []))"
proof (cases fs)
  case (Cons f r)
  then show ?thesis by (simp add: fields_json_def json_object_eq)
qed (simp add: fields_json_def json_object_def)

text \<open>A field is found under its name, and nothing else is.\<close>

lemma json_field:
  assumes "distinct (map fst fs)"
  shows "json_member name (fields_json fs) =
    Inr (case map_of fs name of None \<Rightarrow> JNull | Some v \<Rightarrow> field_json v)"
proof -
  let ?xs = "map (\<lambda>(name, v). (name, field_json v)) fs"
  have "map_of ?xs name = map_option field_json (map_of fs name)" by (induction fs) auto
  moreover have "map_of (rev ?xs) name = map_of ?xs name"
    by (subst map_of_rev_distinct) (simp_all add: comp_def case_prod_beta assms)
  ultimately show ?thesis
    by (auto simp: fields_json_eq map_of_om_merge split: option.split)
qed

text \<open>
  The document is one the library writes and reads back, unless a field holds an infinity or NaN.
\<close>

definition finite_field :: "fvalue \<Rightarrow> bool" where
  "finite_field v = (case v of
     VFloat w \<Rightarrow> (case float_val w of Fin r \<Rightarrow> True | _ \<Rightarrow> False)
   | VDouble w \<Rightarrow> (case double_val w of Fin r \<Rightarrow> True | _ \<Rightarrow> False)
   | _ \<Rightarrow> True)"

lemma json_plain_ints:
  fixes w :: "'a::len word"
  assumes "LENGTH('a) \<le> 64"
  shows "json_plain (JInt (sint w))" "json_plain (JInt (uint w))"
proof -
  have "(2::int) ^ (LENGTH('a) - 1) \<le> 2 ^ 63" "(2::int) ^ LENGTH('a) \<le> 2 ^ 64"
    using assms by (intro power_increasing; simp)+
  moreover have "- (2 ^ (LENGTH('a) - 1)) \<le> sint w" "sint w < 2 ^ (LENGTH('a) - 1)"
    "0 \<le> uint w" "uint w < 2 ^ LENGTH('a)"
    using sint_ge [of w] sint_lt [of w] by simp_all
  moreover have "(2::int) ^ 63 \<le> 2 ^ 64" "(0::int) \<le> 2 ^ 63" by simp_all
  ultimately have "- (2 ^ 63) \<le> sint w" "sint w < 2 ^ 64" "- (2 ^ 63) \<le> uint w" "uint w < 2 ^ 64"
    by linarith+
  then show "json_plain (JInt (sint w))" "json_plain (JInt (uint w))"
    unfolding json_plain.simps by blast+
qed

lemma field_json_plain: "finite_field v \<Longrightarrow> json_plain (field_json v)"
  by (cases v) (simp_all add: finite_field_def json_plain_ints del: json_plain.simps(2) split: fp.splits)

lemma json_plain_parts:
  "json_plain (error_json e)" "json_plain (version_json v)"
  "list_all (\<lambda>(n, v). finite_field v) fs \<Longrightarrow> json_plain (fields_json fs)"
proof -
  show "json_plain (error_json e)" unfolding error_json_def
    by (rule json_plain_object) (cases "ve_severity e", simp_all)
  show "json_plain (version_json v)" unfolding version_json_def
    by (rule json_plain_object) (simp add: json_plain_ints del: json_plain.simps(2))
  assume "list_all (\<lambda>(n, v). finite_field v) fs"
  then have "list_all (\<lambda>(n, j). json_plain j) (map (\<lambda>(n, v). (n, field_json v)) fs)"
    by (induction fs) (auto simp: field_json_plain)
  then show "json_plain (fields_json fs)" unfolding fields_json_def by (rule json_plain_object)
qed

lemma toJson_plain:
  assumes "list_all (\<lambda>(n, v). finite_field v) (m_fields m)"
  shows "json_plain (toJson m)"
  unfolding toJson_def
  by (rule json_plain_object)
    (simp add: json_plain_parts assms json_plain_ints list.pred_map list.pred_True comp_def del: json_plain.simps(2))

text \<open>
  The text of the document, read back by any library that keeps its promises, has each field of the
  message under its name.
\<close>

lemma toJson_fields_back:
  assumes "json_laws L" "list_all (\<lambda>(n, v). finite_field v) (m_fields m)" "distinct (map fst (m_fields m))"
    and "json_dump L (toJson m) = Inr s"
  shows "and_then (and_then (json_parse L s) (json_member ''fields'')) (json_member name) =
    Inr (case map_of (m_fields m) name of None \<Rightarrow> JNull | Some v \<Rightarrow> field_json v)"
proof -
  have "json_parse L s = Inr (toJson m)"
    using json_dump_parse [OF assms(1) toJson_plain [OF assms(2)] assms(4)] .
  moreover have "json_member ''fields'' (toJson m) = Inr (fields_json (m_fields m))"
    by (simp add: toJson_def json_object_def)
  ultimately show ?thesis by (simp add: json_field [OF assms(3)])
qed

end
