(* ===== verification/Rate_Window.thy ===== *)
theory Rate_Window
  imports Rate_Limiter
begin

text \<open>
  What a token bucket promises: in any window of time a device gets at most a full bucket and what
  the rate yields in the window. The bucket of the code computes with doubles, so each use may be off
  by a rounding error; the bound has a term for it.
\<close>

section \<open>Rounding errors\<close>

lemma rnd64_close:
  assumes "\<bar>x\<bar> \<le> 2 ^ k" "k \<le> 52"
  shows "rnd64 x \<le> x + 1 / 2 ^ (52 - k)"
proof -
  define n where "n = \<lfloor>x * 2 ^ (52 - k)\<rfloor>"
  let ?u = "2 powi - int (52 - k) :: rat"
  have u: "?u = 1 / 2 ^ (52 - k)" by (simp add: power_int_minus power_int_of_nat field_simps)
  have "of_int n \<le> x * 2 ^ (52 - k)" "x * 2 ^ (52 - k) < of_int n + 1"
    unfolding n_def by linarith+
  then have lo: "of_int n * ?u \<le> x" and hi: "x \<le> of_int (n + 1) * ?u"
    unfolding u by (simp_all add: field_simps)
  have b: "x * 2 ^ (52 - k) \<le> 2 ^ k * 2 ^ (52 - k)" "- (2 ^ k) * 2 ^ (52 - k) \<le> x * 2 ^ (52 - k)"
    using assms(1) by (intro mult_right_mono; simp add: abs_le_iff minus_le_iff)+
  have "(2 :: rat) ^ k * 2 ^ (52 - k) = 2 ^ 52" using assms(2) by (simp flip: power_add)
  with b have "x * 2 ^ (52 - k) \<le> of_int (2 ^ 52)" "of_int (- (2 ^ 52)) \<le> x * 2 ^ (52 - k)" by simp_all
  then have "n \<le> 2 ^ 52" "- (2 ^ 52) \<le> n" unfolding n_def by (simp_all only: floor_le_iff le_floor_iff)
  then have "\<bar>n + 1\<bar> \<le> 2 ^ 53 - 1" by (simp add: abs_le_iff)
  then have "rnd64 (of_int (n + 1) * ?u) = of_int (n + 1) * ?u" by (rule dbl.rnd_dyadic) simp
  with dbl.rnd_mono [OF hi] have "rnd64 x \<le> of_int n * ?u + ?u" by (simp add: algebra_simps)
  with lo show ?thesis unfolding u by linarith
qed

section \<open>The credit of a bucket\<close>

text \<open>
  What a bucket can still pay out until the time \<open>T\<close>: its tokens and those the rate yields from the
  last refill on.
\<close>

fun fp_rat :: "fp \<Rightarrow> rat" where
  "fp_rat (Fin x) = x"
| "fp_rat _ = 0"

definition yield :: "rat \<Rightarrow> ticks \<Rightarrow> rat" where
  "yield r d = r * (of_int d / 1000000000)"

definition credit :: "ticks \<Rightarrow> device_bucket \<Rightarrow> rat" where
  "credit T b = fp_rat (availableTokens b) + yield (fp_rat (tokensPerSecond b)) (T - lastUpdated b)"

text \<open>A window of at most a day, a rate of at most 1000 messages per second, a bucket of at most a million.\<close>

definition window :: "ticks \<Rightarrow> ticks \<Rightarrow> rat \<Rightarrow> u64 \<Rightarrow> bool" where
  "window T0 T r n \<longleftrightarrow> T0 \<le> T \<and> T - T0 \<le> 86400000000000 \<and> 0 \<le> r \<and> r \<le> 1000 \<and> n \<le> 1000000"

definition steady :: "ticks \<Rightarrow> ticks \<Rightarrow> rat \<Rightarrow> u64 \<Rightarrow> device_bucket \<Rightarrow> bool" where
  "steady T0 T r n b \<longleftrightarrow> bucket_wf b \<and> tokensPerSecond b = Fin r \<and> bucketSize b = n \<and>
     T0 \<le> lastUpdated b \<and> lastUpdated b \<le> T"

lemma size_bound: "n \<le> 1000000 \<Longrightarrow> rnd64 (u64_rat n) \<le> 1000000"
proof -
  assume "n \<le> 1000000"
  then have "uint n \<le> 1000000" by (simp add: word_le_def)
  then have "u64_rat n \<le> of_int 1000000" unfolding u64_rat_def by (simp only: of_int_le_iff)
  then have "rnd64 (u64_rat n) \<le> of_int 1000000" by (rule dbl.rnd_le_int) simp
  then show ?thesis by simp
qed

lemma steady_tokens:
  assumes "window T0 T r n" "steady T0 T r n b"
  obtains a where "availableTokens b = Fin a" "- 33/8 \<le> a" "a \<le> 1000000"
  using assms size_bound [of n] by (auto simp: steady_def window_def bucket_wf_iff)

lemma yield_add: "yield r (a + b) = yield r a + yield r b"
  by (simp add: yield_def algebra_simps add_divide_distrib)

lemma yield_bounds:
  assumes "0 \<le> r" "r \<le> 1000" "0 \<le> d" "d \<le> 86400000000000"
  shows "0 \<le> yield r d" "yield r d \<le> 86400000"
proof -
  have d: "0 \<le> (of_int d / 1000000000 :: rat)" "of_int d / 1000000000 \<le> (86400 :: rat)"
    using assms(3,4) of_int_le_iff [of d 86400000000000, where ?'a = rat] by (simp_all add: field_simps)
  with assms(1,2) show "0 \<le> yield r d" "yield r d \<le> 86400000"
    using mult_mono [of r 1000 "of_int d / 1000000000" 86400] by (simp_all add: yield_def)
qed

text \<open>The tokens a refill computes for an elapsed time.\<close>

lemma new_tokens:
  assumes "0 \<le> r" "r \<le> 1000" "0 \<le> d" "d \<le> 86400000000000"
  shows "\<exists>x. dbl_mul (elapsed_seconds s (s + d)) (Fin r) = Fin x \<and> 0 \<le> x \<and> x \<le> yield r d + 1 / 2 ^ 24"
proof -
  let ?e = "of_int d / 1000000000 :: rat"
  have e: "0 \<le> ?e" "?e \<le> 86400"
    using assms(3,4) of_int_le_iff [of d 86400000000000, where ?'a = rat] by (simp_all add: field_simps)
  have "rnd64 (of_int d) = of_int d" using assms(3,4) by (intro dbl.rnd_int) simp
  moreover have "f64 (of_int d) = Fin (rnd64 (of_int d))"
    using assms(3,4) of_int_le_iff [of d "2 ^ 65", where ?'a = rat] by (intro f64_bounded) simp_all
  ultimately have el: "elapsed_seconds s (s + d) = Fin (rnd64 ?e)"
    using e by (simp add: elapsed_seconds_def f64_bounded)
  have r1: "0 \<le> rnd64 ?e" "rnd64 ?e \<le> ?e + 1 / 2 ^ 35"
    using dbl.rnd_nonneg [OF e(1)] rnd64_close [of ?e 17] e by simp_all
  let ?p = "rnd64 ?e * r"
  have "?p \<le> (?e + 1 / 2 ^ 35) * r" using r1 assms(1) by (intro mult_right_mono)
  also have "\<dots> = yield r d + r / 2 ^ 35" by (simp add: yield_def field_simps)
  also have "\<dots> \<le> yield r d + 1 / 2 ^ 25" using assms(2) by simp
  finally have p: "?p \<le> yield r d + 1 / 2 ^ 25" .
  have p0: "0 \<le> ?p" using r1 assms(1) by simp
  have big: "?p \<le> 2 ^ 27" using p yield_bounds(2) [OF assms] by simp
  have "f64 ?p = Fin (rnd64 ?p)" using p0 big by (intro f64_bounded) simp_all
  moreover have "rnd64 ?p \<le> ?p + 1 / 2 ^ 25" using rnd64_close [of ?p 27] p0 big by simp
  moreover have "0 \<le> rnd64 ?p" by (rule dbl.rnd_nonneg [OF p0])
  ultimately show ?thesis using el p by simp
qed

lemma elapsed_not_positive:
  assumes "d \<le> 0" "0 \<le> r"
  shows "\<not> fp_lt (Fin 0) (dbl_mul (elapsed_seconds s (s + d)) (Fin r))"
proof -
  have neg: "\<exists>y. f64 x = Fin y \<and> y \<le> 0 \<or> f64 x = Inf True" if "x \<le> 0" for x
    using dbl.rnd_nonpos [OF that] that dbl.rnd_0 by (cases "x = 0") (auto simp: f64_eq)
  from neg [of "of_int d"] assms(1) consider y where "f64 (of_int d) = Fin y" "y \<le> 0"
    | "f64 (of_int d) = Inf True" by auto
  then show ?thesis
  proof cases
    case 1
    from neg [of "y / 1000000000"] 1(2) consider z where "f64 (y / 1000000000) = Fin z" "z \<le> 0"
      | "f64 (y / 1000000000) = Inf True" by auto
    then show ?thesis
    proof cases
      case (1 z)
      with assms(2) have "z * r \<le> 0" by (simp add: mult_nonpos_nonneg)
      from neg [OF this] \<open>f64 (of_int d) = Fin y\<close> 1 show ?thesis by (auto simp: elapsed_seconds_def)
    qed (use 1 assms(2) in \<open>simp add: elapsed_seconds_def\<close>)
  qed (use assms(2) in \<open>simp add: elapsed_seconds_def\<close>)
qed

lemma refill_credit:
  assumes win: "window T0 T r n" and st: "steady T0 T r n b" and t: "t \<le> T"
  shows "steady T0 T r n (refill t b) \<and> credit T (refill t b) \<le> credit T b + 3 / 2 ^ 25"
proof -
  obtain a where a: "availableTokens b = Fin a" "- 33/8 \<le> a" "a \<le> 1000000"
    using steady_tokens [OF win st] .
  from st have b: "tokensPerSecond b = Fin r" "bucketSize b = n" "T0 \<le> lastUpdated b" "lastUpdated b \<le> T"
    by (simp_all add: steady_def)
  from win have w: "0 \<le> r" "r \<le> 1000" "T - T0 \<le> 86400000000000" by (simp_all add: window_def)
  have wf: "bucket_wf (refill t b)" using st by (intro refill_wf) (simp add: steady_def)
  show ?thesis
  proof (cases "fp_lt (Fin 0) (dbl_mul (elapsed_seconds (lastUpdated b) t) (tokensPerSecond b))")
    case False
    then have "refill t b = b" by (simp add: refill_def Let_def)
    with st show ?thesis by simp
  next
    case True
    define d where "d = t - lastUpdated b"
    have "0 \<le> d"
      using True elapsed_not_positive [of d r "lastUpdated b"] w(1) b(1) by (force simp: d_def)
    then have d: "t = lastUpdated b + d" "0 \<le> d" "d \<le> 86400000000000"
      using w b t by (simp_all add: d_def)
    obtain x where x: "dbl_mul (elapsed_seconds (lastUpdated b) t) (Fin r) = Fin x"
        "0 \<le> x" "x \<le> yield r d + 1 / 2 ^ 24"
      using new_tokens [OF w(1,2) d(2,3), of "lastUpdated b"] d(1) by auto
    have s: "\<bar>a + x\<bar> \<le> 2 ^ 27" using a x yield_bounds(2) [OF w(1,2) d(2,3)] by (simp add: abs_le_iff)
    then have "f64 (a + x) = Fin (rnd64 (a + x))" by (intro f64_bounded) (simp_all add: abs_le_iff)
    with True a(1) b(1) x(1) have rf: "refill t b = b\<lparr>availableTokens :=
        dbl_min (u64_double n) (Fin (rnd64 (a + x))), lastUpdated := t\<rparr>"
      by (simp add: refill_def Let_def b(2))
    have "fp_rat (dbl_min (u64_double n) (Fin (rnd64 (a + x)))) \<le> rnd64 (a + x)"
      by (auto simp: dbl_min_def u64_double_eq)
    also have "\<dots> \<le> a + x + 1 / 2 ^ 25" using rnd64_close [OF s] by simp
    also have "\<dots> \<le> a + yield r d + 3 / 2 ^ 25" using x(3) by simp
    finally have "credit T (refill t b) \<le> a + (yield r d + yield r (T - t)) + 3 / 2 ^ 25"
      by (simp add: credit_def rf b(1))
    also have "yield r d + yield r (T - t) = yield r (T - lastUpdated b)"
      unfolding yield_add [symmetric] by (simp add: d_def)
    finally have "credit T (refill t b) \<le> credit T b + 3 / 2 ^ 25" by (simp add: credit_def a(1) b(1))
    moreover have "tokensPerSecond (refill t b) = Fin r" "bucketSize (refill t b) = n"
      "lastUpdated (refill t b) = t" by (simp_all add: rf b)
    moreover have "T0 \<le> t" using b(3) d(1,2) by simp
    ultimately have "credit T (refill t b) \<le> credit T b + 3 / 2 ^ 25" "steady T0 T r n (refill t b)"
      using wf t by (simp_all add: steady_def)
    then show ?thesis by simp
  qed
qed

lemma needed_normal:
  assumes "m \<in> {10, 5, 1, 1/2}"
  obtains x where "dbl_div (Fin 1) m = Fin x" "0 < x" "x \<le> 2" "m \<le> 1 \<longrightarrow> 1 \<le> x"
proof -
  obtain x where x: "dbl_div (Fin 1) m = Fin x" "0 < x" "x \<le> 2" using needed_bounds [OF assms] by blast
  moreover have "1 \<le> x" if "m \<le> 1"
  proof -
    have "rnd64 (of_int 1) = of_int 1" "rnd64 (of_int 2) = of_int 2" by (rule dbl.rnd_int, simp)+
    then have "f64 1 = Fin 1" "f64 2 = Fin 2" using f64_bounded [of 1] f64_bounded [of 2] by simp_all
    moreover have "m = 1 \<or> m = 1/2" using assms that by auto
    ultimately show ?thesis using x(1) by (elim disjE; hypsubst) simp_all
  qed
  ultimately show thesis using that by blast
qed

text \<open>One message: the credit pays for it, up to a rounding error.\<close>

lemma consume_credit:
  assumes win: "window T0 T r n" and st: "steady T0 T r n b" and t: "t \<le> T"
    and m: "m \<in> {10, 5, 1, 1/2}" and run: "consumeToken t m b = (ok, b')"
  shows "steady T0 T r n b' \<and>
    credit T b' + (if ok \<and> m \<le> 1 then 1 else 0) \<le> credit T b + 1 / 2 ^ 23 \<and>
    (ok \<and> m \<le> 1 \<longrightarrow> 0 \<le> credit T b')"
proof -
  define c where "c = refill t b"
  have c: "steady T0 T r n c" "credit T c \<le> credit T b + 3 / 2 ^ 25"
    using refill_credit [OF win st t] by (simp_all add: c_def)
  obtain a where a: "availableTokens c = Fin a" "- 33/8 \<le> a" "a \<le> 1000000"
    using steady_tokens [OF win c(1)] .
  obtain x where x: "dbl_div (Fin 1) m = Fin x" "0 < x" "x \<le> 2" "m \<le> 1 \<longrightarrow> 1 \<le> x"
    using needed_normal [OF m] .
  have wf: "bucket_wf b'" using consumeToken_wf [OF _ m, of b t] st run by (simp add: steady_def)
  have y: "0 \<le> yield r (T - lastUpdated c)"
    using c(1) win by (intro yield_bounds(1)) (auto simp: steady_def window_def)
  show ?thesis
  proof (cases ok)
    case False
    with run have "b' = c\<lparr>totalMessages := totalMessages c + 1, limitedMessages := limitedMessages c + 1\<rparr>"
      by (auto simp: consumeToken_def Let_def c_def split: if_splits)
    with c wf False show ?thesis by (simp add: steady_def credit_def)
  next
    case True
    have s: "\<bar>a - x\<bar> \<le> 2 ^ 27" using a x by (simp add: abs_le_iff)
    have "f64 (a - x) = Fin (rnd64 (a - x))" using s by (intro f64_bounded) (simp_all add: abs_le_iff)
    with True run a x have b': "b' = c\<lparr>availableTokens := Fin (rnd64 (a - x)),
        totalMessages := totalMessages c + 1\<rparr>"
      by (auto simp: consumeToken_def Let_def c_def [symmetric] dbl_sub_def split: if_splits)
    have "rnd64 (a - x) \<le> a - x + 1 / 2 ^ 25" using rnd64_close [OF s] by simp
    then have "credit T b' + x \<le> credit T c + 1 / 2 ^ 25" by (simp add: credit_def b' a(1))
    with c(2) have pay: "credit T b' + x \<le> credit T b + 1 / 2 ^ 23" by simp
    have pos: "0 \<le> credit T b'" if "m \<le> 1"
    proof -
      from True that run a x have "x \<le> a"
        by (auto simp: consumeToken_def Let_def c_def [symmetric] split: if_splits)
      then have "0 \<le> rnd64 (a - x)" by (intro dbl.rnd_nonneg) simp
      with y c(1) show ?thesis by (simp add: credit_def b' steady_def)
    qed
    have "steady T0 T r n b'" using c(1) wf by (simp add: b' steady_def)
    with pay pos True x(2,4) show ?thesis by auto
  qed
qed

section \<open>The limiter within a window\<close>

text \<open>
  The account of a device: what its bucket, or the bucket it would get, can still pay out is at
  most \<open>x\<close>.
\<close>

definition account :: "ticks \<Rightarrow> ticks \<Rightarrow> rat \<Rightarrow> rate_config \<Rightarrow> string \<Rightarrow> rat \<Rightarrow> rate_limiter \<Rightarrow> bool" where
  "account T0 T r c d x rl \<longleftrightarrow> rl_config rl = c \<and>
     (case map_of (deviceBuckets rl) d of
        None \<Rightarrow> rnd64 (u64_rat (defaultBurstSize c)) + yield r (T - T0) \<le> x
      | Some b \<Rightarrow> steady T0 T r (defaultBurstSize c) b \<and> credit T b \<le> x)"

lemma account_bucket:
  assumes "window T0 T r (defaultBurstSize c)" "defaultMessagesPerSecond c = Fin r"
    "account T0 T r c d x rl" "T0 \<le> t" "t \<le> T"
  shows "steady T0 T r (defaultBurstSize c) (bucket_for t d rl)" "credit T (bucket_for t d rl) \<le> x"
proof -
  let ?n = "defaultBurstSize c"
  have "yield r (T - t) \<le> yield r (T - T0)"
    using yield_add [of r "T - t" "t - T0"] yield_bounds(1) [of r "t - T0"] assms(1,4,5)
    by (simp add: window_def)
  then have "credit T (new_bucket t (Fin r) ?n) \<le> rnd64 (u64_rat ?n) + yield r (T - T0)"
    by (simp add: credit_def new_bucket_def u64_double_eq)
  moreover have "steady T0 T r ?n (new_bucket t (Fin r) ?n)"
    using assms(4,5) new_bucket_wf [of t "Fin r" ?n] by (simp add: steady_def) (simp add: new_bucket_def)
  ultimately show "steady T0 T r ?n (bucket_for t d rl)" "credit T (bucket_for t d rl) \<le> x"
    using assms(2,3) by (auto simp: account_def bucket_for_def split: option.splits)
qed

lemma account_check:
  assumes "window T0 T r (defaultBurstSize c)" "defaultMessagesPerSecond c = Fin r"
    "account T0 T r c d x rl" "T0 \<le> t0" "t0 \<le> T" "t \<le> T"
    and run: "checkLimit t0 t d p rl = (ok, rl')"
  shows "account T0 T r c d (x + 1 / 2 ^ 23 - (if ok \<and> p \<le> NORMAL then 1 else 0)) rl' \<and>
    (ok \<and> p \<le> NORMAL \<longrightarrow> 1 \<le> x + 1 / 2 ^ 23)"
proof -
  let ?m = "getPriorityMultiplier rl p" and ?b = "bucket_for t0 d rl"
  obtain b' where c: "consumeToken t ?m ?b = (ok, b')"
      and rl': "rl' = rl\<lparr>deviceBuckets := al_set d b' (deviceBuckets rl)\<rparr>"
    using run by (auto simp: checkLimit_eq split: prod.splits)
  have m: "?m \<le> 1" if "p \<le> NORMAL"
    using that by (cases p) (simp_all add: getPriorityMultiplier_def less_eq_priority_def)
  note b = account_bucket [OF assms(1-5)]
  from consume_credit [OF assms(1) b(1) assms(6) multiplier_cases c] b(2) m assms(3) show ?thesis
    by (auto simp: account_def rl' split: if_splits)
qed

lemma account_other:
  assumes "checkLimit t0 t e p rl = (ok, rl')" "e \<noteq> d"
  shows "account T0 T r c d x rl' \<longleftrightarrow> account T0 T r c d x rl"
  using assms by (auto simp: account_def checkLimit_eq split: prod.splits)

lemma account_mono: "account T0 T r c d x rl \<Longrightarrow> x \<le> y \<Longrightarrow> account T0 T r c d y rl"
  by (auto simp: account_def split: option.splits)

section \<open>The bound\<close>

text \<open>
  Operations a run may contain: the clock stays in the window when the device is concerned, its
  limit is not changed and its bucket not reset. About other devices everything is allowed.
\<close>

fun in_window :: "ticks \<Rightarrow> ticks \<Rightarrow> string \<Rightarrow> limiter_op \<Rightarrow> bool" where
  "in_window T0 T d (Check e p t0 t) = (e \<noteq> d \<or> T0 \<le> t0 \<and> t0 \<le> T \<and> t \<le> T)"
| "in_window T0 T d (Try_Acquire e i t0 t) = (e \<noteq> d \<or> T0 \<le> t0 \<and> t0 \<le> T \<and> t \<le> T)"
| "in_window T0 T d (Device_Limit e r n t) = (e \<noteq> d)"
| "in_window T0 T d (Default_Limit r n) = False"
| "in_window T0 T d (Reset e t) = (e \<noteq> d)"
| "in_window T0 T d (Device_Stats e t) = (e \<noteq> d \<or> t \<le> T)"
| "in_window T0 T d op = True"

text \<open>Accepted messages of the device whose priority has no discount.\<close>

fun undiscounted :: "string \<Rightarrow> limiter_op \<Rightarrow> bool" where
  "undiscounted d (Check e p t0 t) = (e = d \<and> p \<le> NORMAL)"
| "undiscounted d (Try_Acquire e i t0 t) = (e = d \<and> i \<notin> {1, 2})"
| "undiscounted d op = False"

definition granted :: "string \<Rightarrow> limiter_op \<times> limiter_answer \<Rightarrow> bool" where
  "granted d e \<longleftrightarrow> undiscounted d (fst e) \<and> snd e = Allowed True"

lemma account_same:
  "map_of (deviceBuckets rl') d = map_of (deviceBuckets rl) d \<Longrightarrow> rl_config rl' = rl_config rl \<Longrightarrow>
    account T0 T r c d x rl' \<longleftrightarrow> account T0 T r c d x rl"
  by (simp add: account_def)

lemma stats_state:
  "snd (getDeviceStatistics t e rl) = (case map_of (deviceBuckets rl) e of
     None \<Rightarrow> rl | Some b \<Rightarrow> rl\<lparr>deviceBuckets := al_set e (refill t b) (deviceBuckets rl)\<rparr>)"
  by (simp add: getDeviceStatistics_def Let_def split: option.split)

lemma account_stats:
  assumes "window T0 T r (defaultBurstSize c)" "account T0 T r c d x rl" "e \<noteq> d \<or> t \<le> T"
  shows "account T0 T r c d (x + 1 / 2 ^ 23) (snd (getDeviceStatistics t e rl))"
proof (cases "map_of (deviceBuckets rl) e")
  case None
  then show ?thesis using account_mono [OF assms(2), of "x + 1 / 2 ^ 23"] by (simp add: stats_state)
next
  case (Some b)
  let ?rl = "rl\<lparr>deviceBuckets := al_set e (refill t b) (deviceBuckets rl)\<rparr>"
  have "account T0 T r c d (x + 1 / 2 ^ 23) ?rl"
  proof (cases "e = d")
    case True
    with assms(2) Some have b: "rl_config rl = c" "steady T0 T r (defaultBurstSize c) b" "credit T b \<le> x"
      by (simp_all add: account_def)
    have "t \<le> T" using assms(3) True by simp
    from refill_credit [OF assms(1) b(2) this] b(3)
    have "steady T0 T r (defaultBurstSize c) (refill t b)" "credit T (refill t b) \<le> x + 1 / 2 ^ 23"
      by simp_all
    with True b(1) show ?thesis by (simp add: account_def)
  next
    case False
    then have "account T0 T r c d (x + 1 / 2 ^ 23) ?rl \<longleftrightarrow> account T0 T r c d (x + 1 / 2 ^ 23) rl"
      by (intro account_same) simp_all
    then show ?thesis using account_mono [OF assms(2), of "x + 1 / 2 ^ 23"] by simp
  qed
  with Some show ?thesis by (simp add: stats_state)
qed

lemma account_step:
  assumes "window T0 T r (defaultBurstSize c)" "defaultMessagesPerSecond c = Fin r"
    "account T0 T r c d x rl" "in_window T0 T d op" "limiter_step op rl = (a, rl')"
  shows "account T0 T r c d (x + 1 / 2 ^ 23 - (if granted d (op, a) then 1 else 0)) rl' \<and>
    (granted d (op, a) \<longrightarrow> 1 \<le> x + 1 / 2 ^ 23)"
proof -
  have up: "account T0 T r c d (x + 1 / 2 ^ 23) rl" using account_mono [OF assms(3)] by simp
  note check = account_check [OF assms(1-3)]
  have other: "account T0 T r c d (x + 1 / 2 ^ 23) (snd (checkLimit t0 t e p rl))" if "e \<noteq> d" for t0 t e p
    using account_other [of t0 t e p rl _ _ d T0 T r c "x + 1 / 2 ^ 23"] that up
    by (cases "checkLimit t0 t e p rl") auto
  show ?thesis
  proof (cases op)
    case (Check e p t0 t)
    with assms(4,5) check [of t0 t p] other [of e t0 t p] show ?thesis
      by (cases "e = d"; cases "checkLimit t0 t e p rl") (auto simp: granted_def split: if_splits)
  next
    case (Try_Acquire e i t0 t)
    let ?p = "if i = 0 then NORMAL else if i = 1 then HIGH else if i = 2 then CRITICAL else NORMAL"
    have "?p \<le> NORMAL \<longleftrightarrow> i \<notin> {1, 2}" by (simp add: less_eq_priority_def)
    with Try_Acquire assms(4,5) check [of t0 t ?p] other [of e t0 t ?p] show ?thesis
      by (cases "e = d"; cases "checkLimit t0 t e ?p rl") (auto simp: granted_def tryAcquire_def split: if_splits)
  next
    case (Device_Stats e t)
    with assms(4,5) account_stats [OF assms(1,3), of e t] show ?thesis
      by (cases "getDeviceStatistics t e rl") (auto simp: granted_def)
  qed (use assms(4,5) up in \<open>auto simp: granted_def limiter_ops account_def Let_def split: option.splits\<close>)
qed

lemma account_run:
  assumes "window T0 T r (defaultBurstSize c)" "defaultMessagesPerSecond c = Fin r"
    "account T0 T r c d x rl" "list_all (in_window T0 T d) ops"
  shows "filter (granted d) (run_log limiter_step ops rl) = [] \<or>
    of_nat (length (filter (granted d) (run_log limiter_step ops rl))) \<le> x + of_nat (length ops) / 2 ^ 23"
  using assms(3,4)
proof (induction ops arbitrary: x rl)
  case (Cons op ops)
  obtain a rl' where step: "limiter_step op rl = (a, rl')" by fastforce
  from Cons.prems have w: "in_window T0 T d op" "list_all (in_window T0 T d) ops" by simp_all
  note s = account_step [OF assms(1,2) Cons.prems(1) w(1) step]
  let ?x = "x + 1 / 2 ^ 23 - (if granted d (op, a) then 1 else 0)"
  let ?G = "filter (granted d) (run_log limiter_step ops rl')"
  from s have "account T0 T r c d ?x rl'" by blast
  from Cons.IH [OF this w(2)] have ih: "?G = [] \<or> of_nat (length ?G) \<le> ?x + of_nat (length ops) / 2 ^ 23" .
  have len: "of_nat (length (op # ops)) / 2 ^ 23 = 1 / 2 ^ 23 + of_nat (length ops) / (2 ^ 23 :: rat)"
    by (simp add: add_divide_distrib)
  show ?case
  proof (cases "granted d (op, a)")
    case True
    with ih s len step show ?thesis
      by (cases "?G = []") (auto simp: field_simps)
  next
    case False
    with ih len step show ?thesis by (auto simp: field_simps)
  qed
qed simp

text \<open>
  C6. The contract of a token bucket, with the errors of floating-point arithmetic. In any window
  of time up to a day, for a rate of at most 1000 per second and a bucket of at most a million, the
  requests of a device at normal or low priority that are accepted are at most as many as its bucket
  holds, plus what its rate yields in the window, plus one for every eight million operations. Requests
  at the other priorities, which have a discount, are not counted, but may be made, and so may any
  operation on the other devices; the limit of the device is not set or reset in the run and the default
  limit is not changed. The clock may jump inside the window.
\<close>

theorem rate_bound:
  assumes "window T0 T r (defaultBurstSize c)" "defaultMessagesPerSecond c = Fin r"
    "list_all (in_window T0 T d) ops"
  shows "of_nat (length (filter (granted d) (run_log limiter_step ops (new_rate_limiter c)))) \<le>
    rnd64 (u64_rat (defaultBurstSize c)) + yield r (T - T0) + of_nat (length ops) / 2 ^ 23"
proof -
  let ?x = "rnd64 (u64_rat (defaultBurstSize c)) + yield r (T - T0)"
  have "account T0 T r c d ?x (new_rate_limiter c)" by (simp add: account_def new_rate_limiter_def)
  from account_run [OF assms(1,2) this assms(3)] show ?thesis
    using u64_bounds(1) [of "defaultBurstSize c"] yield_bounds(1) [of r "T - T0"] assms(1)
    by (auto simp: window_def)
qed

theorem rate_bound_witness:
  "length (filter (granted ''1'') (run_log limiter_step
     (replicate 30 (Check ''1'' NORMAL 0 0) @ replicate 30 (Check ''1'' LOW 0 2000000000))
     createDefaultRateLimiter)) \<le> 40"
proof -
  let ?ops = "replicate 30 (Check ''1'' NORMAL 0 0) @ replicate 30 (Check ''1'' LOW 0 2000000000)"
  let ?k = "length (filter (granted ''1'') (run_log limiter_step ?ops createDefaultRateLimiter))"
  have "rnd64 (of_int 20) = of_int 20" by (rule dbl.rnd_int) simp
  then have "rnd64 (u64_rat 20) = 20" by (simp add: u64_rat_def)
  moreover have "of_nat ?k \<le> rnd64 (u64_rat (defaultBurstSize default_rate_config)) +
      yield 10 (2000000000 - 0) + of_nat (length ?ops) / 2 ^ 23"
    unfolding createDefaultRateLimiter_def
    by (rule rate_bound) (simp_all add: window_def default_rate_config_def list_all_iff)
  ultimately have "of_nat ?k \<le> (40 :: rat) + 60 / 2 ^ 23"
    by (simp add: default_rate_config_def yield_def)
  then have "of_nat ?k < (of_nat 41 :: rat)" by simp
  then show ?thesis by (simp only: of_nat_less_iff)
qed

end
