(* ===== verification/Gateway_Limits.thy ===== *)
theory Gateway_Limits
  imports Gateway Rate_Window
begin

text \<open>
  Session, gateway and rate limiter together: what the limiter promises about its answers holds for
  the messages the gateway accepts. Between the check of the limit and the acceptance of a message
  other components may still throw; such a message has used its token and is not accepted.
\<close>

section \<open>Who touches the limiter\<close>

lemma modify_keeps_limiter [keeps]: "io_keeps (same w_limiter) (modify_gateway f)"
  by (simp add: io_keeps_def modify_gateway_def same_def)

lemma record_keeps_limiter:
  "rateLimiter d = Some token_bucket_if \<Longrightarrow>
    io_keeps (same w_limiter) (on_limiter d (\<lambda>l. if_recordMessage l dev p n))"
  by (auto simp: io_keeps_def same_def on_limiter_def io_call_def token_bucket_if_def rl_recordMessage_def
      split: prod.splits)

lemma record_accepted_keeps_limiter:
  "rateLimiter d = Some token_bucket_if \<Longrightarrow> io_keeps (same w_limiter) (record_accepted d n m)"
  unfolding record_accepted_def by (intro keeps record_keeps_limiter)

lemma handlers_keep_limiter [keeps]:
  "io_keeps (same w_limiter) (handleMessage d m)" "io_keeps (same w_limiter) (handleError d dev c e)"
  "io_keeps (same w_limiter) (getPendingCommands d dev)"
  unfolding handleMessage_def handleError_def getPendingCommands_def publish_to_def
    count_published_def count_error_def update_gateway_metrics_def
  by (intro keeps)+

lemma handling_keeps_limiter:
  "io_keeps (same w_limiter) (handle_accepted d (gateway_handler d) cfg sender m)"
  "io_keeps (same w_limiter) (handle_rejected d (gateway_handler d) data c e)"
  unfolding handle_accepted_def handle_rejected_def updateMetrics_def sendAcknowledgment_def
    sendCommands_def Let_def gateway_handler_def session_handler.select_convs
  by (intro keeps)+

section \<open>What an accepted message costs\<close>

text \<open>The account of the device in the limiter of a world whose clock stays in the window.\<close>

definition funds where
  "funds T0 T r c dev x w \<longleftrightarrow>
     (\<forall>i. T0 \<le> snd (w_limiter w) i \<and> snd (w_limiter w) i \<le> T) \<and>
     account T0 T r c dev x (fst (w_limiter w))"

definition undiscounted_from :: "string \<Rightarrow> device_message \<Rightarrow> bool" where
  "undiscounted_from dev m \<longleftrightarrow> dm_device m = dev \<and> dm_priority m \<le> NORMAL"

fun cost :: "string \<Rightarrow> exc + device_message result \<Rightarrow> rat" where
  "cost dev (Inr (Ok_Result m)) = (if undiscounted_from dev m then 1 else 0)"
| "cost dev _ = 0"

definition pays where
  "pays T0 T r c dev f \<longleftrightarrow>
     (\<forall>x w a w'. funds T0 T r c dev x w \<longrightarrow> f w = (a, w') \<longrightarrow>
        funds T0 T r c dev (x + 1 / 2 ^ 23 - cost dev a) w' \<and> (cost dev a = 1 \<longrightarrow> 1 \<le> x + 1 / 2 ^ 23))"

lemma funds_same: "funds T0 T r c dev x w \<Longrightarrow> w_limiter w' = w_limiter w \<Longrightarrow> funds T0 T r c dev x w'"
  by (simp add: funds_def)

lemma funds_mono: "funds T0 T r c dev x w \<Longrightarrow> x \<le> y \<Longrightarrow> funds T0 T r c dev y w"
  by (auto simp: funds_def intro: account_mono)

lemma pays_return: "cost dev (Inr e) = 0 \<Longrightarrow> pays T0 T r c dev (io_return e)"
  unfolding pays_def io_simps
proof (intro allI impI)
  fix x w a w'
  assume "cost dev (Inr e) = 0" and f: "funds T0 T r c dev x w" and "(Inr e, w) = (a :: exc + device_message result, w')"
  then show "funds T0 T r c dev (x + 1 / 2 ^ 23 - cost dev a) w' \<and> (cost dev a = 1 \<longrightarrow> 1 \<le> x + 1 / 2 ^ 23)"
    using funds_mono [OF f, of "x + 1 / 2 ^ 23"] by auto
qed

lemma pays_bind:
  assumes "io_keeps (same w_limiter) p" "\<And>y. pays T0 T r c dev (f y)"
  shows "pays T0 T r c dev (io_bind p f)"
  unfolding pays_def
proof (intro allI impI)
  fix x w a w'
  assume f: "funds T0 T r c dev x w" and run: "io_bind p f w = (a, w')"
  obtain b u where p: "p w = (b, u)" by fastforce
  have u: "funds T0 T r c dev x u"
    using io_keepsD [OF assms(1) p] unfolding same_def by (rule funds_same [OF f])
  show "funds T0 T r c dev (x + 1 / 2 ^ 23 - cost dev a) w' \<and> (cost dev a = 1 \<longrightarrow> 1 \<le> x + 1 / 2 ^ 23)"
  proof (cases b)
    case (Inl e)
    with run p have "a = Inl e" "w' = u" by simp_all
    with funds_mono [OF u, of "x + 1 / 2 ^ 23"] show ?thesis by simp
  next
    case (Inr y)
    with run p have "f y u = (a, w')" by simp
    with assms(2) u show ?thesis unfolding pays_def by blast
  qed
qed

lemma pays_if: "pays T0 T r c dev f \<Longrightarrow> pays T0 T r c dev g \<Longrightarrow> pays T0 T r c dev (if b then f else g)"
  by simp

lemma record_accepted_cost:
  assumes "record_accepted d n m w = (a, w')"
  shows "cost dev a \<le> (if undiscounted_from dev m then 1 else 0)" "0 \<le> cost dev a"
proof -
  have "a = Inr (Ok_Result m) \<or> (\<exists>e. a = Inl e)"
    using assms by (auto simp: record_accepted_def io_then_def io_bind_def split: prod.splits sum.splits)
  then show "cost dev a \<le> (if undiscounted_from dev m then 1 else 0)" "0 \<le> cost dev a" by auto
qed

lemma limiter_call:
  assumes "rateLimiter d = Some token_bucket_if" "funds T0 T r c dev x w"
    and "window T0 T r (defaultBurstSize c)" "defaultMessagesPerSecond c = Fin r"
    and run: "on_limiter d (\<lambda>l. if_checkLimit l e p) w = (a, w')"
  obtains ok where "a = Inr ok"
    "funds T0 T r c dev (x + 1 / 2 ^ 23 - (if ok \<and> e = dev \<and> p \<le> NORMAL then 1 else 0)) w'"
    "ok \<and> e = dev \<and> p \<le> NORMAL \<longrightarrow> 1 \<le> x + 1 / 2 ^ 23"
proof -
  obtain rl clock where l: "w_limiter w = (rl, clock)" by fastforce
  define k where "k = (if map_of (deviceBuckets rl) e = None then 1 else 0 :: nat)"
  obtain ok rl' where ch: "checkLimit (clock 0) (clock k) e p rl = (ok, rl')" by fastforce
  from run l ch assms(1) have a: "a = Inr ok" and w': "w_limiter w' = (rl', \<lambda>i. clock (i + k + 1))"
    by (auto simp: on_limiter_def io_call_def token_bucket_if_def Let_def k_def)
  from assms(2) l have clk: "T0 \<le> clock i" "clock i \<le> T" for i by (auto simp: funds_def)
  from assms(2) l have acc: "account T0 T r c dev x rl" by (simp add: funds_def)
  show thesis
  proof (cases "e = dev")
    case True
    from account_check [OF assms(3,4) acc clk clk(2), of 0 k p] ch True
    show thesis by (intro that [OF a]) (auto simp: funds_def w' clk)
  next
    case False
    from account_other [OF ch False] acc have "account T0 T r c dev x rl'" by blast
    then have "account T0 T r c dev (x + 1 / 2 ^ 23) rl'" by (rule account_mono) simp
    with False show thesis by (intro that [OF a]) (auto simp: funds_def w' clk)
  qed
qed

lemma pays_check_rate:
  assumes "rateLimiter d = Some token_bucket_if"
    and "window T0 T r (defaultBurstSize c)" "defaultMessagesPerSecond c = Fin r"
  shows "pays T0 T r c dev (check_rate d n m)"
  unfolding pays_def
proof (intro allI impI)
  fix x w a w'
  assume f: "funds T0 T r c dev x w" and run: "check_rate d n m w = (a, w')"
  obtain b u where l: "on_limiter d (\<lambda>l. if_checkLimit l (dm_device m) (dm_priority m)) w = (b, u)" by fastforce
  obtain ok where ok: "b = Inr ok"
    "funds T0 T r c dev (x + 1 / 2 ^ 23 - (if ok \<and> undiscounted_from dev m then 1 else 0)) u"
    "ok \<and> undiscounted_from dev m \<longrightarrow> 1 \<le> x + 1 / 2 ^ 23"
    by (rule limiter_call [OF assms(1) f assms(2,3) l, folded undiscounted_from_def])
  show "funds T0 T r c dev (x + 1 / 2 ^ 23 - cost dev a) w' \<and> (cost dev a = 1 \<longrightarrow> 1 \<le> x + 1 / 2 ^ 23)"
  proof (cases ok)
    case False
    with run l ok(1) have "w' = u" "cost dev a = 0" by (auto simp: check_rate_def)
    with ok(2) False show ?thesis by simp
  next
    case True
    with run l ok(1) have rec: "record_accepted d n m u = (a, w')" by (simp add: check_rate_def)
    note cst = record_accepted_cost [OF rec, of dev]
    have "funds T0 T r c dev (x + 1 / 2 ^ 23 - (if undiscounted_from dev m then 1 else 0)) u"
      using ok(2) True by simp
    moreover have "w_limiter w' = w_limiter u"
      using io_keepsD [OF record_accepted_keeps_limiter [OF assms(1)] rec] unfolding same_def .
    ultimately have "funds T0 T r c dev (x + 1 / 2 ^ 23 - (if undiscounted_from dev m then 1 else 0)) w'"
      by (rule funds_same)
    then have "funds T0 T r c dev (x + 1 / 2 ^ 23 - cost dev a) w'"
      using cst(1) by (rule funds_mono [OF _ diff_left_mono])
    moreover have "1 \<le> x + 1 / 2 ^ 23" if "cost dev a = 1"
      using cst(1) that ok(3) True by (auto split: if_splits)
    ultimately show ?thesis by blast
  qed
qed

lemma pays_parse:
  assumes "rateLimiter d = Some token_bucket_if"
    and "window T0 T r (defaultBurstSize c)" "defaultMessagesPerSecond c = Fin r"
  shows "pays T0 T r c dev (parseAndValidate d cfg data)"
proof -
  have v: "pays T0 T r c dev (validate d n m)" for n m
    unfolding validate_def check_duplicate_def
    by (intro pays_bind pays_if pays_return keeps pays_check_rate [OF assms]) simp_all
  then show ?thesis
    unfolding parseAndValidate_def
    by (intro pays_bind keeps) (auto split: result.split intro!: v pays_return)
qed

section \<open>A run of the gateway\<close>

lemma processPacket_limiter:
  assumes "processPacket d (gateway_handler d) cfg data sender w = (r, w')"
    "parseAndValidate d cfg data w = (a, u)"
  shows "w_limiter w' = w_limiter u"
proof (cases a)
  case (Inl x)
  with assms show ?thesis by (simp add: processPacket_def)
next
  case (Inr res)
  with assms show ?thesis
    using io_keepsD [OF handling_keeps_limiter(1)] io_keepsD [OF handling_keeps_limiter(2)]
    by (cases res) (simp_all add: processPacket_def same_def)
qed

lemma event_pays:
  assumes lim: "rateLimiter d = Some token_bucket_if"
    and win: "window T0 T r (defaultBurstSize c)" "defaultMessagesPerSecond c = Fin r"
    and f: "funds T0 T r c dev x w"
    and step: "session_step d (gateway_handler d) ev (s, w) = (a, s', w')"
    and ms: "ms = filter (undiscounted_from dev) (event_accepted d ev (s, w))"
  shows "funds T0 T r c dev (x + 1 / 2 ^ 23 - of_nat (length ms)) w' \<and>
    (ms = [] \<or> length ms = 1 \<and> 1 \<le> x + 1 / 2 ^ 23)"
proof -
  have up: "funds T0 T r c dev (x + 1 / 2 ^ 23) w" using f by (rule funds_mono) simp
  show ?thesis
  proof (cases "\<exists>data sender. ev = Datagram data sender \<and> delivered data s")
    case True
    then obtain data sender where ev: "ev = Datagram data sender" "delivered data s" by blast
    let ?pk = "take (length (sn_buffer s)) data"
    from step ev have "receive_datagram d (gateway_handler d) data sender (s, w) = (a, s', w')"
      by (simp add: session_step_def)
    from datagram_world [OF this] ev(2) obtain r1 w1 where
      p: "processPacket d (gateway_handler d) (sn_config s) ?pk sender w = (r1, w1)"
      and w': "w_limiter w' = w_limiter w1" by auto
    obtain b u where pv: "parseAndValidate d (sn_config s) ?pk w = (b, u)" by fastforce
    have b: "funds T0 T r c dev (x + 1 / 2 ^ 23 - cost dev b) u \<and> (cost dev b = 1 \<longrightarrow> 1 \<le> x + 1 / 2 ^ 23)"
      using pays_parse [OF lim win, where dev = dev and cfg = "sn_config s" and data = ?pk] f pv unfolding pays_def by blast
    moreover have "w_limiter w' = w_limiter u" using processPacket_limiter [OF p pv] w' by simp
    ultimately have f': "funds T0 T r c dev (x + 1 / 2 ^ 23 - cost dev b) w'" using funds_same by blast
    have "event_accepted d ev (s, w) = (case b of Inr (Ok_Result m) \<Rightarrow> [m] | _ \<Rightarrow> [])"
      using ev pv by (cases b; cases "projr b") (simp_all add: event_accepted_def delivered_def accepted_def Let_def)
    then have "cost dev b = of_nat (length ms)" "length ms \<le> 1"
      using ms by (cases b; cases "projr b"; simp)+
    with f' b show ?thesis by (cases ms) auto
  next
    case False
    have "event_accepted d ev (s, w) = []"
    proof (cases ev)
      case (Datagram data sender)
      with False have "\<not> delivered data s" by simp
      then have "\<not> (sn_receiving s \<and> sn_active s \<and> take (length (sn_buffer s)) data \<noteq> [])"
        unfolding delivered_def .
      with Datagram show ?thesis
        by (simp only: event_accepted_def Let_def prod.case session_event.case if_False simp_thms)
    qed (simp_all add: event_accepted_def)
    then have "ms = []" using ms by simp
    moreover have "w_limiter w' = w_limiter w"
    proof (cases ev)
      case (Datagram data sender)
      with step have "receive_datagram d (gateway_handler d) data sender (s, w) = (a, s', w')"
        by (simp add: session_step_def)
      from datagram_world [OF this] False Datagram show ?thesis by auto
    next
      case (Failure e)
      with step have "receive_error d (gateway_handler d) e (s, w) = (a, s', w')" by (simp add: session_step_def)
      from failure_world [OF this] show ?thesis by (auto dest: collector_same(4))
    qed (use step in \<open>simp_all add: session_step_def\<close>)
    ultimately show ?thesis using funds_same [OF up] by simp
  qed
qed

lemma run_pays:
  assumes "rateLimiter d = Some token_bucket_if"
    and "window T0 T r (defaultBurstSize c)" "defaultMessagesPerSecond c = Fin r"
    and "funds T0 T r c dev x w"
  shows "filter (undiscounted_from dev) (run_accepted d (gateway_handler d) evs (s, w)) = [] \<or>
    of_nat (length (filter (undiscounted_from dev) (run_accepted d (gateway_handler d) evs (s, w)))) \<le>
      x + of_nat (length evs) / 2 ^ 23"
  using assms(4)
proof (induction evs arbitrary: x s w)
  case (Cons ev evs)
  obtain a s' w' where step: "session_step d (gateway_handler d) ev (s, w) = (a, s', w')"
    by (metis prod_cases3)
  define ms where "ms = filter (undiscounted_from dev) (event_accepted d ev (s, w))"
  define rest where "rest = (case a of Inr _ \<Rightarrow>
    filter (undiscounted_from dev) (run_accepted d (gateway_handler d) evs (s', w')) | _ \<Rightarrow> [])"
  note e = event_pays [OF assms(1-3) Cons.prems step ms_def]
  have all: "filter (undiscounted_from dev) (run_accepted d (gateway_handler d) (ev # evs) (s, w)) = ms @ rest"
    using step by (simp add: ms_def rest_def split: sum.split)
  have ih: "rest = [] \<or> of_nat (length rest) \<le> x + 1 / 2 ^ 23 - of_nat (length ms) + of_nat (length evs) / 2 ^ 23"
    using Cons.IH [OF conjunct1 [OF e], of s'] by (cases a) (simp_all add: rest_def)
  have "of_nat (length (ev # evs)) / 2 ^ 23 = 1 / 2 ^ 23 + of_nat (length evs) / (2 ^ 23 :: rat)"
    by (simp add: add_divide_distrib)
  then have len: "of_nat (length (ms @ rest)) \<le> x + of_nat (length (ev # evs)) / 2 ^ 23"
    if "ms \<noteq> [] \<or> rest \<noteq> []"
    using ih e that by (cases "rest = []"; elim disjE conjE) (simp_all add: add_divide_distrib)
  then show ?case unfolding all by auto
qed simp

text \<open>
  C7. The gateway limits what a device can publish. While the clock stays in a window of at most a
  day, whatever datagrams arrive in whatever order and whatever the other components answer, the
  messages of normal or low priority that a session accepts from one device are at most a full
  bucket and what the configured rate yields in the window, plus one for every eight million events,
  for a rate of at most 1000 per second and a bucket of at most a million.
\<close>

theorem gateway_rate_bound:
  assumes "rateLimiter d = Some token_bucket_if" "w_limiter w = (new_rate_limiter c, clock)"
    "\<forall>i. T0 \<le> clock i \<and> clock i \<le> T"
    "window T0 T r (defaultBurstSize c)" "defaultMessagesPerSecond c = Fin r"
  shows "of_nat (length (filter (undiscounted_from dev)
      (run_accepted d (gateway_handler d) evs (s, w)))) \<le>
    rnd64 (u64_rat (defaultBurstSize c)) + yield r (T - T0) + of_nat (length evs) / 2 ^ 23"
proof -
  let ?x = "rnd64 (u64_rat (defaultBurstSize c)) + yield r (T - T0)"
  have "funds T0 T r c dev ?x w"
    using assms(2,3) by (simp add: funds_def account_def new_rate_limiter_def)
  from run_pays [OF assms(1,4,5) this, of evs s] show ?thesis
    using u64_bounds(1) [of "defaultBurstSize c"] yield_bounds(1) [of r "T - T0"] assms(4)
    by (auto simp: window_def)
qed

definition limited_deps ::
    "(unit, (string \<times> u32 \<times> string) list, (string \<times> u8 list) list, unit,
      rate_limiter \<times> (nat \<Rightarrow> ticks), unit) deps" where
  "limited_deps =
     \<lparr>protocolParser = Some sample_parser, deduplicationService = Some sample_dedup,
      messagePublisher = Some (recording_publisher (\<lambda>n. Inr True)), deviceManager = Some sample_devices,
      rateLimiter = Some token_bucket_if, metricsCollector = None\<rparr>"

definition limited_world ::
    "(unit, (string \<times> u32 \<times> string) list, (string \<times> u8 list) list, unit,
      rate_limiter \<times> (nat \<Rightarrow> ticks), unit) gw_world" where
  "limited_world =
     \<lparr>w_parser = (), w_dedup = [], w_publisher = [], w_devices = (),
      w_limiter = (new_rate_limiter default_rate_config, \<lambda>i. int (i mod 7)), w_collector = (), w_sent = [],
      gw_state = new_gateway 0 default_gateway_config\<rparr>"

theorem gateway_rate_bound_witness:
  "length (filter (undiscounted_from ''dev'') (run_accepted limited_deps (gateway_handler limited_deps)
     (map (\<lambda>i. Datagram [word_of_nat i] (Endpoint ''host'' 1)) [0..<60])
     (sample_session, limited_world))) \<le> 20"
proof -
  let ?evs = "map (\<lambda>i. Datagram [word_of_nat i] (Endpoint ''host'' 1)) [0..<60]"
  let ?k = "length (filter (undiscounted_from ''dev'')
    (run_accepted limited_deps (gateway_handler limited_deps) ?evs (sample_session, limited_world)))"
  have "rnd64 (of_int 20) = of_int 20" by (rule dbl.rnd_int) simp
  then have "rnd64 (u64_rat 20) = 20" by (simp add: u64_rat_def)
  moreover have "of_nat ?k \<le> rnd64 (u64_rat (defaultBurstSize default_rate_config)) +
      yield 10 (6 - 0) + of_nat (length ?evs) / 2 ^ 23"
  proof (rule gateway_rate_bound)
    show "\<forall>i. (0::int) \<le> int (i mod 7) \<and> int (i mod 7) \<le> 6"
    proof
      fix i :: nat
      have "i mod 7 < 7" by simp
      then show "(0::int) \<le> int (i mod 7) \<and> int (i mod 7) \<le> 6" by linarith
    qed
  qed (simp_all add: window_def default_rate_config_def limited_deps_def limited_world_def)
  ultimately have "of_nat ?k \<le> (20 :: rat) + 1 / 2 ^ 10"
    by (simp add: default_rate_config_def yield_def)
  then have "of_nat ?k < (of_nat 21 :: rat)" by simp
  then have "?k < 21" by (simp only: of_nat_less_iff)
  then show ?thesis by simp
qed

end
