(* ===== verification/Rabbit_Records.thy ===== *)
theory Rabbit_Records
  imports Publisher
begin

text \<open>
  The remaining declarations of \<open>rabbitmq_integration/types.hpp\<close>: the result type and the records
  and names of queues, exchanges and channels. Channel and queue manager use them.
\<close>

section \<open>Results\<close>

text \<open>
  \<open>Result<T>\<close> keeps a value also after a failure: the member initialiser \<open>value{}\<close>, which is the
  first argument of the constructors that are given no value. \<open>Result<void>\<close> is \<open>unit broker_result\<close>.
\<close>

record 'a broker_result =
  rs_success :: bool
  rs_value :: 'a
  rs_error :: error_type
  rs_message :: string

definition result_of :: "'a \<Rightarrow> 'a broker_result" where
  "result_of v = \<lparr>rs_success = True, rs_value = v, rs_error = ET_None, rs_message = []\<rparr>"

definition result_failure :: "'a \<Rightarrow> error_type \<Rightarrow> string \<Rightarrow> 'a broker_result" where
  "result_failure init e msg = \<lparr>rs_success = False, rs_value = init, rs_error = e, rs_message = msg\<rparr>"

definition result_default :: "'a \<Rightarrow> 'a broker_result" where
  "result_default init = \<lparr>rs_success = True, rs_value = init, rs_error = ET_None, rs_message = []\<rparr>"

definition result_void :: "unit broker_result" where
  "result_void = \<lparr>rs_success = True, rs_value = (), rs_error = ET_None, rs_message = []\<rparr>"

definition result_void_failure :: "error_type \<Rightarrow> string \<Rightarrow> unit broker_result" where
  "result_void_failure e msg = \<lparr>rs_success = False, rs_value = (), rs_error = e, rs_message = msg\<rparr>"

text \<open>The conversion to \<open>bool\<close> and the access to the value, which does not look at \<open>success\<close>\<close>

definition result_ok :: "'a broker_result \<Rightarrow> bool" where
  "result_ok r = rs_success r"

definition result_value :: "'a broker_result \<Rightarrow> 'a" where
  "result_value r = rs_value r"

lemma result_value_unchecked:
  "\<not> result_ok (result_failure init e msg)" "result_value (result_failure init e msg) = init"
  by (simp_all add: result_ok_def result_value_def result_failure_def)

text \<open>A failure without an error type looks like a success in all members but one.\<close>

lemma result_failure_success:
  "(result_failure init ET_None [])\<lparr>rs_success := True\<rparr> = result_default init"
  by (simp add: result_failure_def result_default_def)

section \<open>Records\<close>

record queue_info =
  qi_name :: string
  qi_messageCount :: u64
  qi_consumerCount :: u64
  qi_durable :: bool
  qi_exclusive :: bool
  qi_autoDelete :: bool

definition new_queue_info :: queue_info where
  "new_queue_info =
     \<lparr>qi_name = [], qi_messageCount = 0, qi_consumerCount = 0, qi_durable = False,
      qi_exclusive = False, qi_autoDelete = False\<rparr>"

record channel_info =
  ci_channelId :: int
  ci_isOpen :: bool
  ci_confirmsEnabled :: bool
  ci_transactionMode :: bool
  ci_nextPublishSeqNo :: u64
  ci_lastActivity :: ticks

definition new_channel_info :: channel_info where
  "new_channel_info =
     \<lparr>ci_channelId = 0, ci_isOpen = False, ci_confirmsEnabled = False, ci_transactionMode = False,
      ci_nextPublishSeqNo = 1, ci_lastActivity = 0\<rparr>"

record queue_config =
  qc_durable :: bool
  qc_exclusive :: bool
  qc_autoDelete :: bool
  qc_arguments :: headers
  qc_maxLength :: "u32 option"
  qc_messageTTL :: "ticks option"
  qc_deadLetterExchange :: string
  qc_deadLetterRoutingKey :: string
  qc_name :: string
  qc_expires :: "ticks option"
  qc_maxLengthBytes :: "u32 option"

definition new_queue_config :: queue_config where
  "new_queue_config =
     \<lparr>qc_durable = True, qc_exclusive = False, qc_autoDelete = False, qc_arguments = [],
      qc_maxLength = None, qc_messageTTL = None, qc_deadLetterExchange = [],
      qc_deadLetterRoutingKey = [], qc_name = [], qc_expires = None, qc_maxLengthBytes = None\<rparr>"

record exchange_config =
  xc_name :: string
  xc_internal :: bool
  xc_type :: string
  xc_durable :: bool
  xc_autoDelete :: bool
  xc_arguments :: headers

definition new_exchange_config :: exchange_config where
  "new_exchange_config =
     \<lparr>xc_name = [], xc_internal = False, xc_type = ''direct'', xc_durable = True,
      xc_autoDelete = False, xc_arguments = []\<rparr>"

record binding_config =
  bc_queue :: string
  bc_exchange :: string
  bc_routingKey :: string
  bc_arguments :: headers

definition new_binding_config :: binding_config where
  "new_binding_config = \<lparr>bc_queue = [], bc_exchange = [], bc_routingKey = [], bc_arguments = []\<rparr>"

record broker_queue_stats =
  qs_name :: string
  qs_messageCount :: u64
  qs_consumerCount :: u64
  qs_messagesReady :: u64
  qs_messagesUnacknowledged :: u64
  qs_messageRate :: fp
  qs_lastActivity :: ticks

definition new_broker_queue_stats :: broker_queue_stats where
  "new_broker_queue_stats =
     \<lparr>qs_name = [], qs_messageCount = 0, qs_consumerCount = 0, qs_messagesReady = 0,
      qs_messagesUnacknowledged = 0, qs_messageRate = Fin 0, qs_lastActivity = 0\<rparr>"

record regional_config =
  gr_region :: string
  gr_allowedRegions :: "string list"
  gr_enforceDataResidency :: bool
  gr_defaultRegion :: string

definition new_regional_config :: regional_config where
  "new_regional_config =
     \<lparr>gr_region = [], gr_allowedRegions = [], gr_enforceDataResidency = True,
      gr_defaultRegion = ''na''\<rparr>"

datatype broker_queue_type = Classic | Quorum | Stream

text \<open>A received message; the pointer to it may be empty.\<close>

record message_envelope =
  ev_message :: "rmessage option"
  ev_deliveryTag :: u64
  ev_exchange :: string
  ev_routingKey :: string
  ev_redelivered :: bool
  ev_timestamp :: ticks

definition new_message_envelope :: message_envelope where
  "new_message_envelope =
     \<lparr>ev_message = None, ev_deliveryTag = 0, ev_exchange = [], ev_routingKey = [],
      ev_redelivered = False, ev_timestamp = 0\<rparr>"

section \<open>Names\<close>

definition exchange_type_names :: "(exchange_type \<times> string) list" where
  "exchange_type_names =
     [(Direct, ''direct''), (Topic, ''topic''), (Fanout, ''fanout''), (Headers, ''headers'')]"

definition queue_patterns :: "(string \<times> string) list" where
  "queue_patterns =
     [(''inbound'', ''{region}.{imei}_inbound''), (''outbound'', ''{region}.{imei}_outbound''),
      (''debug'', ''{region}.{imei}_debug''), (''discard'', ''{region}.{imei}_discard'')]"

definition exchange_names :: "string list" where
  "exchange_names = [''device.exchange'', ''command.exchange'', ''debug.exchange'']"

definition error_codes :: "string list" where
  "error_codes =
     [''CONNECTION_FAILED'', ''CHANNEL_ERROR'', ''PUBLISH_FAILED'', ''CONSUME_FAILED'',
      ''QUEUE_DECLARE_FAILED'', ''EXCHANGE_DECLARE_FAILED'', ''AUTHENTICATION_FAILED'', ''TIMEOUT'']"

text \<open>
  The constants and the functions agree: an exchange type prints as its constant, and the queue
  names the publisher makes follow the patterns. The code the publisher gives its error callback is
  none of the error codes.
\<close>

lemma exchange_type_names_agree:
  "map_of exchange_type_names t = Some (exchangeTypeToString t)"
  by (cases t) (simp_all add: exchange_type_names_def)

lemma queue_patterns_agree:
  "(k, p) \<in> set queue_patterns \<Longrightarrow> publisher_queueName ''{region}'' ''{imei}'' k = p"
  by (auto simp: queue_patterns_def publisher_queueName_def)

lemma publish_error_unlisted:
  "pb_errorCallback p \<Longrightarrow> \<exists>c. pb_events (handlePublishError x r e p) =
     pb_events p @ [Error_Callback c e (''Exchange: '' @ x @ '', RoutingKey: '' @ r)] \<and>
     c \<notin> set error_codes"
  by (simp add: handlePublishError_def error_codes_def)

end
