(* ===== verification/Rabbit_Channel.thy ===== *)
theory Rabbit_Channel
  imports Rabbit_Records Keyed_State
begin

text \<open>
  \<open>Channel\<close> (\<open>channel.hpp\<close>, \<open>channel.cpp\<close>), read as the code it means to be: it is in no build target,
  includes headers under a path that does not exist and lives in a namespace of its own, where the
  names it uses are not declared. They are read as those of \<open>types.hpp\<close> and \<open>message.hpp\<close>. Two types
  are declared nowhere: the statistics, whose empty value and four increments are the parameter
  \<open>stats_decls\<close>, and the envelope, a type variable. A call locks the channel or is a single
  statement, so the calls are modelled one after the other.
\<close>

section \<open>State\<close>

record 'st stats_decls =
  sd_empty :: 'st
  sd_channelsOpened :: "'st \<Rightarrow> 'st"
  sd_channelsClosed :: "'st \<Rightarrow> 'st"
  sd_messagesPublished :: "'st \<Rightarrow> 'st"
  sd_messagesConsumed :: "'st \<Rightarrow> 'st"

text \<open>
  The connection is a weak pointer, kept as an address. \<open>ch_consumerThread\<close> says whether the thread
  can be joined; no statement starts it. Promises of confirms are their delivery tags.
\<close>

record ('st, 'cb) channel =
  ch_connection :: nat
  ch_channelId :: int
  ch_state :: channel_state
  ch_consumers :: "(string \<times> 'cb) list"
  ch_consumerThread :: bool
  ch_stopConsuming :: bool
  ch_confirmsEnabled :: bool
  ch_nextPublishSeqNo :: u64
  ch_pendingConfirms :: "u64 list"
  ch_confirmCallback :: bool
  ch_returnCallback :: bool
  ch_stats :: 'st
  ch_inTransaction :: bool

definition new_channel :: "'st stats_decls \<Rightarrow> nat \<Rightarrow> int \<Rightarrow> ('st, 'cb) channel" where
  "new_channel sd connection channelId =
     \<lparr>ch_connection = connection, ch_channelId = channelId, ch_state = CH_Closed, ch_consumers = [],
      ch_consumerThread = False, ch_stopConsuming = False, ch_confirmsEnabled = False,
      ch_nextPublishSeqNo = 0, ch_pendingConfirms = [], ch_confirmCallback = False,
      ch_returnCallback = False, ch_stats = sd_empty sd, ch_inTransaction = False\<rparr>"

section \<open>Opening and closing\<close>

definition setState :: "channel_state \<Rightarrow> ('st, 'cb) channel \<Rightarrow> ('st, 'cb) channel" where
  "setState s c = c\<lparr>ch_state := s\<rparr>"

definition doOpen :: "('st, 'cb) channel \<Rightarrow> unit broker_result" where
  "doOpen c = result_void"

definition doClose :: "('st, 'cb) channel \<Rightarrow> unit broker_result" where
  "doClose c = result_void"

definition channel_open ::
    "'st stats_decls \<Rightarrow> ('st, 'cb) channel \<Rightarrow> unit broker_result \<times> ('st, 'cb) channel" where
  "channel_open sd c =
     (if ch_state c = CH_Open then (result_void, c)
      else (let c1 = setState CH_Opening c; r = doOpen c1
            in (r, if result_ok r
                   then (setState CH_Open c1)\<lparr>ch_stats := sd_channelsOpened sd (ch_stats c1)\<rparr>
                   else setState CH_Failed c1)))"

text \<open>\<open>consumerLoop\<close> is empty, so a thread that runs it ends and can be joined.\<close>

definition channel_close ::
    "'st stats_decls \<Rightarrow> ('st, 'cb) channel \<Rightarrow> unit broker_result \<times> ('st, 'cb) channel" where
  "channel_close sd c =
     (if ch_state c = CH_Closed then (result_void, c)
      else (let c1 = (setState CH_Closing c)\<lparr>ch_stopConsuming := True\<rparr>;
                c2 = (if ch_consumerThread c1 then c1\<lparr>ch_consumerThread := False\<rparr> else c1);
                r = doClose c2
            in (r, (setState CH_Closed c2)\<lparr>ch_stats := sd_channelsClosed sd (ch_stats c2)\<rparr>)))"

definition channel_isOpen :: "('st, 'cb) channel \<Rightarrow> bool" where
  "channel_isOpen c \<longleftrightarrow> ch_state c = CH_Open"

definition channel_getState :: "('st, 'cb) channel \<Rightarrow> channel_state" where
  "channel_getState c = ch_state c"

definition getChannelId :: "('st, 'cb) channel \<Rightarrow> int" where
  "getChannelId c = ch_channelId c"

definition channel_destroy :: "'st stats_decls \<Rightarrow> ('st, 'cb) channel \<Rightarrow> ('st, 'cb) channel" where
  "channel_destroy sd c = (if channel_isOpen c then snd (channel_close sd c) else c)"

section \<open>Exchanges, queues and bindings\<close>

definition channel_declareExchange :: "exchange_config \<Rightarrow> ('st, 'cb) channel \<Rightarrow> unit broker_result" where
  "channel_declareExchange config c = result_void"

definition channel_deleteExchange :: "string \<Rightarrow> bool \<Rightarrow> ('st, 'cb) channel \<Rightarrow> unit broker_result" where
  "channel_deleteExchange name ifUnused c = result_void"

definition channel_exchangeExists :: "string \<Rightarrow> ('st, 'cb) channel \<Rightarrow> bool broker_result" where
  "channel_exchangeExists name c = result_of True"

definition channel_declareQueue :: "queue_config \<Rightarrow> ('st, 'cb) channel \<Rightarrow> string broker_result" where
  "channel_declareQueue config c = result_of (qc_name config)"

definition channel_deleteQueue :: "string \<Rightarrow> bool \<Rightarrow> bool \<Rightarrow> ('st, 'cb) channel \<Rightarrow> unit broker_result" where
  "channel_deleteQueue name ifUnused ifEmpty c = result_void"

definition channel_purgeQueue :: "string \<Rightarrow> ('st, 'cb) channel \<Rightarrow> unit broker_result" where
  "channel_purgeQueue name c = result_void"

definition channel_getQueueInfo :: "string \<Rightarrow> ('st, 'cb) channel \<Rightarrow> queue_info broker_result" where
  "channel_getQueueInfo name c =
     result_of (new_queue_info\<lparr>qi_name := name, qi_messageCount := 0, qi_consumerCount := 0\<rparr>)"

definition channel_queueExists :: "string \<Rightarrow> ('st, 'cb) channel \<Rightarrow> bool broker_result" where
  "channel_queueExists name c = result_of True"

definition channel_bindQueue :: "binding_config \<Rightarrow> ('st, 'cb) channel \<Rightarrow> unit broker_result" where
  "channel_bindQueue config c = result_void"

definition channel_unbindQueue ::
    "string \<Rightarrow> string \<Rightarrow> string \<Rightarrow> ('st, 'cb) channel \<Rightarrow> unit broker_result" where
  "channel_unbindQueue queue exchange routingKey c = result_void"

section \<open>Publishing and consuming\<close>

definition basicPublish ::
    "'st stats_decls \<Rightarrow> string \<Rightarrow> string \<Rightarrow> rmessage \<Rightarrow> bool \<Rightarrow> bool \<Rightarrow> ('st, 'cb) channel \<Rightarrow>
      unit broker_result \<times> ('st, 'cb) channel" where
  "basicPublish sd exchange routingKey message mandatory immediate c =
     (result_void, c\<lparr>ch_stats := sd_messagesPublished sd (ch_stats c)\<rparr>)"

definition enableConfirms :: "('st, 'cb) channel \<Rightarrow> unit broker_result \<times> ('st, 'cb) channel" where
  "enableConfirms c = (result_void, c\<lparr>ch_confirmsEnabled := True\<rparr>)"

definition waitForConfirm :: "ticks \<Rightarrow> ('st, 'cb) channel \<Rightarrow> bool broker_result" where
  "waitForConfirm timeout c = result_of True"

definition channel_setConfirmCallback :: "bool \<Rightarrow> ('st, 'cb) channel \<Rightarrow> ('st, 'cb) channel" where
  "channel_setConfirmCallback b c = c\<lparr>ch_confirmCallback := b\<rparr>"

definition channel_setReturnCallback :: "bool \<Rightarrow> ('st, 'cb) channel \<Rightarrow> ('st, 'cb) channel" where
  "channel_setReturnCallback b c = c\<lparr>ch_returnCallback := b\<rparr>"

definition consumer_tag :: "string \<Rightarrow> ('st, 'cb) channel \<Rightarrow> string" where
  "consumer_tag consumerTag c =
     (if consumerTag = [] then ''consumer_'' @ int_string (ch_channelId c) else consumerTag)"

definition basicConsume ::
    "string \<Rightarrow> 'cb \<Rightarrow> string \<Rightarrow> bool \<Rightarrow> bool \<Rightarrow> bool \<Rightarrow> ('st, 'cb) channel \<Rightarrow>
      string broker_result \<times> ('st, 'cb) channel" where
  "basicConsume queue callback consumerTag noLocal noAck exclusive c =
     (let tag = consumer_tag consumerTag c
      in (result_of tag, c\<lparr>ch_consumers := al_set tag callback (ch_consumers c)\<rparr>))"

definition basicCancel :: "string \<Rightarrow> ('st, 'cb) channel \<Rightarrow> unit broker_result \<times> ('st, 'cb) channel" where
  "basicCancel consumerTag c =
     (result_void, c\<lparr>ch_consumers := al_del consumerTag (ch_consumers c)\<rparr>)"

definition basicAck ::
    "'st stats_decls \<Rightarrow> u64 \<Rightarrow> bool \<Rightarrow> ('st, 'cb) channel \<Rightarrow> unit broker_result \<times> ('st, 'cb) channel" where
  "basicAck sd deliveryTag multiple c =
     (result_void, c\<lparr>ch_stats := sd_messagesConsumed sd (ch_stats c)\<rparr>)"

definition basicNack :: "u64 \<Rightarrow> bool \<Rightarrow> bool \<Rightarrow> ('st, 'cb) channel \<Rightarrow> unit broker_result" where
  "basicNack deliveryTag multiple requeue c = result_void"

definition basicReject :: "u64 \<Rightarrow> bool \<Rightarrow> ('st, 'cb) channel \<Rightarrow> unit broker_result" where
  "basicReject deliveryTag requeue c = result_void"

definition basicGet :: "string \<Rightarrow> bool \<Rightarrow> ('st, 'cb) channel \<Rightarrow> 'env option broker_result" where
  "basicGet queue noAck c = result_of None"

definition basicQos :: "u16 \<Rightarrow> u32 \<Rightarrow> bool \<Rightarrow> ('st, 'cb) channel \<Rightarrow> unit broker_result" where
  "basicQos prefetchCount prefetchSize global c = result_void"

section \<open>Transactions, statistics and the rest\<close>

definition txSelect :: "('st, 'cb) channel \<Rightarrow> unit broker_result \<times> ('st, 'cb) channel" where
  "txSelect c = (result_void, c\<lparr>ch_inTransaction := True\<rparr>)"

definition txCommit :: "('st, 'cb) channel \<Rightarrow> unit broker_result \<times> ('st, 'cb) channel" where
  "txCommit c = (result_void, c\<lparr>ch_inTransaction := False\<rparr>)"

definition txRollback :: "('st, 'cb) channel \<Rightarrow> unit broker_result \<times> ('st, 'cb) channel" where
  "txRollback c = (result_void, c\<lparr>ch_inTransaction := False\<rparr>)"

definition channel_getStats :: "('st, 'cb) channel \<Rightarrow> 'st" where
  "channel_getStats c = ch_stats c"

definition channel_resetStats :: "'st stats_decls \<Rightarrow> ('st, 'cb) channel \<Rightarrow> ('st, 'cb) channel" where
  "channel_resetStats sd c = c\<lparr>ch_stats := sd_empty sd\<rparr>"

definition channel_flow :: "bool \<Rightarrow> ('st, 'cb) channel \<Rightarrow> unit broker_result" where
  "channel_flow active c = result_void"

text \<open>\<open>lock\<close> gives the connection while it lives; its native handle is declared elsewhere.\<close>

definition channel_getConnection ::
    "(nat \<Rightarrow> 'conn option) \<Rightarrow> ('conn \<Rightarrow> 'h) \<Rightarrow> ('st, 'cb) channel \<Rightarrow> 'h option" where
  "channel_getConnection lock getNativeHandle c =
     (case lock (ch_connection c) of Some conn \<Rightarrow> Some (getNativeHandle conn) | None \<Rightarrow> None)"

definition messageToProperties :: "rmessage \<Rightarrow> amqp_properties" where
  "messageToProperties message = toAmqpProperties message"

text \<open>A frame is read as the default message.\<close>

definition frameToMessage :: "stamp \<Rightarrow> 'frame \<Rightarrow> rmessage" where
  "frameToMessage st frame = Message_default st"

text \<open>The handlers of frames and of the events of the broker have empty bodies.\<close>

datatype broker_event =
    Frame | Method | Content | Basic_Deliver | Basic_Return | Basic_Ack | Basic_Nack

definition handle_broker_event :: "broker_event \<Rightarrow> ('st, 'cb) channel \<Rightarrow> ('st, 'cb) channel" where
  "handle_broker_event e c = c"

definition channel_handleAmqpError :: "string \<Rightarrow> 'reply \<Rightarrow> ('st, 'cb) channel \<Rightarrow> unit broker_result" where
  "channel_handleAmqpError operation reply c = result_void"

section \<open>What a channel does\<close>

text \<open>The calls that change a channel, and whether they answer with success.\<close>

datatype 'cb channel_op =
    Ch_Open | Ch_Close | Ch_Publish string string rmessage bool bool | Ch_Confirms
  | Ch_Confirm_Callback bool | Ch_Return_Callback bool
  | Ch_Consume string 'cb string bool bool bool | Ch_Cancel string | Ch_Ack u64 bool
  | Ch_Select | Ch_Commit | Ch_Rollback | Ch_Reset | Ch_Broker broker_event

fun channel_step ::
    "'st stats_decls \<Rightarrow> 'cb channel_op \<Rightarrow> ('st, 'cb) channel \<Rightarrow> bool \<times> ('st, 'cb) channel" where
  "channel_step sd Ch_Open c = map_prod result_ok id (channel_open sd c)"
| "channel_step sd Ch_Close c = map_prod result_ok id (channel_close sd c)"
| "channel_step sd (Ch_Publish x k m a b) c = map_prod result_ok id (basicPublish sd x k m a b c)"
| "channel_step sd Ch_Confirms c = map_prod result_ok id (enableConfirms c)"
| "channel_step sd (Ch_Confirm_Callback b) c = (True, channel_setConfirmCallback b c)"
| "channel_step sd (Ch_Return_Callback b) c = (True, channel_setReturnCallback b c)"
| "channel_step sd (Ch_Consume q f t l n e) c = map_prod result_ok id (basicConsume q f t l n e c)"
| "channel_step sd (Ch_Cancel t) c = map_prod result_ok id (basicCancel t c)"
| "channel_step sd (Ch_Ack t b) c = map_prod result_ok id (basicAck sd t b c)"
| "channel_step sd Ch_Select c = map_prod result_ok id (txSelect c)"
| "channel_step sd Ch_Commit c = map_prod result_ok id (txCommit c)"
| "channel_step sd Ch_Rollback c = map_prod result_ok id (txRollback c)"
| "channel_step sd Ch_Reset c = (True, channel_resetStats sd c)"
| "channel_step sd (Ch_Broker e) c = (True, handle_broker_event e c)"

lemmas result_simps = result_void_def result_of_def result_ok_def

lemmas channel_ops = channel_open_def channel_close_def basicPublish_def enableConfirms_def
  channel_setConfirmCallback_def channel_setReturnCallback_def basicConsume_def basicCancel_def
  basicAck_def txSelect_def txCommit_def txRollback_def channel_resetStats_def
  handle_broker_event_def setState_def doOpen_def doClose_def Let_def result_simps

text \<open>
  Between two calls a channel is closed or open. No thread, no confirm and no sequence number ever
  comes up, and every call succeeds, on a closed channel too.
\<close>

definition idle_channel :: "('st, 'cb) channel \<Rightarrow> bool" where
  "idle_channel c \<longleftrightarrow> ch_state c \<in> {CH_Closed, CH_Open} \<and> \<not> ch_consumerThread c \<and>
     ch_nextPublishSeqNo c = 0 \<and> ch_pendingConfirms c = []"

lemma channel_step_idle:
  assumes "idle_channel c"
  shows "idle_channel (snd (channel_step sd op c)) \<and> fst (channel_step sd op c)"
  using assms by (cases op) (auto simp: idle_channel_def channel_ops)

lemma channel_never_refuses:
  "list_all (\<lambda>(op, ok). ok) (run_log (channel_step sd) ops (new_channel sd connection n))"
  "idle_channel (run_state (channel_step sd) ops (new_channel sd connection n))"
proof -
  have new: "idle_channel (new_channel sd connection n)" by (simp add: idle_channel_def new_channel_def)
  show "list_all (\<lambda>(op, ok). ok) (run_log (channel_step sd) ops (new_channel sd connection n))"
    by (rule run_log_invariant [where I = idle_channel and P = "\<lambda>_ ok. ok", OF channel_step_idle new])
  show "idle_channel (run_state (channel_step sd) ops (new_channel sd connection n))"
    by (rule run_state_invariant [where I = idle_channel, OF conjunct1 [OF channel_step_idle] new])
qed

text \<open>The abstract channel is a switch: only opening and closing move it.\<close>

fun switch_after :: "'cb channel_op \<Rightarrow> bool \<Rightarrow> bool" where
  "switch_after Ch_Open b = True"
| "switch_after Ch_Close b = False"
| "switch_after op b = b"

lemma channel_is_switch:
  "idle_channel c \<Longrightarrow>
     channel_isOpen (run_state (channel_step sd) ops c) = fold switch_after ops (channel_isOpen c)"
proof (induction ops arbitrary: c)
  case (Cons op ops)
  have "channel_isOpen (snd (channel_step sd op c)) = switch_after op (channel_isOpen c)"
    using Cons.prems by (cases op) (auto simp: channel_isOpen_def idle_channel_def channel_ops)
  moreover have "idle_channel (snd (channel_step sd op c))" using channel_step_idle [OF Cons.prems] by simp
  ultimately show ?case by (cases "channel_step sd op c") (simp add: Cons.IH)
qed simp

text \<open>A closed channel that is opened again keeps the order to stop consuming.\<close>

lemma stop_is_permanent:
  "ch_stopConsuming c \<Longrightarrow> ch_stopConsuming (run_state (channel_step sd) ops c)"
proof (rule run_state_invariant [where I = ch_stopConsuming])
  show "ch_stopConsuming (snd (channel_step sd op s))" if "ch_stopConsuming s" for op s
    using that by (cases op) (auto simp: channel_ops)
qed

text \<open>A transaction that is rolled back ends as one that is committed.\<close>

lemma rollback_is_commit: "txRollback c = txCommit c"
  by (simp add: txRollback_def txCommit_def)

text \<open>Two consumers without a tag share one, and the second replaces the first.\<close>

lemma untagged_consumers_share:
  "map_of (ch_consumers (snd (basicConsume q' g [] l' n' e' (snd (basicConsume q f [] l n e c)))))
     (''consumer_'' @ int_string (ch_channelId c)) = Some g"
  "length (ch_consumers (snd (basicConsume q' g [] l' n' e' (snd (basicConsume q f [] l n e (new_channel sd a i)))))) = 1"
  by (simp_all add: basicConsume_def consumer_tag_def Let_def new_channel_def)

end
