(* ===== verification/Queue_Manager.thy ===== *)
theory Queue_Manager
  imports Rabbit_Records
begin

text \<open>
  \<open>rabbitmq_integration::QueueManager\<close>, as far as \<open>queue_manager.cpp\<close> goes: its constructors, its
  moves and its destructor. All queue operations are declared without a body, and so is
  \<open>teardownConnection\<close>, which destructor and move assignment call: it is a parameter.
\<close>

record 'ch queue_manager =
  qg_config :: connection_config
  qg_connection :: "connection option"
  qg_channel :: "'ch option"
  qg_ownsConnection :: bool
  qg_lastError :: string
  qg_errorCallback :: bool
  qg_queueTemplates :: "(string \<times> queue_config) list"
  qg_queueExistsCache :: "(string \<times> bool) list"
  qg_exchangeExistsCache :: "(string \<times> bool) list"
  qg_lastCacheUpdate :: ticks
  qg_cacheExpiry :: ticks

definition new_queue_manager :: "connection_config \<Rightarrow> 'ch queue_manager" where
  "new_queue_manager config =
     \<lparr>qg_config = config, qg_connection = None, qg_channel = None, qg_ownsConnection = True,
      qg_lastError = [], qg_errorCallback = False, qg_queueTemplates = [],
      qg_queueExistsCache = [], qg_exchangeExistsCache = [], qg_lastCacheUpdate = 0,
      qg_cacheExpiry = 5\<rparr>"

text \<open>With a connection of its own the configuration keeps the defaults.\<close>

definition queue_manager_with :: "connection option \<Rightarrow> 'ch queue_manager" where
  "queue_manager_with connection = (new_queue_manager default_connection_config)
     \<lparr>qg_connection := connection, qg_ownsConnection := False\<rparr>"

definition queue_manager_destroy ::
    "('ch queue_manager \<Rightarrow> 'ch queue_manager) \<Rightarrow> 'ch queue_manager \<Rightarrow> 'ch queue_manager" where
  "queue_manager_destroy teardownConnection q = teardownConnection q"

text \<open>
  A string, a map or a callback that is moved from is valid but unspecified; it is empty in the
  standard libraries in use. Numbers and flags are copied.
\<close>

definition moved_config :: "connection_config \<Rightarrow> connection_config" where
  "moved_config c = c\<lparr>cc_host := [], cc_vhost := [], cc_username := [], cc_password := [],
     cc_caCertPath := [], cc_clientCertPath := [], cc_clientKeyPath := []\<rparr>"

definition queue_manager_left :: "'ch queue_manager \<Rightarrow> 'ch queue_manager" where
  "queue_manager_left other =
     \<lparr>qg_config = moved_config (qg_config other), qg_connection = None, qg_channel = None,
      qg_ownsConnection = False, qg_lastError = [], qg_errorCallback = False,
      qg_queueTemplates = [], qg_queueExistsCache = [], qg_exchangeExistsCache = [],
      qg_lastCacheUpdate = qg_lastCacheUpdate other, qg_cacheExpiry = qg_cacheExpiry other\<rparr>"

definition queue_manager_move :: "'ch queue_manager \<Rightarrow> 'ch queue_manager \<times> 'ch queue_manager" where
  "queue_manager_move other =
     (\<lparr>qg_config = qg_config other, qg_connection = qg_connection other,
       qg_channel = qg_channel other, qg_ownsConnection = qg_ownsConnection other,
       qg_lastError = qg_lastError other, qg_errorCallback = qg_errorCallback other,
       qg_queueTemplates = qg_queueTemplates other,
       qg_queueExistsCache = qg_queueExistsCache other,
       qg_exchangeExistsCache = qg_exchangeExistsCache other,
       qg_lastCacheUpdate = qg_lastCacheUpdate other, qg_cacheExpiry = qg_cacheExpiry other\<rparr>,
      queue_manager_left other)"

text \<open>Move assignment from another object; \<open>same\<close> says that both are one object, and nothing happens.\<close>

definition queue_manager_move_assign ::
    "('ch queue_manager \<Rightarrow> 'ch queue_manager) \<Rightarrow> bool \<Rightarrow> 'ch queue_manager \<Rightarrow> 'ch queue_manager \<Rightarrow>
      'ch queue_manager \<times> 'ch queue_manager" where
  "queue_manager_move_assign teardownConnection same q other =
     (if same then (q, other)
      else (let q1 = teardownConnection q
            in (q1\<lparr>qg_config := qg_config other, qg_connection := qg_connection other,
                   qg_channel := qg_channel other, qg_ownsConnection := qg_ownsConnection other,
                   qg_queueExistsCache := qg_queueExistsCache other,
                   qg_exchangeExistsCache := qg_exchangeExistsCache other,
                   qg_lastCacheUpdate := qg_lastCacheUpdate other,
                   qg_cacheExpiry := qg_cacheExpiry other, qg_lastError := qg_lastError other,
                   qg_errorCallback := qg_errorCallback other,
                   qg_queueTemplates := qg_queueTemplates other\<rparr>,
                queue_manager_left other)))"

text \<open>
  A moved connection has one owner: what is taken over is the whole state, whatever the target was
  and whatever tearing it down did, and the source keeps no connection, no channel and no claim.
\<close>

lemma queue_manager_move_whole:
  "fst (queue_manager_move q) = q"
  "\<not> same \<Longrightarrow> fst (queue_manager_move_assign td same p q) = q"
  "\<not> same \<Longrightarrow> snd (queue_manager_move_assign td same p q) = snd (queue_manager_move q)"
  by (simp_all add: queue_manager_move_def queue_manager_move_assign_def Let_def)

lemma queue_manager_single_owner:
  "qg_connection (snd (queue_manager_move q)) = None" "qg_channel (snd (queue_manager_move q)) = None"
  "\<not> qg_ownsConnection (snd (queue_manager_move q))"
  by (simp_all add: queue_manager_move_def queue_manager_left_def)

end
