(* ===== verification/Connection_Handle.thy ===== *)
theory Connection_Handle
  imports Connection_Pool
begin

text \<open>
  \<open>redis_deduplication::PooledConnection\<close> (\<open>connection_pool.hpp\<close>, \<open>connection_pool.cpp\<close>): the handle
  of a client that the pool hands out. It gives the client back when it is released, assigned to or
  destroyed. What a call gives back to the pool is the second part of its result.
\<close>

section \<open>The handle\<close>

record 'c pooled_connection =
  pl_client :: "'c option"
  pl_returnFunc :: bool
  pl_released :: bool

definition empty_handle :: "'c pooled_connection" where
  "empty_handle = \<lparr>pl_client = None, pl_returnFunc = False, pl_released = False\<rparr>"

definition new_handle :: "'c option \<Rightarrow> bool \<Rightarrow> 'c pooled_connection" where
  "new_handle client returnFunc =
     \<lparr>pl_client = client, pl_returnFunc = returnFunc, pl_released = False\<rparr>"

definition handle_release :: "'c pooled_connection \<Rightarrow> 'c pooled_connection \<times> 'c list" where
  "handle_release h = (case pl_client h of
     Some c \<Rightarrow> if \<not> pl_released h \<and> pl_returnFunc h then (h\<lparr>pl_released := True\<rparr>, [c]) else (h, [])
   | None \<Rightarrow> (h, []))"

text \<open>
  A pointer that is moved from is empty, and so is a function in the standard libraries in use. The
  first component is the new handle, the second what is left of the old one.
\<close>

definition handle_move ::
    "'c pooled_connection \<Rightarrow> 'c pooled_connection \<times> 'c pooled_connection" where
  "handle_move other =
     (\<lparr>pl_client = pl_client other, pl_returnFunc = pl_returnFunc other,
       pl_released = pl_released other\<rparr>,
      \<lparr>pl_client = None, pl_returnFunc = False, pl_released = True\<rparr>)"

definition handle_move_assign ::
    "'c pooled_connection \<Rightarrow> 'c pooled_connection \<Rightarrow>
      'c pooled_connection \<times> 'c pooled_connection \<times> 'c list" where
  "handle_move_assign h other =
     (case handle_release h of (h1, ret) \<Rightarrow>
        (h1\<lparr>pl_client := pl_client other, pl_returnFunc := pl_returnFunc other,
            pl_released := pl_released other\<rparr>,
         \<lparr>pl_client = None, pl_returnFunc = False, pl_released = True\<rparr>, ret))"

definition handle_destroy :: "'c pooled_connection \<Rightarrow> 'c list" where
  "handle_destroy h = snd (handle_release h)"

definition handle_isValid :: "'c pooled_connection \<Rightarrow> bool" where
  "handle_isValid h \<longleftrightarrow> pl_client h \<noteq> None"

text \<open>\<open>operator->\<close>; an empty pointer is \<open>None\<close>.\<close>

definition handle_get :: "'c pooled_connection \<Rightarrow> 'c option" where
  "handle_get h = pl_client h"

text \<open>
  A handle that was released still counts as valid and leads to its client, which by then another
  caller may have been given.
\<close>

lemma released_still_valid:
  "pl_client h = Some c \<Longrightarrow>
     handle_isValid (fst (handle_release h)) \<and> handle_get (fst (handle_release h)) = Some c"
  by (simp add: handle_release_def handle_isValid_def handle_get_def)

section \<open>Every client is given back once\<close>

text \<open>
  The handles that exist and the clients given back so far. \<open>Take\<close> is the pool handing out a client;
  an index that names no handle does nothing, and assigning a handle to itself does nothing.
\<close>

datatype 'c handle_op = Take 'c | Take_Over nat | Assign nat nat | Release nat | Destroy nat

type_synonym 'c handles = "'c pooled_connection list \<times> 'c list"

fun handle_step :: "'c handle_op \<Rightarrow> 'c handles \<Rightarrow> 'c handles" where
  "handle_step (Take c) (hs, ret) = (hs @ [new_handle (Some c) True], ret)"
| "handle_step (Take_Over i) (hs, ret) =
     (if i < length hs
      then (hs[i := snd (handle_move (hs ! i))] @ [fst (handle_move (hs ! i))], ret)
      else (hs, ret))"
| "handle_step (Assign i j) (hs, ret) =
     (if i < length hs \<and> j < length hs \<and> i \<noteq> j
      then (case handle_move_assign (hs ! i) (hs ! j) of (taken, left, given) \<Rightarrow>
              (hs[i := taken, j := left], ret @ given))
      else (hs, ret))"
| "handle_step (Release i) (hs, ret) =
     (if i < length hs
      then (case handle_release (hs ! i) of (h, given) \<Rightarrow> (hs[i := h], ret @ given))
      else (hs, ret))"
| "handle_step (Destroy i) (hs, ret) =
     (if i < length hs
      then (take i hs @ drop (Suc i) hs, ret @ handle_destroy (hs ! i))
      else (hs, ret))"

definition holds :: "'c pooled_connection \<Rightarrow> 'c multiset" where
  "holds h = mset (handle_destroy h)"

definition all_clients :: "'c handles \<Rightarrow> 'c multiset" where
  "all_clients s = mset (snd s) + sum_list (map holds (fst s))"

lemma sum_list_update_multiset:
  "i < length xs \<Longrightarrow>
     sum_list (map f (xs[i := y])) + f (xs ! i) = sum_list (map f xs) + (f y :: 'b multiset)"
  by (induction xs arbitrary: i) (auto simp: nth_Cons add_ac split: nat.split)

lemma sum_list_remove_multiset:
  fixes f :: "'a \<Rightarrow> 'b multiset"
  assumes "i < length xs"
  shows "sum_list (map f (take i xs @ drop (Suc i) xs)) + f (xs ! i) = sum_list (map f xs)"
  by (subst (4) id_take_nth_drop [OF assms]) (simp add: add_ac)

lemma holds_simps [simp]:
  "holds (new_handle (Some c) True) = {#c#}"
  "holds \<lparr>pl_client = None, pl_returnFunc = b, pl_released = b'\<rparr> = {#}"
  "holds (fst (handle_release h)) = {#}"
  "mset (snd (handle_release h)) = holds h"
  by (auto simp: holds_def handle_destroy_def handle_release_def new_handle_def split: option.splits)

lemma handle_move_simps [simp]: "fst (handle_move h) = h" "holds (snd (handle_move h)) = {#}"
  by (simp_all add: handle_move_def)

lemma handle_assign_simps [simp]:
  "holds (fst (handle_move_assign h other)) = holds other"
  "holds (fst (snd (handle_move_assign h other))) = {#}"
  "mset (snd (snd (handle_move_assign h other))) = holds h"
  by (auto simp: handle_move_assign_def holds_def handle_destroy_def handle_release_def
      split: option.splits if_splits)

lemma handle_step_conserves:
  "all_clients (handle_step op (hs, ret)) =
     all_clients (hs, ret) + (case op of Take c \<Rightarrow> {#c#} | _ \<Rightarrow> {#})"
proof (cases op)
  case (Take_Over i)
  have "sum_list (map holds (hs[i := snd (handle_move (hs ! i))])) + holds (hs ! i) = sum_list (map holds hs)"
    if "i < length hs"
    using sum_list_update_multiset [OF that, of holds "snd (handle_move (hs ! i))"] by simp
  then show ?thesis by (simp add: Take_Over all_clients_def)
next
  case (Assign i j)
  show ?thesis
  proof (cases "i < length hs \<and> j < length hs \<and> i \<noteq> j")
    case True
    obtain t l g where m: "handle_move_assign (hs ! i) (hs ! j) = (t, l, g)" by (rule prod_cases3)
    have h: "holds t = holds (hs ! j)" "holds l = {#}" "mset g = holds (hs ! i)"
      using handle_assign_simps [of "hs ! i" "hs ! j"] by (simp_all only: m fst_conv snd_conv)
    let ?S = "\<lambda>xs. sum_list (map holds xs)"
    have "?S (hs[i := t, j := l]) + holds (hs ! i) + holds (hs ! j) =
        ?S (hs[i := t, j := l]) + holds (hs[i := t] ! j) + holds (hs ! i)"
      using True by (simp add: add.assoc add.commute [of "holds (hs ! i)"])
    also have "\<dots> = ?S (hs[i := t]) + holds l + holds (hs ! i)"
      using True sum_list_update_multiset [of j "hs[i := t]" holds l] by (simp only: length_list_update)
    also have "\<dots> = ?S (hs[i := t]) + holds (hs ! i)" by (simp only: h add_0_right)
    also have "\<dots> = ?S hs + holds (hs ! j)"
      using True sum_list_update_multiset [of i hs holds t] by (simp only: h)
    finally have "?S (hs[i := t, j := l]) + holds (hs ! i) = ?S hs" by (simp only: add_right_cancel)
    then have "holds (hs ! i) + ?S (hs[i := t, j := l]) = ?S hs" by (simp only: add.commute)
    with True show ?thesis by (simp add: Assign m h all_clients_def add.assoc)
  next
    case False
    then show ?thesis by (simp only: Assign handle_step.simps if_False) simp
  qed
next
  case (Release i)
  obtain h g where r: "handle_release (hs ! i) = (h, g)" by (rule prod.exhaust)
  have h: "holds h = {#}" "mset g = holds (hs ! i)"
    using holds_simps(3,4) [of "hs ! i"] by (simp_all only: r fst_conv snd_conv)
  have "holds (hs ! i) + sum_list (map holds (hs[i := h])) = sum_list (map holds hs)" if "i < length hs"
    using sum_list_update_multiset [OF that, of holds h] h by (simp add: add.commute)
  then show ?thesis by (simp add: Release r h all_clients_def add.assoc)
next
  case (Destroy i)
  have "holds (hs ! i) + sum_list (map holds (take i hs @ drop (Suc i) hs)) = sum_list (map holds hs)"
    if "i < length hs"
    using sum_list_remove_multiset [OF that, of holds] by (simp only: add.commute)
  then show ?thesis by (simp add: Destroy all_clients_def add.assoc flip: holds_def)
qed (simp add: all_clients_def add.assoc)

fun taken_clients :: "'c handle_op list \<Rightarrow> 'c list" where
  "taken_clients [] = []"
| "taken_clients (Take c # ops) = c # taken_clients ops"
| "taken_clients (_ # ops) = taken_clients ops"

text \<open>
  However handles are moved, assigned, released and destroyed, the clients given back and those still
  to be given back are exactly the ones handed out: none is lost and none given back twice.
\<close>

lemma handles_conserve_clients:
  "all_clients (fold handle_step ops s) = all_clients s + mset (taken_clients ops)"
proof (induction ops arbitrary: s)
  case (Cons op ops)
  obtain hs ret where s: "s = (hs, ret)" by (rule prod.exhaust)
  show ?case by (cases op) (simp_all add: Cons.IH handle_step_conserves s del: handle_step.simps)
qed simp

text \<open>
  C17. Every client is given back exactly once. However handles are moved, assigned, released and
  destroyed, in whatever order, the clients given back to the pool together with those the remaining
  handles will give back when they are destroyed are exactly the clients handed out: none is lost and
  none is given back twice.
\<close>

theorem clients_given_back_once:
  "case fold handle_step ops ([], []) of (hs, ret) \<Rightarrow>
     mset ret + mset (concat (map handle_destroy hs)) = mset (taken_clients ops)"
proof -
  obtain hs ret where e: "fold handle_step ops ([], []) = (hs, ret)" by (rule prod.exhaust)
  have "sum_list (map holds hs) = mset (concat (map handle_destroy hs))"
    by (induction hs) (simp_all add: holds_def)
  with handles_conserve_clients [of ops "([], [])"] show ?thesis by (simp add: e all_clients_def)
qed

end
