(* ===== verification/Protocol_Spec.thy ===== *)
theory Protocol_Spec
  imports Packet_Parser
begin

text \<open>
  The codes and constants of \<open>types.hpp\<close> and the packet format that \<open>protocol.hpp\<close> specifies, and how
  they relate to what parser and messages do. The format of \<open>protocol.hpp\<close> shares the numbers of the
  message types with the parser, and nothing else.
\<close>

section \<open>Codes of fields, fixes, events and status\<close>

text \<open>The enumerations are bytes, and a cast can put any byte in them: the names are a table.\<close>

definition field_types :: "(u8 \<times> string) list" where
  "field_types =
     [(0, ''UNKNOWN''), (1, ''BOOLEAN''), (2, ''INT8''), (3, ''UINT8''), (4, ''INT16''), (5, ''UINT16''),
      (6, ''INT32''), (7, ''UINT32''), (8, ''INT64''), (9, ''UINT64''), (10, ''FLOAT''), (11, ''DOUBLE''),
      (12, ''STRING''), (13, ''BINARY'')]"

definition gps_fix_types :: "(u8 \<times> string) list" where
  "gps_fix_types = [(0, ''NO_FIX''), (1, ''GPS_FIX_2D''), (2, ''GPS_FIX_3D''), (3, ''DGPS_FIX'')]"

definition event_types :: "(u8 \<times> string) list" where
  "event_types =
     [(0, ''UNKNOWN''), (1, ''PANIC_BUTTON''), (2, ''GEOFENCE_ENTER''), (3, ''GEOFENCE_EXIT''),
      (4, ''SPEED_LIMIT_EXCEEDED''), (5, ''LOW_BATTERY''), (6, ''POWER_ON''), (7, ''POWER_OFF''),
      (8, ''EXTERNAL_POWER_CONNECTED''), (9, ''EXTERNAL_POWER_DISCONNECTED''), (10, ''TEMPERATURE_ALERT'')]"

definition status_flags :: "(string \<times> u8) list" where
  "status_flags =
     [(''CHARGING'', 0x01), (''MOVING'', 0x02), (''GPS_ENABLED'', 0x04), (''PANIC_BUTTON_PRESSED'', 0x08),
      (''EXTERNAL_POWER'', 0x10), (''LOW_BATTERY'', 0x20), (''TEMPERATURE_ALERT'', 0x40),
      (''DEBUG_MODE'', 0x80)]"

definition name_of_code :: "(u8 \<times> string) list \<Rightarrow> u8 \<Rightarrow> string" where
  "name_of_code t b = (case map_of t b of Some s \<Rightarrow> s | None \<Rightarrow> ''INVALID'')"

definition fieldTypeToString :: "u8 \<Rightarrow> string" where
  "fieldTypeToString b = name_of_code field_types b"

definition gpsFixTypeToString :: "u8 \<Rightarrow> string" where
  "gpsFixTypeToString b = name_of_code gps_fix_types b"

definition eventTypeToString :: "u8 \<Rightarrow> string" where
  "eventTypeToString b = name_of_code event_types b"

text \<open>The tag that the binary format of a message gives a value is the code of its type.\<close>

fun field_type_name :: "fvalue \<Rightarrow> string" where
  "field_type_name VMono = ''UNKNOWN''"
| "field_type_name (VBool b) = ''BOOLEAN''"
| "field_type_name (VI8 v) = ''INT8''"
| "field_type_name (VU8 v) = ''UINT8''"
| "field_type_name (VI16 v) = ''INT16''"
| "field_type_name (VU16 v) = ''UINT16''"
| "field_type_name (VI32 v) = ''INT32''"
| "field_type_name (VU32 v) = ''UINT32''"
| "field_type_name (VI64 v) = ''INT64''"
| "field_type_name (VU64 v) = ''UINT64''"
| "field_type_name (VFloat v) = ''FLOAT''"
| "field_type_name (VDouble v) = ''DOUBLE''"
| "field_type_name (VString s) = ''STRING''"
| "field_type_name (VBinary bs) = ''BINARY''"

lemma value_tags_are_codes:
  "value_bytes v \<noteq> [] \<Longrightarrow> fieldTypeToString (hd (value_bytes v)) = field_type_name v"
  by (cases v) (simp_all add: fieldTypeToString_def name_of_code_def field_types_def)

text \<open>The flags a status payload is decoded into are the first four of the eight.\<close>

lemma decoded_status_flags:
  assumes "8 \<le> length data" "parseStatusUpdate data m = Inr m'"
  shows "map (\<lambda>n. map_of (m_fields m') n) [''is_charging'', ''is_moving'', ''gps_enabled'', ''panic_button''] =
    map (\<lambda>(n, b). Some (VBool (data ! 6 AND b \<noteq> 0))) (take 4 status_flags)"
proof -
  have "data \<noteq> []" "1 < length data" "6 < length data" using assms(1) by auto
  with assms show ?thesis
    by (auto simp: parseStatusUpdate_def Let_def status_flags_def setField_def not_less)
qed

definition Constants_IMEI_LENGTH :: u64 where "Constants_IMEI_LENGTH = 15"
definition Constants_MAX_PAYLOAD_SIZE :: u64 where "Constants_MAX_PAYLOAD_SIZE = 4096"
definition Constants_HEADER_SIZE :: u64 where "Constants_HEADER_SIZE = 19"
definition Constants_CHECKSUM_SIZE :: u64 where "Constants_CHECKSUM_SIZE = 1"
definition Constants_MIN_PACKET_SIZE :: u64 where
  "Constants_MIN_PACKET_SIZE = Constants_HEADER_SIZE + Constants_CHECKSUM_SIZE"

lemmas constants_sizes = Constants_IMEI_LENGTH_def Constants_MAX_PAYLOAD_SIZE_def
  Constants_HEADER_SIZE_def Constants_CHECKSUM_SIZE_def Constants_MIN_PACKET_SIZE_def

text \<open>A packet of the minimal size of \<open>types.hpp\<close> is five bytes too short for the parser.\<close>

lemma minimal_packet_refused:
  assumes "length packet = unat Constants_MIN_PACKET_SIZE"
  shows "fst (parse now packet p) = Inl (Thrown (ParseError ''Packet too small: 20 bytes''))"
proof -
  have "length packet = 20" using assms by (simp add: constants_sizes)
  moreover have "dec_string 20 = ''20''" by code_simp
  ultimately show ?thesis by (auto simp: fst_parse parse_body_def)
qed

section \<open>Constants of the specification\<close>

definition protocol_MAGIC_BYTES :: "u8 list" where "protocol_MAGIC_BYTES = [0x55, 0xAA, 0x55, 0xAA]"
definition protocol_HEADER_SIZE :: u64 where "protocol_HEADER_SIZE = 9"
definition protocol_IMEI_SIZE :: u64 where "protocol_IMEI_SIZE = 15"
definition protocol_SEQUENCE_SIZE :: u64 where "protocol_SEQUENCE_SIZE = 4"
definition protocol_CHECKSUM_SIZE :: u64 where "protocol_CHECKSUM_SIZE = 4"
definition protocol_MAX_PACKET_SIZE :: u64 where "protocol_MAX_PACKET_SIZE = 8192"

lemmas protocol_sizes = protocol_HEADER_SIZE_def protocol_IMEI_SIZE_def protocol_SEQUENCE_SIZE_def
  protocol_CHECKSUM_SIZE_def protocol_MAX_PACKET_SIZE_def

definition protocol_message_type :: "(string \<times> u8) list" where
  "protocol_message_type =
     [(''UNKNOWN'', 0x00), (''GPS_UPDATE'', 0x01), (''DEVICE_STATUS'', 0x02), (''EVENT'', 0x03),
      (''CMD_ACK'', 0x04)]"

definition protocol_command_type :: "(string \<times> u8) list" where
  "protocol_command_type =
     [(''UNKNOWN'', 0x00), (''SUBSCRIBE'', 0x81), (''UNSUBSCRIBE'', 0x82), (''REBOOT'', 0x83),
      (''CONFIG'', 0x84)]"

definition protocol_event_type :: "(string \<times> u8) list" where
  "protocol_event_type =
     [(''UNKNOWN'', 0x00), (''POWER_ON'', 0x01), (''POWER_OFF'', 0x02), (''LOW_BATTERY'', 0x03),
      (''GEOFENCE'', 0x04), (''MOTION'', 0x05), (''SENSOR_ALERT'', 0x06)]"

definition protocol_status_code :: "(string \<times> u8) list" where
  "protocol_status_code =
     [(''SUCCESS'', 0x00), (''INVALID_CMD'', 0x01), (''INVALID_PARAM'', 0x02), (''NOT_SUPPORTED'', 0x03),
      (''INTERNAL_ERR'', 0x04), (''TIMEOUT'', 0x05)]"

section \<open>The specified packet\<close>

text \<open>The layout of the comment; the fields are given as bytes.\<close>

definition specified_header :: "u8 \<times> u8 \<Rightarrow> u8 \<times> u8 \<Rightarrow> u8 \<Rightarrow> u8 list" where
  "specified_header version len ty =
     protocol_MAGIC_BYTES @ [fst version, snd version, fst len, snd len, ty]"

definition specified_packet ::
    "u8 \<times> u8 \<Rightarrow> u8 \<times> u8 \<Rightarrow> u8 \<Rightarrow> u8 list \<Rightarrow> u8 list \<Rightarrow> u8 list \<Rightarrow> u8 list \<Rightarrow> u8 list" where
  "specified_packet version len ty imei sequence payload checksum =
     specified_header version len ty @ imei @ sequence @ payload @ checksum"

lemma specified_header_size: "length (specified_header v l ty) = unat protocol_HEADER_SIZE"
  by (simp add: specified_header_def protocol_MAGIC_BYTES_def protocol_sizes)

text \<open>The parser refuses every packet of the specified format, whatever its fields hold.\<close>

lemma specified_packet_refused:
  assumes "length imei = unat protocol_IMEI_SIZE" "length sequence = unat protocol_SEQUENCE_SIZE"
    "length checksum = unat protocol_CHECKSUM_SIZE"
  shows "fst (parse now (specified_packet v l ty imei sequence payload checksum) p) =
    Inl (Thrown (ParseError ''Failed to parse packet header''))"
proof -
  let ?d = "specified_packet v l ty imei sequence payload checksum"
  have d: "25 \<le> length ?d" "?d ! 0 = 0x55"
    using assms by (simp_all add: specified_packet_def specified_header_def protocol_MAGIC_BYTES_def protocol_sizes)
  moreover have "parseHeader ?d = Inr None" using parseHeader_outcome [OF d(1)] d(2) by simp
  ultimately show ?thesis by (auto simp: fst_parse parse_body_def)
qed

section \<open>The codes\<close>

text \<open>
  The numbers of the message types agree. No specified command code is a command or a message type
  of the code.
\<close>

lemma message_codes_agree:
  "map (message_type_of \<circ> snd) protocol_message_type =
     [MT_UNKNOWN, MT_GPS_UPDATE, MT_STATUS_UPDATE, MT_EVENT_NOTIFICATION, MT_COMMAND_ACK]"
  by (simp add: protocol_message_type_def message_type_of_def)

lemma command_codes_differ:
  "(n, b) \<in> set protocol_command_type \<Longrightarrow> n \<noteq> ''UNKNOWN'' \<Longrightarrow>
     command_type_of b = CT_unlisted b \<and> message_type_of b = MT_unlisted b"
  by (auto simp: protocol_command_type_def command_type_of_def message_type_of_def)

text \<open>No event has the number it is specified with.\<close>

lemma event_codes_differ:
  "(n, b) \<in> set protocol_event_type \<Longrightarrow> n \<noteq> ''UNKNOWN'' \<Longrightarrow> eventTypeToString b \<noteq> n"
  by (auto simp: protocol_event_type_def eventTypeToString_def name_of_code_def event_types_def)

end
