(* ===== verification/Spec2Isabelle.thy ===== *)
theory Spec2Isabelle
  imports Msg_Validator Command_Builder Deduplicator Gateway_Main Publisher Rabbit_Consumer
    Metrics_Reports Message_Json Gateway_Limits
    Rabbit_Channel Queue_Manager Connection_Handle Protocol_Spec
begin

text \<open>
  A gateway between telematics devices and RabbitMQ. Devices send UDP datagrams; the gateway parses
  and checks them, refuses repeated messages, limits the rate of each device, publishes accepted
  messages to queues of a broker and sends acknowledgments and commands back. The repository holds
  four components under \<open>src/components\<close>: \<open>protocol_parser\<close> (packets, messages, validation,
  commands), \<open>redis_deduplication\<close> (identifiers seen before, in a local cache and in Redis),
  \<open>rabbitmq_integration\<close> (messages, publisher, consumers, metrics) and \<open>udp-gateway\<close> (sessions,
  rate limiting, life cycle, server program). They meet in the interfaces that \<open>session.cpp\<close> and
  \<open>gateway.cpp\<close> declare; no code of the repository adapts the classes of the first three components
  to these interfaces, so the gateway is verified against the interfaces and each component against
  its own contract.

  \<^bold>\<open>How the code is modelled.\<close> Structs and classes are records with the fields of the source,
  enumerations are datatypes, machine integers are words of their width, and \<open>float\<close> and \<open>double\<close> are
  IEEE values over the rationals (Ieee_Float). Every operation is a function from the old state
  to its answer and the new state. An exception is the left side of a sum (\<open>fault\<close>, \<open>exc\<close>),
  undefined behaviour has an outcome of its own (\<open>Out_Of_Bounds\<close>, \<open>Bad_Cast\<close>, \<open>Null_Deref\<close>, or \<open>None\<close>
  where a theory says so), so its absence is a theorem. Every reading of a clock is an argument. What
  lies outside the repository is an argument too: the C library for Redis and the server behind it
  (\<open>redis_env\<close>), the JSON library (\<open>json_lib\<close>), the operations of \<open>Connection\<close> that are declared and
  never defined (\<open>connection_decls\<close>), sockets, threads and timers (\<open>udp_env\<close>), the collaborators of a
  session (\<open>deps\<close>). Mutexes make operations atomic; where threads matter they take turns of their own.
  Log output is left out.

  \<^bold>\<open>Shared theories.\<close>
  \<^item> Gw_Prelude: word types, checked reads from buffers, errors as values, decimal printing,
    association lists as unordered maps. Cpp_Strings: \<open>to_string\<close>, \<open>stoi\<close> and its relatives, the
    calendar. Ieee_Float: rounding, arithmetic, encoding. Ordered_Map: \<open>std::map\<close>. Io_Calls: state
    changes with exceptions, and what a call keeps (the collections \<open>keeps\<close> and \<open>safe\<close>).
  \<^item> Locales for the contracts: \<open>rounding\<close> (interpreted for the two formats), \<open>duplicate_cache\<close> in
    Cache_Interface (by the local cache; the deduplicator reasons with it), \<open>keyed_state\<close> in
    Keyed_State (by the rate limiter: operations on one device leave the others alone),
    \<open>bounded_fifo\<close> and its extension \<open>fifo_store\<close> in Bounded_Fifo (by the buffer of the publisher and
    the local queue), \<open>session_handling\<close> in Session (by the handler of the gateway).

  \<^bold>\<open>protocol_parser.\<close>
  \<^item> Proto_Types models \<open>types.hpp\<close> and \<open>error.hpp\<close>; Proto_Message models \<open>message.cpp\<close>: the field
    variant, the field map and the binary format. \<open>fromBinary\<close> reads back what \<open>toBinary\<close> writes for the
    field types its reader knows, and never reads past the end of its input.
  \<^item> Packet_Parser models \<open>parser.cpp\<close>. Parsing is memory safe and refuses packets for three reasons
    only; a packet laid out by the specification \<open>encode_packet\<close> is decoded exactly; a change of one
    byte never leaves a message valid.
  \<^item> Msg_Validator models \<open>validator.cpp\<close>: the range checks hold on the integers of the wire although
    the code compares rounded quotients, and no message from the parser makes the validator fail.
  \<^item> Protocol_Spec has the codes and constants of \<open>types.hpp\<close> and the packet format of
    \<open>protocol.hpp\<close>, which the parser refuses.
  \<^item> Command_Builder models \<open>builder.cpp\<close>: what every chain of calls builds, read off
    the calls. Message_Json models
    \<open>Message::toJson\<close> over the values of Json_Values.
  \<^item> At the end of this theory parser and document meet: every message from the parser has a JSON
    text that reads back with all its fields.

  \<^bold>\<open>redis_deduplication.\<close>
  \<^item> Dedup_Types models \<open>types.cpp\<close>. Local_Cache models \<open>local_cache.cpp\<close> with list nodes that have an
    identity, so a dangling iterator shows. The abstract cache \<open>lru_state\<close> is a list of entries; every
    operation refines the abstract one, which gives the theorems on hits, eviction and statistics.
  \<^item> Redis_Client and Connection_Pool model \<open>redis_client.cpp\<close> and \<open>connection_pool.cpp\<close> over
    \<open>redis_env\<close>. The inductive relation \<open>pool_reach\<close> gives the reachable pools; the pool never holds a
    connection, because \<open>connect\<close> of a client tests the connection with \<open>ping\<close>, which answers only
    when the client is already marked as connected. Connection_Handle models \<open>PooledConnection\<close>: in
    every sequence of moves, assignments and releases each client is given back once.
  \<^item> Deduplicator models \<open>deduplicator.cpp\<close>. Given a server that keeps keys for their life time,
    each identifier is reported unique once per deduplication window; failures are reported as duplicates; the counters account for every
    check. As it is written the deduplicator cannot be initialised: also a theorem.

  \<^bold>\<open>udp-gateway.\<close>
  \<^item> Gw_Types models \<open>types.hpp\<close>; Rate_Limiter models \<open>rate_limiter.cpp\<close>: tokens and debts stay
    bounded, the number of accepted messages is exact for a burst, priorities are monotone, silence
    restores service, devices are isolated. Rate_Window proves the contract of a token bucket: in a
    window of up to a day (rates up to 1000 per second, buckets up to a million) a device gets a full
    bucket and what the rate yields, with a term for the rounding errors of the doubles.
  \<^item> Session models \<open>session.cpp\<close>: validation steps, acknowledgment, error report, the receive loop.
    Gateway models \<open>gateway.cpp\<close>: its handler, queue names and life cycle. Whatever the devices send,
    the inbound queues get exactly the accepted messages, in order and once each; the loop survives
    every exception; a refused packet is not answered. The life cycle keeps the gateway from ever
    having a session, for every sequence of calls. Gateway_Limits composes the session with the
    limiter: the bound on accepted messages holds for every run of a session.
  \<^item> Gateway_Main models \<open>main.cpp\<close> with the worker threads while the server runs: its statistics
    are always zero.

  \<^bold>\<open>rabbitmq_integration.\<close>
  \<^item> Rabbit_Types and Rabbit_Records model \<open>types.hpp\<close> and \<open>types.cpp\<close>; Rabbit_Message and Message_Utils model \<open>message.cpp\<close>:
    serialization round trip, splitting and combining, and after any calls the headers of a message
    are the map that the calls describe.
  \<^item> Rabbit_Queue models \<open>local_queue.cpp\<close> and refines a bounded list. Rabbit_Connection models what
    \<open>connection.cpp\<close> compiles. Publisher models \<open>publisher.cpp\<close>; in every sequence of calls it is the
    bounded list \<open>outbox\<close> that is never sent.
  \<^item> Rabbit_Consumer models \<open>consumer.cpp\<close>. The threads take turns; the inductive relation
    \<open>program_step\<close> has every interleaving of the owner and the threads, and the theorems are
    invariants of its reachable states.
  \<^item> Rabbit_Channel models \<open>channel.cpp\<close>, read as the code it means to be: in every sequence of calls
    each one succeeds, and the channel is a switch that opening and closing move. Queue_Manager models
    what \<open>queue_manager.cpp\<close> has: constructors and moves.
  \<^item> Metrics_Collector and Metrics_Reports model \<open>metrics.hpp\<close> and \<open>metrics.cpp\<close>: counters and
    Prometheus increments agree with the events, alerts keep their cooldown.

  \<^bold>\<open>Hypotheses on code outside.\<close> \<open>json_laws\<close>: a printed text reads back as the value it was printed
  from, is not empty, and no JSON text begins with the letter M; printing itself may fail. \<open>dedup_contract\<close>:
  the deduplication service of the gateway answers from the set of keys recorded and forgets none; an
  assumption about runs that are shorter than its window. \<open>counters_accepted\<close> and \<open>errors_recorded\<close>: the
  metrics collector, if there is one, does not throw when a counter is incremented or an error recorded;
  the interface does not say so, and without it an accepted message is lost or the receive loop
  ends, as recorded in the findings. \<open>redis_server\<close>: the server has a clock and keys with the times they expire
  at; SET NX PX answers OK and stores the key when it is absent or its time has come, and nil otherwise;
  PING answers PONG; other keys are kept until their time. Only \<open>exactly_once\<close> asks for it, the other
  theorems about Redis hold for any answers. The witnesses of the theorems that use these hypotheses
  satisfy them with concrete functions.

  \<^bold>\<open>Loops, bounds and fuel.\<close> Loops are structural recursion, except for three. The loop of
  \<open>splitMessage\<close> is a partial function whose value \<open>None\<close> would be a loop without end;
  \<open>splitMessage_returns\<close> says it never is. Decimal printing and the scaling of byte counts recurse on
  a number that shrinks. A consumer thread loops for ever by design: its turns are steps of a
  relation, and four turns of a thread are enough for the theorem about them. Loops that wait (the
  pool's condition variable, the maintenance and collection threads, the server's main loop) are
  modelled by one round, repeated as often as the run asks for.

  \<^bold>\<open>Not modelled.\<close> Operations that are declared without a body: those of \<open>QueueManager\<close> on queues and
  exchanges and the classes built on it, most of \<open>Connection\<close> (its bodies are comments),
  \<open>BatchPublisher\<close>, \<open>PublisherPool\<close> and some operations of \<open>Message\<close>. \<open>config.cpp\<close> of the parser is not
  built and sets members that do not exist, so there is no state for its assignments to change.
  \<open>nlohmann/json.hpp\<close> is a vendored library. Tests, examples and benchmarks are clients. Left out of
  modelled files: logging, macros, enumerations no code uses and \<open>Message::getHeaderDouble\<close>. Within
  the conversions of the standard library, locale settings other than the default one are not
  considered.
\<close>

section \<open>From the packet to the document\<close>

text \<open>
  Every floating-point field the packet parser stores is a small quotient of integers, hence finite,
  and no field name occurs twice: what the JSON form of a message needs.
\<close>

definition documented :: "message \<Rightarrow> bool" where
  "documented m \<longleftrightarrow>
     list_all (\<lambda>(n, v). finite_field v) (m_fields m) \<and> distinct (map fst (m_fields m))"

lemma list_all_al_set:
  "list_all P xs \<Longrightarrow> P (k, v) \<Longrightarrow> list_all P (al_set k v xs)"
  by (induction k v xs rule: al_set.induct) auto

lemma documented_steps [simp]:
  "documented m \<Longrightarrow> finite_field v \<Longrightarrow> documented (setField n v m)"
  "documented m \<Longrightarrow> documented (addValidationError e m)"
  by (auto simp: documented_def setField_def addValidationError_def intro!: list_all_al_set)

lemma finite_numbers [simp]:
  "finite_field (VU32 w)" "finite_field (VI32 i)" "finite_field (VBool b)"
  "finite_field (VBinary bs)" "finite_field (VString s)"
  by (simp_all add: finite_field_def)

lemma f32_quotient:
  assumes "\<bar>n\<bar> \<le> 65536" "1 \<le> c"
  shows "\<exists>r. f32 (of_int n / c) = Fin r"
proof -
  have "\<bar>of_int n / c\<bar> \<le> \<bar>of_int n\<bar>"
    using assms(2) by (simp add: abs_divide divide_le_eq mult_le_cancel_left1)
  also have "\<dots> \<le> 65536" using assms(1) by linarith
  finally have "- 65536 \<le> of_int n / c" "of_int n / c \<le> 65536" by (simp_all only: abs_le_iff minus_le_iff)
  then have "(of_int (- 65536) :: rat) \<le> of_int n / c" "of_int n / c \<le> (of_int 65536 :: rat)"
    by simp_all
  from sgl.rnd_between [OF this] have "\<bar>rnd32 (of_int n / c)\<bar> \<le> 65536" by (simp add: abs_le_iff)
  also have "(65536 :: rat) < 2 powi 128" by simp
  finally show ?thesis by (simp add: f32_eq)
qed

lemma u16_range: "\<bar>uint (w :: u16)\<bar> \<le> 65536" "\<bar>sint (w :: u16)\<bar> \<le> 65536"
  using uint_lt2p [of w] sint_ge [of w] sint_lt [of w] by auto

lemma finite_fractions [simp]:
  "finite_field (VDouble (double_bits (signed (w :: u32) / 1000000)))"
  "finite_field (VFloat (float_bits (unsigned (v :: u16) / 10)))"
  "finite_field (VFloat (float_bits (unsigned (v :: u16) / 100)))"
  "finite_field (VFloat (float_bits (signed (v :: u16) / 10)))"
  using f64_micro [OF sint_u32_bound, of w] f32_quotient [OF u16_range(1), of 10 v]
    f32_quotient [OF u16_range(1), of 100 v] f32_quotient [OF u16_range(2), of 10 v]
  by (auto simp: finite_field_def)

lemma parsers_documented:
  "documented m \<Longrightarrow> parseGPSUpdate d m = Inr m' \<Longrightarrow> documented m'"
  "documented m \<Longrightarrow> parseStatusUpdate d m = Inr m' \<Longrightarrow> documented m'"
  "documented m \<Longrightarrow> parseEventNotification d m = Inr m' \<Longrightarrow> documented m'"
  "documented m \<Longrightarrow> parseCommandAck d m = Inr m' \<Longrightarrow> documented m'"
  subgoal by (auto simp: parseGPSUpdate_def and_then_Inr_iff Let_def split: if_splits)
  subgoal by (auto simp: parseStatusUpdate_def and_then_Inr_iff Let_def split: if_splits)
  subgoal by (auto simp: parseEventNotification_def and_then_Inr_iff Let_def split: if_splits)
  subgoal by (auto simp: parseCommandAck_def and_then_Inr_iff Let_def split: if_splits)
  done

lemma parsePayload_documented:
  "documented m \<Longrightarrow> parsePayload d t m = Inr m' \<Longrightarrow> documented m'"
  by (cases t) (auto simp: parsePayload_def dest: parsers_documented)

lemma parse_documented:
  assumes "fst (parse now packet p) = Inr m"
  shows "documented m"
proof -
  have start: "documented (fold addValidationError es (new_message i n t v [] s))" for es i n t v s
    by (simp add: fold_addValidationError documented_def new_message_def)
  from assms have "parse_body now packet = Inr m" by (simp add: fst_parse split: if_splits)
  then show ?thesis
    by (auto simp: parse_body_def and_then_Inr_iff Let_def split: if_splits option.splits
        intro: start dest: parsePayload_documented [OF start])
qed

text \<open>
  C13. A packet that was parsed can be published as a document and read again: for every packet
  the parser accepts, the JSON text of its message, when the library prints one, parses to the same
  document, in which every field of the message, and nothing else, is found under its name.
\<close>

theorem parsed_packet_document:
  assumes "json_laws L" "fst (parse now packet p) = Inr m" "json_dump L (toJson m) = Inr s"
  shows "json_parse L s = Inr (toJson m) \<and>
    and_then (json_member ''fields'' (toJson m)) (json_member name) =
      Inr (case map_of (m_fields m) name of None \<Rightarrow> JNull | Some v \<Rightarrow> field_json v)"
proof -
  from parse_documented [OF assms(2)]
  have f: "list_all (\<lambda>(n, v). finite_field v) (m_fields m)" "distinct (map fst (m_fields m))"
    by (simp_all add: documented_def)
  have "json_parse L s = Inr (toJson m)"
    using json_dump_parse [OF assms(1) toJson_plain [OF f(1)] assms(3)] .
  with toJson_fields_back [OF assms(1) f assms(3), of name] show ?thesis by simp
qed

definition packet_document :: string where
  "packet_document =
     ''{\"fields\":{\"raw_payload\":\"0102030405\"},\"imei\":\"123456789012345\",'' @
     ''\"messageType\":9,\"sequence\":7,\"timestamp\":\"1970-01-01T00:00:00Z\",'' @
     ''\"version\":{\"major\":1,\"minor\":0}}''"

theorem parsed_packet_document_witness:
  "\<exists>m. fst (parse 0 sample_packet (new_parser default_parser_config)) = Inr m \<and>
     json_parse (one_document (toJson m) packet_document) packet_document = Inr (toJson m) \<and>
     and_then (json_member ''fields'' (toJson m)) (json_member ''raw_payload'') =
       Inr (JStr ''0102030405'')"
proof -
  have "sample_packet \<noteq> []" by (simp add: sample_packet_def encode_packet_def Let_def)
  then obtain m where m: "fst (parse 0 sample_packet (new_parser default_parser_config)) = Inr m"
      "m_fields m = [(''raw_payload'', VBinary [1, 2, 3, 4, 5])]"
    by (simp add: fst_parse sample_packet_def parse_body_encode isValidImei_def message_type_of_def
        validateHeader_def parsePayload_def new_message_def is_digit_def setField_def)
  let ?L = "one_document (toJson m) packet_document"
  have "json_laws ?L" by (rule one_document_laws) (simp add: packet_document_def)
  moreover have "json_dump ?L (toJson m) = Inr packet_document" by (simp add: one_document_def)
  ultimately have "json_parse ?L packet_document = Inr (toJson m) \<and>
      and_then (json_member ''fields'' (toJson m)) (json_member ''raw_payload'') =
        Inr (case map_of (m_fields m) ''raw_payload'' of None \<Rightarrow> JNull | Some v \<Rightarrow> field_json v)"
    using parsed_packet_document [OF _ m(1)] by blast
  moreover have "field_json (VBinary [1, 2, 3, 4, 5]) = JStr ''0102030405''" by code_simp
  ultimately show ?thesis using m by simp
qed

end
